(* ===== verification/Prelude.thy ===== *)
theory Prelude
  imports Main "HOL-Library.Word"
begin

text \<open>
  Shared vocabulary of the development: the machine integers of the 32-bit target, the
  three ways a Rust call can end (a value, an error returned with \<open>?\<close>, a panic), the
  sequencing of calls that also mutate a state, and the little-endian byte codecs of the
  standard library (\<open>to_le_bytes\<close> and \<open>from_le_bytes\<close>), with the lemmas the components share.

  The firmware is built with the release profile (scripts/run and scripts/ota_build pass
  \<open>--release\<close>, and Cargo.toml turns \<open>overflow-checks\<close> off there), so unchecked integer
  arithmetic wraps, as it does on words.
\<close>

unbundle bit_operations_syntax

type_synonym u8 = "8 word"
type_synonym u16 = "16 word"
type_synonym u32 = "32 word"
type_synonym u64 = "64 word"
type_synonym i32 = "32 word"
type_synonym i64 = "64 word"
type_synonym usize = "32 word"

named_theorems action_simps "how the outcome of a sequence of calls arises from its parts"
named_theorems codec_simps "lengths and round trips of the byte codecs"

section \<open>Outcomes and actions\<close>

datatype ('a, 'e) outcome = Ok 'a | Err 'e | Panic

type_synonym ('s, 'a, 'e) action = "'s \<Rightarrow> ('a, 'e) outcome \<times> 's"

definition ret :: "'a \<Rightarrow> ('s, 'a, 'e) action" where
  "ret a s = (Ok a, s)"

definition fail :: "'e \<Rightarrow> ('s, 'a, 'e) action" where
  "fail e s = (Err e, s)"

definition panic :: "('s, 'a, 'e) action" where
  "panic s = (Panic, s)"

text \<open>
  \<open>tryA m k\<close> is \<open>let a = m?; k(a)\<close>: an error or a panic of \<open>m\<close> ends the whole, with the
  state \<open>m\<close> left behind.
\<close>

definition tryA :: "('s, 'a, 'e) action \<Rightarrow> ('a \<Rightarrow> ('s, 'b, 'e) action) \<Rightarrow> ('s, 'b, 'e) action" where
  "tryA m k s =
     (case m s of
        (Ok a, t) \<Rightarrow> k a t
      | (Err e, t) \<Rightarrow> (Err e, t)
      | (Panic, t) \<Rightarrow> (Panic, t))"

definition get_state :: "('s \<Rightarrow> 'a) \<Rightarrow> ('s, 'a, 'e) action" where
  "get_state f s = (Ok (f s), s)"

definition modify :: "('s \<Rightarrow> 's) \<Rightarrow> ('s, unit, 'e) action" where
  "modify f s = (Ok (), f s)"

text \<open>A call into code outside the repository returns \<open>'e + 'a\<close>; \<open>?\<close> converts its error.\<close>

definition external :: "('x \<Rightarrow> 'e) \<Rightarrow> ('s \<Rightarrow> ('x + 'a) \<times> 's) \<Rightarrow> ('s, 'a, 'e) action" where
  "external conv m s =
     (case m s of
        (Inr a, t) \<Rightarrow> (Ok a, t)
      | (Inl x, t) \<Rightarrow> (Err (conv x), t))"

text \<open>\<open>map_err\<close>, or the \<open>From\<close> conversion that \<open>?\<close> applies between error types.\<close>

definition map_err :: "('e \<Rightarrow> 'e2) \<Rightarrow> ('s, 'a, 'e) action \<Rightarrow> ('s, 'a, 'e2) action" where
  "map_err conv m s =
     (case m s of
        (Ok a, t) \<Rightarrow> (Ok a, t)
      | (Err e, t) \<Rightarrow> (Err (conv e), t)
      | (Panic, t) \<Rightarrow> (Panic, t))"

text \<open>Running an action on a part of a larger state.\<close>

definition zoom :: "('s \<Rightarrow> 't) \<Rightarrow> ('t \<Rightarrow> 's \<Rightarrow> 's) \<Rightarrow> ('t, 'a, 'e) action \<Rightarrow> ('s, 'a, 'e) action" where
  "zoom getp putp m s = (case m (getp s) of (r, t) \<Rightarrow> (r, putp t s))"

lemma ret_eq [action_simps]: "ret a s = (r, t) \<longleftrightarrow> r = Ok a \<and> t = s"
  by (auto simp: ret_def)

lemma fail_eq [action_simps]: "fail e s = (r, t) \<longleftrightarrow> r = Err e \<and> t = s"
  by (auto simp: fail_def)

lemma panic_eq [action_simps]: "panic s = (r, t) \<longleftrightarrow> r = Panic \<and> t = s"
  by (auto simp: panic_def)

lemma get_state_eq [action_simps]: "get_state f s = (r, t) \<longleftrightarrow> r = Ok (f s) \<and> t = s"
  by (auto simp: get_state_def)

lemma modify_eq [action_simps]: "modify f s = (r, t) \<longleftrightarrow> r = Ok () \<and> t = f s"
  by (auto simp: modify_def)

lemma tryA_Ok_iff [action_simps]:
  "tryA m k s = (Ok b, u) \<longleftrightarrow> (\<exists>a t. m s = (Ok a, t) \<and> k a t = (Ok b, u))"
  by (auto simp: tryA_def split: prod.splits outcome.splits)

lemma tryA_Err_iff [action_simps]:
  "tryA m k s = (Err e, u) \<longleftrightarrow>
     m s = (Err e, u) \<or> (\<exists>a t. m s = (Ok a, t) \<and> k a t = (Err e, u))"
  by (auto simp: tryA_def split: prod.splits outcome.splits)

lemma tryA_Panic_iff [action_simps]:
  "tryA m k s = (Panic, u) \<longleftrightarrow>
     m s = (Panic, u) \<or> (\<exists>a t. m s = (Ok a, t) \<and> k a t = (Panic, u))"
  by (auto simp: tryA_def split: prod.splits outcome.splits)

lemma tryA_run [simp]:
  "m s = (Ok a, t) \<Longrightarrow> tryA m k s = k a t"
  "m s = (Err e, t) \<Longrightarrow> tryA m k s = (Err e, t)"
  "m s = (Panic, t) \<Longrightarrow> tryA m k s = (Panic, t)"
  by (simp_all add: tryA_def)

lemma tryA_ret [simp]: "tryA (ret a) k = k a"
  by (simp add: fun_eq_iff tryA_def ret_def)

lemma tryA_assoc: "tryA (tryA m k) l = tryA m (\<lambda>a. tryA (k a) l)"
  by (simp add: fun_eq_iff tryA_def split: prod.splits outcome.splits)

lemma external_Ok_iff [action_simps]:
  "external conv m s = (Ok a, t) \<longleftrightarrow> m s = (Inr a, t)"
  by (auto simp: external_def split: prod.splits sum.splits)

lemma external_Err_iff [action_simps]:
  "external conv m s = (Err e, t) \<longleftrightarrow> (\<exists>x. m s = (Inl x, t) \<and> e = conv x)"
  by (auto simp: external_def split: prod.splits sum.splits)

lemma external_no_panic [action_simps]: "external conv m s \<noteq> (Panic, t)"
  by (auto simp: external_def split: prod.splits sum.splits)

lemma external_run [simp]:
  "m s = (Inr a, t) \<Longrightarrow> external conv m s = (Ok a, t)"
  "m s = (Inl x, t) \<Longrightarrow> external conv m s = (Err (conv x), t)"
  by (simp_all add: external_def)

lemma map_err_Ok_iff [action_simps]: "map_err conv m s = (Ok a, t) \<longleftrightarrow> m s = (Ok a, t)"
  by (auto simp: map_err_def split: prod.splits outcome.splits)

lemma map_err_Err_iff [action_simps]:
  "map_err conv m s = (Err e, t) \<longleftrightarrow> (\<exists>x. m s = (Err x, t) \<and> e = conv x)"
  by (auto simp: map_err_def split: prod.splits outcome.splits)

lemma map_err_Panic_iff [action_simps]: "map_err conv m s = (Panic, t) \<longleftrightarrow> m s = (Panic, t)"
  by (auto simp: map_err_def split: prod.splits outcome.splits)

lemma zoom_eq [action_simps]:
  "zoom g p m s = (r, u) \<longleftrightarrow> (\<exists>t. m (g s) = (r, t) \<and> u = p t s)"
  by (auto simp: zoom_def split: prod.splits)

section \<open>Calls that may not return\<close>

type_synonym ('s, 'a, 'e) process = "'s \<Rightarrow> (('a, 'e) outcome \<times> 's) option"

definition tryP :: "('s, 'a, 'e) process \<Rightarrow> ('a \<Rightarrow> ('s, 'b, 'e) process) \<Rightarrow> ('s, 'b, 'e) process" where
  "tryP m k s =
     (case m s of
        None \<Rightarrow> None
      | Some (Ok a, t) \<Rightarrow> k a t
      | Some (Err e, t) \<Rightarrow> Some (Err e, t)
      | Some (Panic, t) \<Rightarrow> Some (Panic, t))"

definition returning :: "('s, 'a, 'e) action \<Rightarrow> ('s, 'a, 'e) process" where
  "returning m s = Some (m s)"

text \<open>A call that is awaited: a library's future, which may never complete.\<close>

definition awaits :: "('x \<Rightarrow> 'e) \<Rightarrow> ('s \<Rightarrow> (('x + 'a) \<times> 's) option) \<Rightarrow> ('s, 'a, 'e) process" where
  "awaits conv m s =
     (case m s of
        None \<Rightarrow> None
      | Some (Inr a, t) \<Rightarrow> Some (Ok a, t)
      | Some (Inl x, t) \<Rightarrow> Some (Err (conv x), t))"

fun convert_error :: "('e \<Rightarrow> 'e2) \<Rightarrow> ('a, 'e) outcome \<Rightarrow> ('a, 'e2) outcome" where
  "convert_error conv (Ok a) = Ok a"
| "convert_error conv (Err e) = Err (conv e)"
| "convert_error conv Panic = Panic"

definition errP :: "('e \<Rightarrow> 'e2) \<Rightarrow> ('s, 'a, 'e) process \<Rightarrow> ('s, 'a, 'e2) process" where
  "errP conv m s = map_option (\<lambda>(r, t). (convert_error conv r, t)) (m s)"

definition zoomP :: "('s \<Rightarrow> 't) \<Rightarrow> ('t \<Rightarrow> 's \<Rightarrow> 's) \<Rightarrow> ('t, 'a, 'e) process \<Rightarrow> ('s, 'a, 'e) process" where
  "zoomP g p m s = map_option (\<lambda>(r, t). (r, p t s)) (m (g s))"

lemma tryP_Some:
  fixes r :: "('b, 'e) outcome" and m :: "('s, 'a, 'e) process"
  assumes "tryP m k s = Some (r, u)"
  obtains (stops) q :: "('a, 'e) outcome" where "m s = Some (q, u)" "\<And>a. q \<noteq> Ok a" "\<And>a. r \<noteq> Ok a"
      "\<And>e. r = Err e \<longleftrightarrow> q = Err e" 
  | (continues) a t where "m s = Some (Ok a, t)" "k a t = Some (r, u)"
  using assms
  by (auto simp: tryP_def split: option.splits outcome.splits)

lemma tryP_Ok:
  "tryP m k s = Some (Ok b, u) \<longleftrightarrow> (\<exists>a t. m s = Some (Ok a, t) \<and> k a t = Some (Ok b, u))"
  by (auto simp: tryP_def split: option.splits outcome.splits)

lemma tryP_cong:
  "m s = m' s \<Longrightarrow> (\<And>a t. m s = Some (Ok a, t) \<Longrightarrow> k a t = k' a t) \<Longrightarrow> tryP m k s = tryP m' k' s"
  by (auto simp: tryP_def split: option.split prod.split outcome.split)

lemma returning_iff: "returning m s = Some (r, t) \<longleftrightarrow> m s = (r, t)"
  by (simp add: returning_def)

lemma convert_error_iff [simp]:
  "convert_error conv r = Ok a \<longleftrightarrow> r = Ok a"
  "convert_error conv r = Panic \<longleftrightarrow> r = Panic"
  "convert_error conv r = Err e \<longleftrightarrow> (\<exists>x. r = Err x \<and> e = conv x)"
  by (cases r; auto)+

lemma errP_iff: "errP conv m s = Some (r, t) \<longleftrightarrow> (\<exists>q. m s = Some (q, t) \<and> r = convert_error conv q)"
  by (auto simp: errP_def)

lemma errP_Ok: "errP conv m s = Some (Ok a, t) \<longleftrightarrow> m s = Some (Ok a, t)"
  by (auto simp: errP_iff) (metis convert_error_iff(1))

lemma errP_Err: "errP conv m s = Some (Err e, t) \<longleftrightarrow> (\<exists>x. m s = Some (Err x, t) \<and> e = conv x)"
  by (auto simp: errP_iff) (metis convert_error_iff(3))+

lemma errP_Panic: "errP conv m s = Some (Panic, t) \<longleftrightarrow> m s = Some (Panic, t)"
  by (auto simp: errP_iff) (metis convert_error_iff(2))

lemma zoomP_iff: "zoomP g p m s = Some (r, u) \<longleftrightarrow> (\<exists>t. m (g s) = Some (r, t) \<and> u = p t s)"
  by (auto simp: zoomP_def)

lemma tryP_Err:
  "tryP m k s = Some (Err e, u) \<longleftrightarrow> m s = Some (Err e, u) \<or> (\<exists>a t. m s = Some (Ok a, t) \<and> k a t = Some (Err e, u))"
  by (auto simp: tryP_def split: option.splits outcome.splits)

lemma tryP_Panic:
  "tryP m k s = Some (Panic, u) \<longleftrightarrow> m s = Some (Panic, u) \<or> (\<exists>a t. m s = Some (Ok a, t) \<and> k a t = Some (Panic, u))"
  by (auto simp: tryP_def split: option.splits outcome.splits)

lemma tryP_run [simp]:
  "m s = None \<Longrightarrow> tryP m k s = None"
  "m s = Some (Ok a, t) \<Longrightarrow> tryP m k s = k a t"
  "m s = Some (Err e, t) \<Longrightarrow> tryP m k s = Some (Err e, t)"
  "m s = Some (Panic, t) \<Longrightarrow> tryP m k s = Some (Panic, t)"
  by (simp_all add: tryP_def)

lemma awaits_iff:
  "awaits conv m s = None \<longleftrightarrow> m s = None"
  "awaits conv m s = Some (Ok a, t) \<longleftrightarrow> m s = Some (Inr a, t)"
  "awaits conv m s = Some (Err e, t) \<longleftrightarrow> (\<exists>x. m s = Some (Inl x, t) \<and> e = conv x)"
  "awaits conv m s \<noteq> Some (Panic, t)"
  by (auto simp: awaits_def split: option.splits sum.splits)

lemma awaits_run [simp]:
  "m s = None \<Longrightarrow> awaits conv m s = None"
  "m s = Some (Inr a, t) \<Longrightarrow> awaits conv m s = Some (Ok a, t)"
  "m s = Some (Inl x, t) \<Longrightarrow> awaits conv m s = Some (Err (conv x), t)"
  by (simp_all add: awaits_def)

lemma returning_ret [simp]: "returning (ret a) s = Some (Ok a, s)"
  by (simp add: returning_def ret_def)

lemma returning_eq [simp]: "m s = (r, t) \<Longrightarrow> returning m s = Some (r, t)"
  by (simp add: returning_def)

lemma zoomP_run [simp]:
  "m (g s) = None \<Longrightarrow> zoomP g p m s = None"
  "m (g s) = Some (r, t) \<Longrightarrow> zoomP g p m s = Some (r, p t s)"
  by (simp_all add: zoomP_def)

section \<open>Byte codecs\<close>

primrec to_le_bytes :: "nat \<Rightarrow> 'a::len word \<Rightarrow> u8 list" where
  "to_le_bytes 0 w = []"
| "to_le_bytes (Suc n) w = ucast w # to_le_bytes n (drop_bit 8 w)"

primrec from_le_bytes :: "u8 list \<Rightarrow> 'a::len word" where
  "from_le_bytes [] = 0"
| "from_le_bytes (b # bs) = ucast b OR push_bit 8 (from_le_bytes bs)"

abbreviation u32_le :: "u32 \<Rightarrow> u8 list" where
  "u32_le \<equiv> to_le_bytes 4"

abbreviation u64_le :: "u64 \<Rightarrow> u8 list" where
  "u64_le \<equiv> to_le_bytes 8"

lemma length_to_le_bytes [simp, codec_simps]: "length (to_le_bytes n w) = n"
  by (induction n arbitrary: w) simp_all

lemma from_to_le_bytes_ucast:
  "(from_le_bytes (to_le_bytes n w) :: 'b::len word) = ucast (take_bit (8 * n) (w :: 'a::len word))"
proof (induction n arbitrary: w)
  case 0
  then show ?case by simp
next
  case (Suc n)
  have "(ucast (ucast w :: u8) :: 'b word) OR push_bit 8 (ucast (take_bit (8 * n) (drop_bit 8 w)))
      = ucast (take_bit (8 * Suc n) w)"
    by (rule bit_word_eqI)
      (auto simp: bit_or_iff bit_ucast_iff bit_push_bit_iff bit_take_bit_iff bit_drop_bit_eq)
  with Suc show ?case by simp
qed

lemma from_to_le_bytes: "from_le_bytes (to_le_bytes n w) = take_bit (8 * n) (w :: 'a::len word)"
  by (simp add: from_to_le_bytes_ucast)

lemma from_le_bytes_append:
  "from_le_bytes (xs @ ys) = (from_le_bytes xs OR push_bit (8 * length xs) (from_le_bytes ys) :: 'a::len word)"
proof (induction xs)
  case Nil
  then show ?case by simp
next
  case (Cons x xs)
  have "push_bit 8 (push_bit (8 * length xs) (from_le_bytes ys)) =
      (push_bit (8 * length (x # xs)) (from_le_bytes ys) :: 'a word)"
    by simp
  with Cons show ?case by (simp add: push_bit_or or.assoc)
qed

lemma from_to_le_u32 [simp, codec_simps]: "from_le_bytes (u32_le w) = w"
  by (simp add: from_to_le_bytes take_bit_word_eq_self)

lemma from_to_le_u64 [simp, codec_simps]: "from_le_bytes (u64_le w) = w"
  by (simp add: from_to_le_bytes take_bit_word_eq_self)

lemma bit_from_le_bytes: "bit (from_le_bytes bs :: 'a::len word) i \<Longrightarrow> i < 8 * length bs"
proof (induction bs arbitrary: i)
  case Nil
  then show ?case by simp
next
  case (Cons b bs)
  from Cons.prems consider "bit b i" | "8 \<le> i" "bit (from_le_bytes bs :: 'a word) (i - 8)"
    by (auto simp: bit_or_iff bit_ucast_iff bit_push_bit_iff)
  then show ?case
  proof cases
    case 1
    then show ?thesis by (auto dest: bit_imp_le_length)
  next
    case 2
    then show ?thesis using Cons.IH [of "i - 8"] by auto
  qed
qed

lemma to_from_le_bytes:
  "8 * length bs \<le> LENGTH('a) \<Longrightarrow> to_le_bytes (length bs) (from_le_bytes bs :: 'a::len word) = bs"
proof (induction bs)
  case Nil
  then show ?case by simp
next
  case (Cons b bs)
  let ?r = "from_le_bytes bs :: 'a word"
  have small: "8 * length bs + 8 \<le> LENGTH('a)" using Cons.prems by simp
  have low: "ucast (ucast b OR push_bit 8 ?r) = b"
    using small
    by (intro bit_word_eqI) (auto simp: bit_ucast_iff bit_or_iff bit_push_bit_iff)
  have high: "drop_bit 8 (ucast b OR push_bit 8 ?r) = ?r"
    using small
    by (intro bit_word_eqI)
      (fastforce simp: bit_drop_bit_eq bit_or_iff bit_ucast_iff bit_push_bit_iff
                 dest: bit_imp_le_length bit_from_le_bytes)
  have "to_le_bytes (length bs) ?r = bs" using Cons.IH small by simp
  with low high show ?case by simp
qed

section \<open>Word arithmetic\<close>

text \<open>Adding a length to an offset, where the sum does not wrap.\<close>

lemma unat_plus_of_nat:
  "unat (w :: 'a::len word) + n < 2 ^ LENGTH('a) \<Longrightarrow> unat (w + of_nat n) = unat w + n"
  by (simp add: unat_word_ariths unsigned_of_nat take_bit_eq_mod mod_simps)

section \<open>Buffers and memories\<close>

text \<open>\<open>buf[i..i + src.len()].copy_from_slice(src)\<close>, for a range inside the buffer.\<close>

definition splice :: "nat \<Rightarrow> 'a list \<Rightarrow> 'a list \<Rightarrow> 'a list" where
  "splice i src buf = take i buf @ src @ drop (i + length src) buf"

text \<open>\<open>buf[i..i + n]\<close>, for a range inside the buffer.\<close>

definition slice :: "nat \<Rightarrow> nat \<Rightarrow> 'a list \<Rightarrow> 'a list" where
  "slice i n buf = take n (drop i buf)"

lemma length_splice [simp, codec_simps]:
  "i + length src \<le> length buf \<Longrightarrow> length (splice i src buf) = length buf"
  by (simp add: splice_def)

lemma length_slice [simp, codec_simps]:
  "i + n \<le> length buf \<Longrightarrow> length (slice i n buf) = n"
  by (simp add: slice_def)

lemma slice_splice_same [codec_simps]:
  "i + length src \<le> length buf \<Longrightarrow> length src = n \<Longrightarrow> slice i n (splice i src buf) = src"
  by (auto simp: slice_def splice_def)

lemma slice_splice_other [codec_simps]:
  "i + length src \<le> length buf \<Longrightarrow> j + n \<le> i \<or> i + length src \<le> j \<Longrightarrow> j + n \<le> length buf \<Longrightarrow>
     slice j n (splice i src buf) = slice j n buf"
  by (rule nth_equalityI) (auto simp: slice_def splice_def nth_append)

text \<open>
  \<open>poke m a bs\<close> is the memory \<open>m\<close> after the bytes \<open>bs\<close> are stored from address \<open>a\<close> on;
  \<open>peek m a n\<close> reads \<open>n\<close> bytes from \<open>a\<close> on.
\<close>

type_synonym memory = "nat \<Rightarrow> u8"

definition poke :: "memory \<Rightarrow> nat \<Rightarrow> u8 list \<Rightarrow> memory" where
  "poke m a bs = (\<lambda>x. if a \<le> x \<and> x < a + length bs then bs ! (x - a) else m x)"

definition peek :: "memory \<Rightarrow> nat \<Rightarrow> nat \<Rightarrow> u8 list" where
  "peek m a n = map (\<lambda>i. m (a + i)) [0..<n]"

lemma length_peek [simp, codec_simps]: "length (peek m a n) = n"
  by (simp add: peek_def)

lemma peek_poke_same [simp, codec_simps]: "length bs = n \<Longrightarrow> peek (poke m a bs) a n = bs"
  by (auto simp: peek_def poke_def intro!: nth_equalityI)

lemma peek_poke_other [codec_simps]:
  "a + n \<le> b \<or> b + length bs \<le> a \<Longrightarrow> peek (poke m b bs) a n = peek m a n"
  by (auto simp: peek_def poke_def)

lemma poke_outside: "x < a \<or> a + length bs \<le> x \<Longrightarrow> poke m a bs x = m x"
  by (auto simp: poke_def)

lemma poke_Nil [simp]: "poke m a [] = m"
  by (auto simp: poke_def fun_eq_iff)

lemma poke_poke_append: "poke (poke m a bs) (a + length bs) cs = poke m a (bs @ cs)"
  by (auto simp: poke_def fun_eq_iff nth_append)

lemma peek_cong: "(\<And>x. a \<le> x \<Longrightarrow> x < a + n \<Longrightarrow> m x = m' x) \<Longrightarrow> peek m a n = peek m' a n"
  by (simp add: peek_def)

end
