(* ===== verification/Partitions.thy ===== *)
theory Partitions
  imports Prelude
begin

text \<open>
  The flash layout: partitions.csv, the \<open>partition!\<close> macro that looks a partition up in it
  when the firmware is compiled (partitions-macro/src/lib.rs), and the constants of
  src/partitions.rs that are the macro's results.
\<close>

record partition =
  p_offset :: u32
  p_size :: u32

definition partitions_csv :: "(string \<times> partition) list" where
  "partitions_csv =
     [(''nvs'', \<lparr>p_offset = 0x9000, p_size = 0x4000\<rparr>),
      (''otadata'', \<lparr>p_offset = 0xd000, p_size = 0x2000\<rparr>),
      (''phy_init'', \<lparr>p_offset = 0xf000, p_size = 0x1000\<rparr>),
      (''ota_0'', \<lparr>p_offset = 0x10000, p_size = 0x180000\<rparr>),
      (''ota_1'', \<lparr>p_offset = 0x190000, p_size = 0x180000\<rparr>)]"

text \<open>\<open>None\<close> is the compile-time abort "No partition found".\<close>

definition partition_macro :: "string \<Rightarrow> partition option" where
  "partition_macro name = map_of partitions_csv name"

definition partition_offset_macro :: "string \<Rightarrow> u32 option" where
  "partition_offset_macro name = map_option p_offset (partition_macro name)"

definition NVS_PARTITION :: partition where
  "NVS_PARTITION = \<lparr>p_offset = 0x9000, p_size = 0x4000\<rparr>"

definition OTA_DATA_PARTITION :: partition where
  "OTA_DATA_PARTITION = \<lparr>p_offset = 0xd000, p_size = 0x2000\<rparr>"

definition OTA_0_PARTITION :: partition where
  "OTA_0_PARTITION = \<lparr>p_offset = 0x10000, p_size = 0x180000\<rparr>"

definition OTA_1_PARTITION :: partition where
  "OTA_1_PARTITION = \<lparr>p_offset = 0x190000, p_size = 0x180000\<rparr>"

definition NVS_OFFSET :: u32 where "NVS_OFFSET = 0x9000"
definition OTA_DATA_OFFSET :: u32 where "OTA_DATA_OFFSET = 0xd000"
definition OTA_0_OFFSET :: u32 where "OTA_0_OFFSET = 0x10000"
definition OTA_1_OFFSET :: u32 where "OTA_1_OFFSET = 0x190000"

lemmas partition_defs =
  NVS_PARTITION_def OTA_DATA_PARTITION_def OTA_0_PARTITION_def OTA_1_PARTITION_def

text \<open>The constants are what the macros expand to.\<close>

lemma partition_constants:
  "partition_macro ''nvs'' = Some NVS_PARTITION"
  "partition_macro ''otadata'' = Some OTA_DATA_PARTITION"
  "partition_macro ''ota_0'' = Some OTA_0_PARTITION"
  "partition_macro ''ota_1'' = Some OTA_1_PARTITION"
  by (simp_all add: partition_macro_def partitions_csv_def partition_defs)

lemma partition_offset_constants:
  "partition_offset_macro ''nvs'' = Some NVS_OFFSET"
  "partition_offset_macro ''otadata'' = Some OTA_DATA_OFFSET"
  "partition_offset_macro ''ota_0'' = Some OTA_0_OFFSET"
  "partition_offset_macro ''ota_1'' = Some OTA_1_OFFSET"
  by (simp_all add: partition_offset_macro_def partition_constants partition_defs
      NVS_OFFSET_def OTA_DATA_OFFSET_def OTA_0_OFFSET_def OTA_1_OFFSET_def)

text \<open>The addresses a partition occupies.\<close>

definition in_partition :: "partition \<Rightarrow> nat \<Rightarrow> bool" where
  "in_partition p x \<longleftrightarrow> unat (p_offset p) \<le> x \<and> x < unat (p_offset p) + unat (p_size p)"

lemma in_partition_simps [simp]:
  "in_partition NVS_PARTITION x \<longleftrightarrow> 0x9000 \<le> x \<and> x < 0xd000"
  "in_partition OTA_DATA_PARTITION x \<longleftrightarrow> 0xd000 \<le> x \<and> x < 0xf000"
  "in_partition OTA_0_PARTITION x \<longleftrightarrow> 0x10000 \<le> x \<and> x < 0x190000"
  "in_partition OTA_1_PARTITION x \<longleftrightarrow> 0x190000 \<le> x \<and> x < 0x310000"
  by (simp_all add: in_partition_def partition_defs)

definition sector_aligned :: "partition \<Rightarrow> bool" where
  "sector_aligned p \<longleftrightarrow> unat (p_offset p) mod 0x1000 = 0 \<and> unat (p_size p) mod 0x1000 = 0"

fun separated :: "partition list \<Rightarrow> bool" where
  "separated (p # q # ps) \<longleftrightarrow>
     unat (p_offset p) + unat (p_size p) \<le> unat (p_offset q) \<and> separated (q # ps)"
| "separated _ = True"

lemma layout_aligned: "list_all sector_aligned (map snd partitions_csv)"
  by (simp add: partitions_csv_def sector_aligned_def)

lemma layout_separated: "separated (map snd partitions_csv)"
  by (simp add: partitions_csv_def)

lemma separated_tail: "separated (p # ps) \<Longrightarrow> separated ps"
  by (cases ps) simp_all

lemma separated_later:
  "separated (p # ps) \<Longrightarrow> q \<in> set ps \<Longrightarrow>
     unat (p_offset p) + unat (p_size p) \<le> unat (p_offset q)"
proof (induction ps arbitrary: p)
  case Nil
  then show ?case by simp
next
  case (Cons r ps)
  show ?case
  proof (cases "q = r")
    case True
    with Cons.prems show ?thesis by simp
  next
    case False
    with Cons.prems have "separated (r # ps)" "q \<in> set ps" by simp_all
    then have "unat (p_offset r) + unat (p_size r) \<le> unat (p_offset q)" by (rule Cons.IH)
    with Cons.prems show ?thesis by simp
  qed
qed

lemma separated_disjoint:
  "separated ps \<Longrightarrow> i < j \<Longrightarrow> j < length ps \<Longrightarrow> in_partition (ps ! i) x \<Longrightarrow>
     \<not> in_partition (ps ! j) x"
proof (induction ps arbitrary: i j)
  case Nil
  then show ?case by simp
next
  case (Cons p ps)
  show ?case
  proof (cases i)
    case 0
    then have "ps ! (j - 1) \<in> set ps" using Cons.prems by simp
    with Cons.prems(1) have "unat (p_offset p) + unat (p_size p) \<le> unat (p_offset (ps ! (j - 1)))"
      by (rule separated_later)
    with 0 Cons.prems show ?thesis by (auto simp: in_partition_def nth_Cons')
  next
    case (Suc i')
    have "separated ps" using Cons.prems(1) by (rule separated_tail)
    with Suc Cons.prems Cons.IH [of i' "j - 1"] show ?thesis
      by (auto simp: nth_Cons')
  qed
qed

end
