(* ===== verification/Flash.thy ===== *)
theory Flash
  imports Partitions
begin

text \<open>
  The flash driver \<open>esp_storage::FlashStorage\<close> is code outside the repository, so it is a
  parameter: a record of its operations over an unknown device state. What the firmware
  relies on is the documented contract of \<open>embedded_storage\<close> (\<open>flash_contract\<close>): a
  successful read returns the stored bytes, a successful write stores exactly the given
  bytes, and a failed write may disturb the flash sectors it spans and nothing else.

  \<open>byte_store\<close> is the interface the components use: byte-addressed reads and writes over an
  abstract memory, for the accesses whose addresses the provider can represent (\<open>fits\<close>). The flash as the components call it provides it here; the NVS window
  provides it again in Nvs.
\<close>

record ('f, 'x) flash_ops =
  fl_read :: "u32 \<Rightarrow> nat \<Rightarrow> 'f \<Rightarrow> ('x + u8 list) \<times> 'f"
  fl_write :: "u32 \<Rightarrow> u8 list \<Rightarrow> 'f \<Rightarrow> ('x + unit) \<times> 'f"
  fl_sector_size :: u32

definition flash_read :: "('x \<Rightarrow> 'e) \<Rightarrow> ('f, 'x) flash_ops \<Rightarrow> u32 \<Rightarrow> nat \<Rightarrow> ('f, u8 list, 'e) action" where
  "flash_read conv d off n = external conv (fl_read d off n)"

definition flash_write :: "('x \<Rightarrow> 'e) \<Rightarrow> ('f, 'x) flash_ops \<Rightarrow> u32 \<Rightarrow> u8 list \<Rightarrow> ('f, unit, 'e) action" where
  "flash_write conv d off bs = external conv (fl_write d off bs)"

text \<open>The whole sectors of 4 KiB that an access to \<open>n\<close> bytes from \<open>a\<close> on touches.\<close>

definition sector_span :: "nat \<Rightarrow> nat \<Rightarrow> nat \<Rightarrow> bool" where
  "sector_span a n x \<longleftrightarrow> a div 0x1000 * 0x1000 \<le> x \<and> x < (a + n + 0xfff) div 0x1000 * 0x1000"

lemma round_down: "(a::nat) div 0x1000 * 0x1000 \<le> a"
  by simp

lemma round_up: "(a::nat) \<le> (a + 0xfff) div 0x1000 * 0x1000"
proof -
  have "(a + 0xfff) div 0x1000 * 0x1000 + (a + 0xfff) mod 0x1000 = a + 0xfff"
    by (rule div_mult_mod_eq)
  moreover have "(a + 0xfff) mod 0x1000 < 0x1000" by simp
  ultimately show ?thesis by linarith
qed

lemma sector_span_covers: "a \<le> x \<Longrightarrow> x < a + n \<Longrightarrow> sector_span a n x"
  using round_down [of a] round_up [of "a + n"] unfolding sector_span_def by linarith

text \<open>An access inside a sector-aligned region spans sectors of that region only.\<close>

lemma sector_span_region:
  assumes "lo mod 0x1000 = 0" "hi mod 0x1000 = 0" "lo \<le> a" "a + n \<le> hi" "sector_span a n x"
  shows "lo \<le> x \<and> x < hi"
proof -
  have "lo div 0x1000 * 0x1000 \<le> a div 0x1000 * 0x1000"
    using assms(3) by (simp add: div_le_mono)
  moreover have "lo div 0x1000 * 0x1000 = lo" using assms(1) by (metis add.right_neutral div_mult_mod_eq)
  moreover have "(a + n + 0xfff) div 0x1000 * 0x1000 \<le> (hi + 0xfff) div 0x1000 * 0x1000"
    using assms(4) by (simp add: div_le_mono)
  moreover have "(hi + 0xfff) div 0x1000 * 0x1000 = hi"
  proof -
    obtain k where "hi = 0x1000 * k" using assms(2) by auto
    then show ?thesis by simp
  qed
  ultimately show ?thesis using assms(5) unfolding sector_span_def by linarith
qed

definition flash_contract ::
  "('f, 'x) flash_ops \<Rightarrow> ('f \<Rightarrow> memory) \<Rightarrow> ('f \<Rightarrow> bool) \<Rightarrow> bool" where
  "flash_contract d view good \<longleftrightarrow>
     fl_sector_size d = 0x1000 \<and>
     (\<forall>off n f r f'. good f \<longrightarrow> fl_read d off n f = (r, f') \<longrightarrow>
        good f' \<and> view f' = view f \<and> (\<forall>bs. r = Inr bs \<longrightarrow> bs = peek (view f) (unat off) n)) \<and>
     (\<forall>off bs f r f'. good f \<longrightarrow> fl_write d off bs f = (r, f') \<longrightarrow>
        good f' \<and>
        (case r of
           Inr _ \<Rightarrow> view f' = poke (view f) (unat off) bs
         | Inl _ \<Rightarrow> (\<forall>x. \<not> sector_span (unat off) (length bs) x \<longrightarrow> view f' x = view f x)))"

definition flash_ok ::
  "('f, 'x) flash_ops \<Rightarrow> ('f \<Rightarrow> memory) \<Rightarrow> ('f \<Rightarrow> bool) \<Rightarrow> 'f \<Rightarrow> bool" where
  "flash_ok d view good f \<longleftrightarrow> flash_contract d view good \<and> good f"

lemma flash_ok_sector_size: "flash_ok d view good f \<Longrightarrow> fl_sector_size d = 0x1000"
  by (simp add: flash_ok_def flash_contract_def)

lemma flash_read_law:
  "flash_ok d view good f \<Longrightarrow> fl_read d off n f = (r, f') \<Longrightarrow>
     flash_ok d view good f' \<and> view f' = view f \<and>
     (\<forall>bs. r = Inr bs \<longrightarrow> bs = peek (view f) (unat off) n)"
  unfolding flash_ok_def flash_contract_def by blast

lemma flash_write_law:
  assumes "flash_ok d view good f" "fl_write d off bs f = (r, f')"
  shows "flash_ok d view good f'"
    and "r = Inr u \<Longrightarrow> view f' = poke (view f) (unat off) bs"
    and "\<not> sector_span (unat off) (length bs) x \<Longrightarrow> view f' x = view f x"
proof -
  from assms have post: "good f' \<and>
      (case r of
         Inr _ \<Rightarrow> view f' = poke (view f) (unat off) bs
       | Inl _ \<Rightarrow> (\<forall>x. \<not> sector_span (unat off) (length bs) x \<longrightarrow> view f' x = view f x))"
    unfolding flash_ok_def flash_contract_def by blast
  with assms(1) show "flash_ok d view good f'" by (simp add: flash_ok_def)
  from post show "r = Inr u \<Longrightarrow> view f' = poke (view f) (unat off) bs" by auto
  assume out: "\<not> sector_span (unat off) (length bs) x"
  then have "x < unat off \<or> unat off + length bs \<le> x"
    using sector_span_covers [of "unat off" x "length bs"] by linarith
  with post out show "view f' x = view f x"
    by (auto split: sum.splits simp: poke_outside)
qed

section \<open>The byte store interface\<close>

locale byte_store =
  fixes rd :: "u32 \<Rightarrow> nat \<Rightarrow> ('s, u8 list, 'e) action"
    and wr :: "u32 \<Rightarrow> u8 list \<Rightarrow> ('s, unit, 'e) action"
    and view :: "'s \<Rightarrow> memory"
    and fits :: "u32 \<Rightarrow> nat \<Rightarrow> bool"
    and invar :: "'s \<Rightarrow> bool"
  assumes rd_invar: "invar s \<Longrightarrow> rd off n s = (r, t) \<Longrightarrow> invar t"
    and rd_frame: "invar s \<Longrightarrow> rd off n s = (r, t) \<Longrightarrow> view t = view s"
    and rd_value: "invar s \<Longrightarrow> fits off n \<Longrightarrow> rd off n s = (Ok bs, t) \<Longrightarrow> bs = peek (view s) (unat off) n"
    and rd_no_panic: "rd off n s \<noteq> (Panic, t)"
    and wr_invar: "invar s \<Longrightarrow> wr off bs s = (r', t) \<Longrightarrow> invar t"
    and wr_stores: "invar s \<Longrightarrow> fits off (length bs) \<Longrightarrow> wr off bs s = (Ok u, t) \<Longrightarrow> view t = poke (view s) (unat off) bs"
    and wr_no_panic: "wr off bs s \<noteq> (Panic, t)"
begin

lemma rd_law:
  "invar s \<Longrightarrow> fits off n \<Longrightarrow> rd off n s = (Ok bs, t) \<Longrightarrow>
     invar t \<and> view t = view s \<and> bs = peek (view s) (unat off) n"
  using rd_invar rd_frame rd_value by blast

lemma wr_law:
  "invar s \<Longrightarrow> fits off (length bs) \<Longrightarrow> wr off bs s = (Ok u, t) \<Longrightarrow>
     invar t \<and> view t = poke (view s) (unat off) bs"
  using wr_invar wr_stores by blast

text \<open>What was written is what is read back.\<close>

lemma read_back:
  assumes "invar s" "fits off (length bs)" "wr off bs s = (Ok u, t)" "rd off (length bs) t = (Ok cs, t')"
  shows "cs = bs"
  using wr_law [OF assms(1-3)] rd_law [OF _ assms(2,4)] by simp

text \<open>A write does not disturb what is read elsewhere.\<close>

lemma read_other:
  assumes "invar s" "fits off (length bs)" "fits off' n" "wr off bs s = (Ok u, t)" "rd off' n t = (Ok cs, t')"
    and "unat off' + n \<le> unat off \<or> unat off + length bs \<le> unat off'"
  shows "cs = peek (view s) (unat off') n"
  using wr_law [OF assms(1,2,4)] rd_law [OF _ assms(3,5)] assms(6) by (simp add: peek_poke_other)

end

text \<open>A store on flash also bounds the damage of a write that fails.\<close>

locale sector_store = byte_store +
  fixes base :: nat
  assumes wr_frame:
    "invar s \<Longrightarrow> fits off (length bs) \<Longrightarrow> wr off bs s = (r, t) \<Longrightarrow>
       \<not> sector_span (base + unat off) (length bs) (base + x) \<Longrightarrow> view t x = view s x"
begin

lemma wr_region_frame:
  assumes "invar s" "wr off bs s = (r, t)" "fits off (length bs)"
    and "lo mod 0x1000 = 0" "hi mod 0x1000 = 0"
    and "lo \<le> base + unat off" "base + unat off + length bs \<le> hi"
    and "base + x < lo \<or> hi \<le> base + x"
  shows "view t x = view s x"
proof (rule wr_frame [OF assms(1,3,2)])
  show "\<not> sector_span (base + unat off) (length bs) (base + x)"
    using sector_span_region [OF assms(4-7)] assms(8) by (meson leD)
qed

end

interpretation fls: sector_store "flash_read conv d" "flash_write conv d" view "\<lambda>_ _. True"
    "flash_ok d view good" 0
  for conv and d :: "('f, 'x) flash_ops" and view good
proof unfold_locales
  fix s off n r t
  assume "flash_ok d view good s" "flash_read conv d off n s = (r, t)"
  then show "flash_ok d view good t" "view t = view s"
    unfolding flash_read_def external_def
    by (auto split: prod.splits sum.splits dest: flash_read_law)
next
  fix s off n bs t
  assume "flash_ok d view good s" "flash_read conv d off n s = (Ok bs, t)"
  then show "bs = peek (view s) (unat off) n"
    unfolding flash_read_def by (auto simp: action_simps dest: flash_read_law)
next
  fix s off n t
  show "flash_read conv d off n s \<noteq> (Panic, t)" "flash_write conv d off bs s \<noteq> (Panic, t)" for bs
    by (simp_all add: flash_read_def flash_write_def action_simps)
next
  fix s off bs r t
  assume "flash_ok d view good s" "flash_write conv d off bs s = (r, t)"
  then show "flash_ok d view good t"
    unfolding flash_write_def external_def
    by (auto split: prod.splits sum.splits dest: flash_write_law(1))
next
  fix s off bs u t
  assume "flash_ok d view good s" "flash_write conv d off bs s = (Ok u, t)"
  then show "view t = poke (view s) (unat off) bs"
    unfolding flash_write_def by (auto simp: action_simps dest: flash_write_law(2))
next
  fix s off bs r t x
  assume "flash_ok d view good s" "flash_write conv d off bs s = (r, t)"
    and "\<not> sector_span (0 + unat off) (length bs) (0 + x)"
  then show "view t x = view s x"
    unfolding flash_write_def external_def
    by (auto split: prod.splits sum.splits dest: flash_write_law(3))
qed

section \<open>A reference device\<close>

text \<open>
  A device in memory that meets the contract: the instances at concrete inputs run on it.
  Accesses that do not fit its 4 MiB fail.
\<close>

definition ram_flash :: "(memory, unit) flash_ops" where
  "ram_flash =
     \<lparr>fl_read = (\<lambda>off n m. if unat off + n \<le> 0x400000 then (Inr (peek m (unat off) n), m) else (Inl (), m)),
      fl_write = (\<lambda>off bs m. if unat off + length bs \<le> 0x400000 then (Inr (), poke m (unat off) bs) else (Inl (), m)),
      fl_sector_size = 0x1000\<rparr>"

lemma ram_flash_contract: "flash_contract ram_flash id (\<lambda>_. True)"
  by (simp add: flash_contract_def ram_flash_def split: sum.splits)

lemma ram_flash_ok [simp]: "flash_ok ram_flash id (\<lambda>_. True) m"
  by (simp add: flash_ok_def ram_flash_contract)

lemma ram_flash_read [simp]:
  "unat off + n \<le> 0x400000 \<Longrightarrow>
     flash_read conv ram_flash off n m = (Ok (peek m (unat off) n), m)"
  by (simp add: flash_read_def external_def ram_flash_def)

lemma ram_flash_write [simp]:
  "unat off + length bs \<le> 0x400000 \<Longrightarrow>
     flash_write conv ram_flash off bs m = (Ok (), poke m (unat off) bs)"
  by (simp add: flash_write_def external_def ram_flash_def)

end
