(* ===== verification/Select_Entry.thy ===== *)
theory Select_Entry
  imports Flash
begin

text \<open>
  The OTA select entries of src/ota.rs: \<open>OtaSelectEntryState\<close> with its numbering,
  \<open>OtaSelectEntry\<close> with its checksum and its 32-byte flash image, the two entry slots, and
  the reading and writing of an entry at the front of its own flash sector.

  The CRC-32 of the \<open>crc\<close> crate is code outside the repository: \<open>crcf\<close> stands for
  \<open>CRC_ALGO.checksum\<close>, and nothing is assumed about it.

  \<open>entry_store\<close> is the interface the slot logic relies on: what loading and storing an entry
  do to the two entries on flash.
\<close>

section \<open>Entry states\<close>

datatype ota_entry_state = New | PendingVerify | Valid | Invalid | Aborted | Undefined

fun state_repr :: "ota_entry_state \<Rightarrow> u32" where
  "state_repr New = 0x0"
| "state_repr PendingVerify = 0x1"
| "state_repr Valid = 0x2"
| "state_repr Invalid = 0x3"
| "state_repr Aborted = 0x4"
| "state_repr Undefined = 0xFFFFFFFF"

definition state_from_u32 :: "u32 \<Rightarrow> ota_entry_state" where
  "state_from_u32 value =
     (if value = 0x0 then New
      else if value = 0x1 then PendingVerify
      else if value = 0x2 then Valid
      else if value = 0x3 then Invalid
      else if value = 0x4 then Aborted
      else Undefined)"

lemma state_from_repr [simp, codec_simps]: "state_from_u32 (state_repr st) = st"
  by (cases st) (simp_all add: state_from_u32_def)

lemma state_from_u32_Undefined:
  "state_from_u32 v = Undefined \<longleftrightarrow> v \<notin> {0, 1, 2, 3, 4}"
  by (simp add: state_from_u32_def)

section \<open>Entries\<close>

record ota_select_entry =
  ota_seq :: u32
  seq_label :: "u8 list"
  ota_state :: ota_entry_state
  entry_crc :: u32

text \<open>The label is an array \<open>[u8; 20]\<close>.\<close>

definition wf_entry :: "ota_select_entry \<Rightarrow> bool" where
  "wf_entry e \<longleftrightarrow> length (seq_label e) = 20"

text \<open>\<open>size_of::<OtaSelectEntry>()\<close>, a \<open>repr(C)\<close> struct of 4 + 20 + 4 + 4 bytes.\<close>

definition entry_size :: nat where "entry_size = 32"

definition calculate_checksum :: "(u8 list \<Rightarrow> u32) \<Rightarrow> ota_select_entry \<Rightarrow> u32" where
  "calculate_checksum crcf e = crcf (u32_le (ota_seq e))"

definition checksum_ok :: "(u8 list \<Rightarrow> u32) \<Rightarrow> ota_select_entry \<Rightarrow> bool" where
  "checksum_ok crcf e \<longleftrightarrow> calculate_checksum crcf e = entry_crc e"

definition reset_entry :: "(u8 list \<Rightarrow> u32) \<Rightarrow> ota_select_entry \<Rightarrow> ota_select_entry" where
  "reset_entry crcf e =
     (let e = e\<lparr>ota_seq := 0xFFFFFFFF, seq_label := replicate 20 0xFF, ota_state := Undefined\<rparr>
      in e\<lparr>entry_crc := calculate_checksum crcf e\<rparr>)"

definition refresh_crc :: "(u8 list \<Rightarrow> u32) \<Rightarrow> ota_select_entry \<Rightarrow> ota_select_entry" where
  "refresh_crc crcf e = e\<lparr>entry_crc := calculate_checksum crcf e\<rparr>"

text \<open>The buffer \<open>write\<close> fills, in the order it fills it, and the one \<open>read\<close> takes apart.\<close>

definition entry_to_bytes :: "ota_select_entry \<Rightarrow> u8 list" where
  "entry_to_bytes e =
     (let buf = replicate entry_size 0;
          buf = splice 0 (u32_le (ota_seq e)) buf;
          buf = splice (entry_size - 4) (u32_le (entry_crc e)) buf;
          buf = splice (entry_size - 8) (u32_le (state_repr (ota_state e))) buf
      in splice 4 (seq_label e) buf)"

definition entry_from_bytes :: "u8 list \<Rightarrow> ota_select_entry" where
  "entry_from_bytes buf =
     \<lparr>ota_seq = from_le_bytes (slice 0 4 buf),
      seq_label = slice 4 20 buf,
      ota_state = state_from_u32 (from_le_bytes (slice (entry_size - 8) 4 buf)),
      entry_crc = from_le_bytes (slice (entry_size - 4) 4 buf)\<rparr>"

lemma length_entry_to_bytes [simp, codec_simps]:
  "wf_entry e \<Longrightarrow> length (entry_to_bytes e) = entry_size"
  by (simp add: entry_to_bytes_def Let_def wf_entry_def entry_size_def)

lemma entry_bytes_roundtrip [codec_simps]:
  "wf_entry e \<Longrightarrow> entry_from_bytes (entry_to_bytes e) = e"
  by (simp add: entry_to_bytes_def entry_from_bytes_def Let_def wf_entry_def entry_size_def
      slice_splice_same slice_splice_other)

lemma wf_entry_from_bytes [simp]: "length buf = entry_size \<Longrightarrow> wf_entry (entry_from_bytes buf)"
  by (simp add: wf_entry_def entry_from_bytes_def entry_size_def)

lemma wf_refresh_crc [simp]: "wf_entry (refresh_crc crcf e) \<longleftrightarrow> wf_entry e"
  by (simp add: refresh_crc_def wf_entry_def)

lemma wf_reset_entry [simp]: "wf_entry (reset_entry crcf e)"
  by (simp add: reset_entry_def wf_entry_def Let_def)

lemma checksum_ok_refresh [simp]: "checksum_ok crcf (refresh_crc crcf e)"
  by (simp add: checksum_ok_def refresh_crc_def calculate_checksum_def)

lemma checksum_ok_reset [simp]: "checksum_ok crcf (reset_entry crcf e)"
  by (simp add: checksum_ok_def reset_entry_def calculate_checksum_def Let_def)

lemma reset_entry_simps [simp]:
  "ota_seq (reset_entry crcf e) = 0xFFFFFFFF"
  "ota_state (reset_entry crcf e) = Undefined"
  by (simp_all add: reset_entry_def Let_def)

section \<open>Entry slots and the errors of the module\<close>

datatype select_entry_slot = SlotZero | SlotOne

datatype 'x ota_error = ChecksumInvalid | TooLarge | OtaStorage 'x

instantiation select_entry_slot :: linorder
begin

definition less_eq_select_entry_slot :: "select_entry_slot \<Rightarrow> select_entry_slot \<Rightarrow> bool" where
  "less_eq_select_entry_slot a b \<longleftrightarrow> a = SlotZero \<or> b = SlotOne"

definition less_select_entry_slot :: "select_entry_slot \<Rightarrow> select_entry_slot \<Rightarrow> bool" where
  "less_select_entry_slot a b \<longleftrightarrow> a = SlotZero \<and> b = SlotOne"

instance
  by standard
    (auto simp: less_eq_select_entry_slot_def less_select_entry_slot_def
          intro: select_entry_slot.exhaust)

end

definition select_slot_offset :: "('f, 'x) flash_ops \<Rightarrow> select_entry_slot \<Rightarrow> u32" where
  "select_slot_offset d slot =
     (case slot of SlotZero \<Rightarrow> 0 | SlotOne \<Rightarrow> fl_sector_size d)"

definition entry_write ::
  "(u8 list \<Rightarrow> u32) \<Rightarrow> ('f, 'x) flash_ops \<Rightarrow> ota_select_entry \<Rightarrow> select_entry_slot \<Rightarrow> bool
     \<Rightarrow> ('f, unit, 'x ota_error) action" where
  "entry_write crcf d e slot update_crc =
     (let e = (if update_crc then refresh_crc crcf e else e) in
      if \<not> update_crc \<and> \<not> checksum_ok crcf e then fail ChecksumInvalid
      else flash_write OtaStorage d (p_offset OTA_DATA_PARTITION + select_slot_offset d slot)
             (entry_to_bytes e))"

definition entry_read ::
  "('f, 'x) flash_ops \<Rightarrow> select_entry_slot \<Rightarrow> ('f, ota_select_entry, 'x ota_error) action" where
  "entry_read d slot =
     tryA (flash_read OtaStorage d (p_offset OTA_DATA_PARTITION + select_slot_offset d slot) entry_size)
       (\<lambda>buf. ret (entry_from_bytes buf))"

text \<open>The entry that the bytes on flash hold for a slot.\<close>

definition entry_addr :: "select_entry_slot \<Rightarrow> nat" where
  "entry_addr slot = (case slot of SlotZero \<Rightarrow> 0xd000 | SlotOne \<Rightarrow> 0xe000)"

definition stored_entry :: "memory \<Rightarrow> select_entry_slot \<Rightarrow> ota_select_entry" where
  "stored_entry m slot = entry_from_bytes (peek m (entry_addr slot) entry_size)"

lemma wf_stored_entry [simp]: "wf_entry (stored_entry m slot)"
  by (simp add: stored_entry_def)

lemma entry_address:
  "fl_sector_size d = 0x1000 \<Longrightarrow>
     unat (p_offset OTA_DATA_PARTITION + select_slot_offset d slot) = entry_addr slot"
  by (cases slot) (simp_all add: OTA_DATA_PARTITION_def select_slot_offset_def entry_addr_def)

lemma stored_entry_cong:
  "(\<And>x. in_partition OTA_DATA_PARTITION x \<Longrightarrow> m x = m' x) \<Longrightarrow> stored_entry m slot = stored_entry m' slot"
  unfolding stored_entry_def
  by (intro arg_cong [where f = entry_from_bytes] peek_cong)
    (cases slot, auto simp: entry_addr_def entry_size_def)

text \<open>Each entry has a sector of its own.\<close>

definition entry_sector :: "select_entry_slot \<Rightarrow> nat \<Rightarrow> bool" where
  "entry_sector slot x \<longleftrightarrow> entry_addr slot \<le> x \<and> x < entry_addr slot + 0x1000"

lemma entry_sector_ota_data: "entry_sector slot x \<Longrightarrow> in_partition OTA_DATA_PARTITION x"
  by (cases slot) (simp_all add: entry_sector_def entry_addr_def)

lemma entry_sector_partitions:
  "entry_sector slot x \<Longrightarrow> \<not> in_partition NVS_PARTITION x \<and> \<not> in_partition OTA_0_PARTITION x \<and> \<not> in_partition OTA_1_PARTITION x"
  by (cases slot) (simp_all add: entry_sector_def entry_addr_def)

lemma entry_sector_other: "slot \<noteq> slot' \<Longrightarrow> entry_sector slot x \<Longrightarrow> \<not> entry_sector slot' x"
  by (cases slot; cases slot') (simp_all add: entry_sector_def entry_addr_def)

lemma stored_entry_sector_cong:
  "(\<And>x. entry_sector slot x \<Longrightarrow> m x = m' x) \<Longrightarrow> stored_entry m slot = stored_entry m' slot"
  unfolding stored_entry_def
  by (intro arg_cong [where f = entry_from_bytes] peek_cong) (simp add: entry_sector_def entry_size_def)

lemma stored_entry_poke:
  assumes "wf_entry e"
  shows "stored_entry (poke m (entry_addr slot) (entry_to_bytes e)) = (stored_entry m)(slot := e)"
proof
  fix s
  show "stored_entry (poke m (entry_addr slot) (entry_to_bytes e)) s = ((stored_entry m)(slot := e)) s"
  proof (cases "s = slot")
    case True
    with assms show ?thesis by (simp add: stored_entry_def entry_bytes_roundtrip)
  next
    case False
    then have "peek (poke m (entry_addr slot) (entry_to_bytes e)) (entry_addr s) entry_size
        = peek m (entry_addr s) entry_size"
      using assms by (intro peek_poke_other) (cases s; cases slot; simp add: entry_addr_def entry_size_def)
    with False show ?thesis by (simp add: stored_entry_def)
  qed
qed

section \<open>The entry store interface\<close>

locale entry_store =
  fixes load :: "select_entry_slot \<Rightarrow> ('s, ota_select_entry, 'e) action"
    and store :: "ota_select_entry \<Rightarrow> select_entry_slot \<Rightarrow> bool \<Rightarrow> ('s, unit, 'e) action"
    and entries :: "'s \<Rightarrow> select_entry_slot \<Rightarrow> ota_select_entry"
    and crcf :: "u8 list \<Rightarrow> u32"
    and invar :: "'s \<Rightarrow> bool"
  assumes load_invar: "invar s \<Longrightarrow> load slot s = (r, t) \<Longrightarrow> invar t"
    and load_frame: "invar s \<Longrightarrow> load slot s = (r, t) \<Longrightarrow> entries t = entries s"
    and load_value: "invar s \<Longrightarrow> load slot s = (Ok e, t) \<Longrightarrow> e = entries s slot"
    and load_no_panic: "load slot s \<noteq> (Panic, t)"
    and store_invar: "invar s \<Longrightarrow> store e slot upd s = (r', t) \<Longrightarrow> invar t"
    and store_updates:
      "invar s \<Longrightarrow> wf_entry e \<Longrightarrow> store e slot True s = (Ok u, t) \<Longrightarrow>
         entries t = (entries s)(slot := refresh_crc crcf e)"
    and store_rejects: "\<not> checksum_ok crcf e \<Longrightarrow> \<exists>x. store e slot False s = (Err x, s)"
    and store_frame:
      "invar s \<Longrightarrow> wf_entry e \<Longrightarrow> store e slot upd s = (r', t) \<Longrightarrow> slot' \<noteq> slot \<Longrightarrow>
         entries t slot' = entries s slot'"
    and store_no_panic: "store e slot upd s \<noteq> (Panic, t)"
begin

lemma load_both:
  assumes "invar s"
    and "tryA (load SlotZero) (\<lambda>a. tryA (load SlotOne) (\<lambda>b. ret (k a b))) s = (Ok x, t)"
  shows "x = k (entries s SlotZero) (entries s SlotOne) \<and> entries t = entries s \<and> invar t"
proof -
  from assms(2) obtain a b u where
    l0: "load SlotZero s = (Ok a, u)" and l1: "load SlotOne u = (Ok b, t)" and x: "x = k a b"
    by (auto simp: action_simps)
  note u = load_invar [OF assms(1) l0] load_frame [OF assms(1) l0] load_value [OF assms(1) l0]
  show ?thesis
    using u load_invar [OF u(1) l1] load_frame [OF u(1) l1] load_value [OF u(1) l1] x by simp
qed

lemma load_both_frame:
  assumes "invar s" "tryA (load SlotZero) (\<lambda>a. tryA (load SlotOne) (\<lambda>b. ret (k a b))) s = (r, t)"
  shows "entries t = entries s \<and> invar t \<and> r \<noteq> Panic"
proof (cases "load SlotZero s")
  case (Pair r0 u)
  note u = load_invar [OF assms(1) Pair] load_frame [OF assms(1) Pair]
  show ?thesis
  proof (cases r0)
    case (Ok a)
    obtain r1 v where v: "load SlotOne u = (r1, v)" by fastforce
    with Pair Ok assms(2) load_no_panic [of SlotOne u v] have "t = v \<and> r \<noteq> Panic"
      by (cases r1) (auto simp: tryA_def ret_def)
    with u load_invar [OF u(1) v] load_frame [OF u(1) v] show ?thesis by simp
  next
    case (Err e)
    with Pair assms(2) u show ?thesis by (auto simp: tryA_def)
  next
    case Panic
    with Pair load_no_panic show ?thesis by metis
  qed
qed

text \<open>A stored entry is loaded back with a checksum that holds.\<close>

lemma load_after_store:
  assumes "invar s" "wf_entry e" "store e slot True s = (Ok u, t)" "load slot t = (Ok e', t')"
  shows "e' = refresh_crc crcf e \<and> checksum_ok crcf e'"
  using load_value [OF store_invar [OF assms(1,3)] assms(4)] store_updates [OF assms(1-3)] by simp

end

text \<open>An entry store that is one part of a larger state is an entry store of the larger state.\<close>

locale entry_store_part = entry_store load store entries crcf invar
  for load :: "select_entry_slot \<Rightarrow> ('s, ota_select_entry, 'e) action"
    and store entries crcf and invar :: "'s \<Rightarrow> bool" +
  fixes getp :: "'w \<Rightarrow> 's" and putp :: "'s \<Rightarrow> 'w \<Rightarrow> 'w"
  assumes get_put: "getp (putp t w) = t"
    and put_get: "putp (getp w) w = w"

sublocale entry_store_part \<subseteq> part: entry_store
  "\<lambda>slot. zoom getp putp (load slot)" "\<lambda>e slot upd. zoom getp putp (store e slot upd)"
  "\<lambda>w. entries (getp w)" crcf "\<lambda>w. invar (getp w)"
proof unfold_locales
  fix e slot w
  assume "\<not> checksum_ok crcf e"
  then obtain x where "store e slot False (getp w) = (Err x, getp w)" using store_rejects by blast
  then show "\<exists>x. zoom getp putp (store e slot False) w = (Err x, w)"
    by (auto simp: zoom_def put_get)
qed (auto simp: action_simps get_put load_no_panic store_no_panic
      dest: load_invar load_frame load_value store_invar store_updates store_frame)

interpretation es: entry_store
  "entry_read d" "entry_write crcf d" "\<lambda>f. stored_entry (view f)" crcf "flash_ok d view good"
  for d :: "('f, 'x) flash_ops" and crcf view good
proof unfold_locales
  fix s slot r t
  assume ok: "flash_ok d view good s" and run: "entry_read d slot s = (r, t)"
  from run obtain r' where "flash_read OtaStorage d
      (p_offset OTA_DATA_PARTITION + select_slot_offset d slot) entry_size s = (r', t)"
    by (auto simp: entry_read_def tryA_def ret_def split: prod.splits outcome.splits)
  from fls.rd_invar [OF ok this] fls.rd_frame [OF ok this]
  show "flash_ok d view good t" "stored_entry (view t) = stored_entry (view s)" by simp_all
next
  fix s slot e t
  assume ok: "flash_ok d view good s" and "entry_read d slot s = (Ok e, t)"
  then obtain buf where rd: "flash_read OtaStorage d
      (p_offset OTA_DATA_PARTITION + select_slot_offset d slot) entry_size s = (Ok buf, t)"
    and "e = entry_from_bytes buf"
    by (auto simp: entry_read_def action_simps)
  with fls.rd_value [OF ok TrueI rd] show "e = stored_entry (view s) slot"
    by (simp add: stored_entry_def entry_address [OF flash_ok_sector_size [OF ok]])
next
  fix s slot t e upd
  show "entry_read d slot s \<noteq> (Panic, t)"
    by (simp add: entry_read_def action_simps fls.rd_no_panic)
  show "entry_write crcf d e slot upd s \<noteq> (Panic, t)"
    by (auto simp: entry_write_def Let_def action_simps fls.wr_no_panic)
next
  fix s e slot upd r' t
  assume "flash_ok d view good s" "entry_write crcf d e slot upd s = (r', t)"
  then show "flash_ok d view good t"
    by (auto simp: entry_write_def Let_def action_simps split: if_splits dest: fls.wr_invar)
next
  fix s e slot u t
  assume ok: "flash_ok d view good s" and wf: "wf_entry e"
    and wr: "entry_write crcf d e slot True s = (Ok u, t)"
  from wr have "view t = poke (view s) (unat (p_offset OTA_DATA_PARTITION + select_slot_offset d slot))
      (entry_to_bytes (refresh_crc crcf e))"
    by (auto simp: entry_write_def dest!: fls.wr_stores [OF ok TrueI])
  then show "stored_entry (view t) = (stored_entry (view s))(slot := refresh_crc crcf e)"
    using wf by (simp add: entry_address [OF flash_ok_sector_size [OF ok]] stored_entry_poke)
next
  fix e slot s
  assume "\<not> checksum_ok crcf e"
  then show "\<exists>x. entry_write crcf d e slot False s = (Err x, s)"
    by (simp add: entry_write_def fail_def)
next
  fix s e slot upd r' t slot'
  assume ok: "flash_ok d view good s" and wf: "wf_entry e"
    and wr: "entry_write crcf d e slot upd s = (r', t)" and ne: "slot' \<noteq> slot"
  show "stored_entry (view t) slot' = stored_entry (view s) slot'"
  proof (cases "upd \<or> checksum_ok crcf e")
    case False
    with wr show ?thesis by (simp add: entry_write_def action_simps)
  next
    case True
    define e' where "e' = (if upd then refresh_crc crcf e else e)"
    from True wr have fw: "flash_write OtaStorage d
        (p_offset OTA_DATA_PARTITION + select_slot_offset d slot) (entry_to_bytes e') s = (r', t)"
      by (auto simp: entry_write_def e'_def split: if_splits)
    have len: "length (entry_to_bytes e') = 32"
      using wf by (simp add: e'_def entry_size_def)
    have "view t x = view s x" if "entry_addr slot' \<le> x" "x < entry_addr slot' + entry_size" for x
      by (rule fls.wr_region_frame [OF ok fw TrueI, where lo = "entry_addr slot" and hi = "entry_addr slot + 0x1000"])
        (use that ne len entry_address [OF flash_ok_sector_size [OF ok], of slot] in
          \<open>cases slot; cases slot'; simp add: entry_addr_def entry_size_def\<close>)+
    then have "peek (view t) (entry_addr slot') entry_size = peek (view s) (entry_addr slot') entry_size"
      by (rule peek_cong)
    then show ?thesis by (simp add: stored_entry_def)
  qed
qed

end
