(* ===== verification/Ota.thy ===== *)
theory Ota
  imports Select_Entry
begin

text \<open>
  The over-the-air update of src/ota.rs: the slots, the \<open>Ota\<close> state with the update in
  progress, the choice of the slot to update, the writing of the firmware image in chunks,
  and the commit that makes the bootloader select it.

  The decisions the code takes on the two entries are functions of the entries
  (\<open>choose_update_slot\<close>, \<open>choose_commit\<close>); the operations read the entries from flash and
  apply them. The first group of lemmas shows when the two decisions agree, which is when
  the assertion of \<open>set_current_slot\<close> holds; the second what the operations do to flash.
\<close>

section \<open>Slots\<close>

datatype slot = SlotNone | Slot0 | Slot1

fun slot_number :: "slot \<Rightarrow> usize" where
  "slot_number SlotNone = 0"
| "slot_number Slot0 = 0"
| "slot_number Slot1 = 1"

fun slot_next :: "slot \<Rightarrow> slot" where
  "slot_next SlotNone = Slot0"
| "slot_next Slot0 = Slot1"
| "slot_next Slot1 = Slot0"

definition slot_offset :: "slot \<Rightarrow> u32" where
  "slot_offset s = (if slot_number s = 0 then p_offset OTA_0_PARTITION else p_offset OTA_1_PARTITION)"

definition slot_size :: "slot \<Rightarrow> u32" where
  "slot_size s = (if slot_number s = 0 then p_size OTA_0_PARTITION else p_size OTA_1_PARTITION)"

text \<open>The derived order of the enum: the order of the constructors.\<close>

instantiation slot :: linorder
begin

fun rank_slot :: "slot \<Rightarrow> nat" where
  "rank_slot SlotNone = 0"
| "rank_slot Slot0 = 1"
| "rank_slot Slot1 = 2"

definition less_eq_slot :: "slot \<Rightarrow> slot \<Rightarrow> bool" where
  "less_eq_slot a b \<longleftrightarrow> rank_slot a \<le> rank_slot b"

definition less_slot :: "slot \<Rightarrow> slot \<Rightarrow> bool" where
  "less_slot a b \<longleftrightarrow> rank_slot a < rank_slot b"

instance
proof
  fix a b :: slot
  show "a \<le> b \<Longrightarrow> b \<le> a \<Longrightarrow> a = b"
    by (cases a; cases b) (simp_all add: less_eq_slot_def)
qed (auto simp: less_eq_slot_def less_slot_def)

end

definition slot_partition :: "slot \<Rightarrow> partition" where
  "slot_partition s = (if slot_number s = 0 then OTA_0_PARTITION else OTA_1_PARTITION)"

lemma slot_partition_simps [simp]:
  "p_offset (slot_partition s) = slot_offset s"
  "p_size (slot_partition s) = slot_size s"
  by (simp_all add: slot_partition_def slot_offset_def slot_size_def)

lemma unat_slot_size [simp]: "unat (slot_size s) = 0x180000"
  by (simp add: slot_size_def partition_defs)

lemma unat_slot_offset: "unat (slot_offset s) = 0x10000 \<or> unat (slot_offset s) = 0x190000"
  by (simp add: slot_offset_def partition_defs)

lemma slot_offset_simps [simp]:
  "unat (slot_offset SlotNone) = 0x10000"
  "unat (slot_offset Slot0) = 0x10000"
  "unat (slot_offset Slot1) = 0x190000"
  by (simp_all add: slot_offset_def partition_defs)

section \<open>The state of an update\<close>

record 'f ota =
  ota_flash :: 'f
  update_state :: "(slot \<times> u32) option"

definition ota_new :: "'f \<Rightarrow> 'f ota" where
  "ota_new f = \<lparr>ota_flash = f, update_state = None\<rparr>"

abbreviation on_flash :: "('f, 'a, 'e) action \<Rightarrow> ('f ota, 'a, 'e) action" where
  "on_flash \<equiv> zoom ota_flash (\<lambda>f s. s\<lparr>ota_flash := f\<rparr>)"

definition get_ota_entry ::
  "('f, 'x) flash_ops \<Rightarrow> select_entry_slot \<Rightarrow> ('f ota, ota_select_entry, 'x ota_error) action" where
  "get_ota_entry d slot = on_flash (entry_read d slot)"

section \<open>Choosing the slot to update\<close>

text \<open>A sequence number counts only when the checksum of its entry holds.\<close>

definition effective_seq :: "(u8 list \<Rightarrow> u32) \<Rightarrow> ota_select_entry \<Rightarrow> u32" where
  "effective_seq crcf e = (if checksum_ok crcf e then ota_seq e else 0xFFFFFFFF)"

definition get_slot_seq ::
  "(u8 list \<Rightarrow> u32) \<Rightarrow> ('f, 'x) flash_ops \<Rightarrow> ('f ota, u32 \<times> u32, 'x ota_error) action" where
  "get_slot_seq crcf d =
     tryA (get_ota_entry d SlotZero) (\<lambda>entry0.
     tryA (get_ota_entry d SlotOne) (\<lambda>entry1.
     ret (effective_seq crcf entry0, effective_seq crcf entry1)))"

definition get_ota_entries ::
  "('f, 'x) flash_ops \<Rightarrow> ('f ota, ota_select_entry \<times> ota_select_entry, 'x ota_error) action" where
  "get_ota_entries d =
     tryA (get_ota_entry d SlotZero) (\<lambda>entry0.
     tryA (get_ota_entry d SlotOne) (\<lambda>entry1.
     ret (entry0, entry1)))"

definition slot_by_seq :: "u32 \<Rightarrow> u32 \<Rightarrow> slot" where
  "slot_by_seq seq0 seq1 =
     (if seq0 = 0xffffffff \<and> seq1 = 0xffffffff then Slot1
      else if seq0 = 0xffffffff then Slot0
      else if seq1 = 0xffffffff then Slot1
      else if seq0 > seq1 then Slot1
      else Slot0)"

definition update_slot ::
  "(u8 list \<Rightarrow> u32) \<Rightarrow> ('f, 'x) flash_ops \<Rightarrow> ('f ota, slot, 'x ota_error) action" where
  "update_slot crcf d =
     tryA (get_ota_entries d) (\<lambda>(entry0, entry1).
       if ota_state entry0 \<noteq> Valid then ret Slot0
       else if ota_state entry1 \<noteq> Valid then ret Slot1
       else tryA (get_slot_seq crcf d) (\<lambda>(seq0, seq1). ret (slot_by_seq seq0 seq1)))"

section \<open>Committing\<close>

text \<open>The sequence number and the slot that follow from the two sequence numbers.\<close>

definition next_by_seq :: "u32 \<Rightarrow> u32 \<Rightarrow> u32 \<times> slot" where
  "next_by_seq seq0 seq1 =
     (if seq0 = 0xFFFFFFFF \<and> seq1 = 0xFFFFFFFF then (1, Slot0)
      else if seq0 = 0xFFFFFFFF then (seq1 + 1, Slot0)
      else if seq1 = 0xFFFFFFFF then (seq0 + 1, Slot1)
      else if seq1 > seq0 then (seq1 + 1, Slot0)
      else (seq0 + 1, Slot1))"

text \<open>The states of the entries override the slot, not the sequence number.\<close>

definition slot_by_state :: "ota_entry_state \<Rightarrow> ota_entry_state \<Rightarrow> slot \<Rightarrow> slot" where
  "slot_by_state state0 state1 slot =
     (if state0 = Valid \<and> state1 = Valid then slot
      else if state0 = Valid then Slot1
      else if state1 = Valid then Slot0
      else Slot1)"

definition checked_entry :: "(u8 list \<Rightarrow> u32) \<Rightarrow> ota_select_entry \<Rightarrow> ota_select_entry" where
  "checked_entry crcf e = (if \<not> checksum_ok crcf e then reset_entry crcf e else e)"

definition set_current_slot ::
  "(u8 list \<Rightarrow> u32) \<Rightarrow> ('f, 'x) flash_ops \<Rightarrow> slot \<Rightarrow> ('f ota, unit, 'x ota_error) action" where
  "set_current_slot crcf d expected_slot =
     tryA (get_ota_entries d) (\<lambda>(entry0, entry1).
       let entry0 = checked_entry crcf entry0;
           entry1 = checked_entry crcf entry1;
           (seq, slot) = next_by_seq (ota_seq entry0) (ota_seq entry1);
           slot = slot_by_state (ota_state entry0) (ota_state entry1) slot
       in if slot \<noteq> expected_slot then panic
          else
            let (entry, entry_slot) =
                  (case slot of Slot0 \<Rightarrow> (entry0, SlotZero) | _ \<Rightarrow> (entry1, SlotOne));
                entry = entry\<lparr>ota_seq := seq, ota_state := New\<rparr>
            in on_flash (entry_write crcf d entry entry_slot True))"

section \<open>The update\<close>

definition prepare_for_update ::
  "(u8 list \<Rightarrow> u32) \<Rightarrow> ('f, 'x) flash_ops \<Rightarrow> ('f ota, unit, 'x ota_error) action" where
  "prepare_for_update crcf d =
     tryA (update_slot crcf d) (\<lambda>slot. modify (\<lambda>s. s\<lparr>update_state := Some (slot, 0)\<rparr>))"

definition commit_update ::
  "(u8 list \<Rightarrow> u32) \<Rightarrow> ('f, 'x) flash_ops \<Rightarrow> ('f ota, unit, 'x ota_error) action" where
  "commit_update crcf d s =
     (case update_state s of
        None \<Rightarrow> panic s
      | Some (slot, offset) \<Rightarrow> set_current_slot crcf d slot (s\<lparr>update_state := None\<rparr>))"

definition write_update ::
  "('f, 'x) flash_ops \<Rightarrow> u8 list \<Rightarrow> ('f ota, unit, 'x ota_error) action" where
  "write_update d buf s =
     (case update_state s of
        None \<Rightarrow> panic s
      | Some (slot, offset) \<Rightarrow>
          let len = length buf in
          if offset + of_nat len > slot_size slot then fail TooLarge s
          else if len > 0 then
            tryA (on_flash (flash_write OtaStorage d (slot_offset slot + offset) buf))
              (\<lambda>_. modify (\<lambda>s. s\<lparr>update_state := Some (slot, offset + of_nat len)\<rparr>)) s
          else ret () s)"

text \<open>The chunks of an image one after the other, as the download hands them over.\<close>

fun write_chunks :: "('f, 'x) flash_ops \<Rightarrow> u8 list list \<Rightarrow> ('f ota, unit, 'x ota_error) action" where
  "write_chunks d [] = ret ()"
| "write_chunks d (c # cs) = tryA (write_update d c) (\<lambda>_. write_chunks d cs)"

text \<open>An update as the firmware's start-up performs it once the image arrives in chunks.\<close>

definition perform_update ::
  "(u8 list \<Rightarrow> u32) \<Rightarrow> ('f, 'x) flash_ops \<Rightarrow> u8 list list \<Rightarrow> ('f ota, unit, 'x ota_error) action" where
  "perform_update crcf d chunks =
     tryA (prepare_for_update crcf d) (\<lambda>_.
     tryA (write_chunks d chunks) (\<lambda>_.
     commit_update crcf d))"

section \<open>The two decisions\<close>

definition choose_update_slot ::
  "(u8 list \<Rightarrow> u32) \<Rightarrow> ota_select_entry \<Rightarrow> ota_select_entry \<Rightarrow> slot" where
  "choose_update_slot crcf entry0 entry1 =
     (if ota_state entry0 \<noteq> Valid then Slot0
      else if ota_state entry1 \<noteq> Valid then Slot1
      else slot_by_seq (effective_seq crcf entry0) (effective_seq crcf entry1))"

definition choose_commit ::
  "(u8 list \<Rightarrow> u32) \<Rightarrow> ota_select_entry \<Rightarrow> ota_select_entry \<Rightarrow> u32 \<times> slot" where
  "choose_commit crcf entry0 entry1 =
     (let entry0 = checked_entry crcf entry0;
          entry1 = checked_entry crcf entry1;
          (seq, slot) = next_by_seq (ota_seq entry0) (ota_seq entry1)
      in (seq, slot_by_state (ota_state entry0) (ota_state entry1) slot))"

text \<open>When the commit chooses the slot the update was written to.\<close>

definition decisions_agree ::
  "(u8 list \<Rightarrow> u32) \<Rightarrow> ota_select_entry \<Rightarrow> ota_select_entry \<Rightarrow> bool" where
  "decisions_agree crcf entry0 entry1 \<longleftrightarrow>
     (let trusted1 = (ota_state entry1 = Valid \<and> checksum_ok crcf entry1) in
      if ota_state entry0 \<noteq> Valid then trusted1
      else if trusted1 then
        (if checksum_ok crcf entry0 then ota_seq entry0 \<noteq> ota_seq entry1
         else ota_seq entry1 \<noteq> 0xFFFFFFFF)
      else True)"

lemma checked_entry_simps [simp]:
  "checksum_ok crcf e \<Longrightarrow> checked_entry crcf e = e"
  "\<not> checksum_ok crcf e \<Longrightarrow> ota_seq (checked_entry crcf e) = 0xFFFFFFFF"
  "\<not> checksum_ok crcf e \<Longrightarrow> ota_state (checked_entry crcf e) = Undefined"
  by (simp_all add: checked_entry_def)

lemma ota_seq_checked: "ota_seq (checked_entry crcf e) = effective_seq crcf e"
  by (simp add: checked_entry_def effective_seq_def)

lemma wf_checked_entry [simp]: "wf_entry e \<Longrightarrow> wf_entry (checked_entry crcf e)"
  by (simp add: checked_entry_def)

lemma choose_commit_slot:
  "snd (choose_commit crcf e0 e1) =
     slot_by_state (ota_state (checked_entry crcf e0)) (ota_state (checked_entry crcf e1))
       (snd (next_by_seq (effective_seq crcf e0) (effective_seq crcf e1)))"
  by (simp add: choose_commit_def Let_def ota_seq_checked split: prod.splits)

lemma choose_commit_seq:
  "fst (choose_commit crcf e0 e1) = fst (next_by_seq (effective_seq crcf e0) (effective_seq crcf e1))"
  by (simp add: choose_commit_def Let_def ota_seq_checked split: prod.splits)

lemma slot_by_seq_next_by_seq:
  "slot_by_seq seq0 seq1 = snd (next_by_seq seq0 seq1) \<longleftrightarrow> seq0 \<noteq> seq1"
  by (auto simp: slot_by_seq_def next_by_seq_def)

lemma decisions_agree_iff:
  "snd (choose_commit crcf e0 e1) = choose_update_slot crcf e0 e1 \<longleftrightarrow> decisions_agree crcf e0 e1"
proof (cases "ota_state e0 = Valid \<and> ota_state e1 = Valid \<and> checksum_ok crcf e0 \<and> checksum_ok crcf e1")
  case True
  then have "snd (choose_commit crcf e0 e1) = snd (next_by_seq (ota_seq e0) (ota_seq e1))"
    and "choose_update_slot crcf e0 e1 = slot_by_seq (ota_seq e0) (ota_seq e1)"
    by (simp_all add: choose_commit_slot slot_by_state_def choose_update_slot_def effective_seq_def)
  with True slot_by_seq_next_by_seq [of "ota_seq e0" "ota_seq e1"] show ?thesis
    by (auto simp: decisions_agree_def)
next
  case False
  then show ?thesis
    by (cases "checksum_ok crcf e0"; cases "checksum_ok crcf e1")
      (auto simp: choose_commit_slot slot_by_state_def choose_update_slot_def decisions_agree_def
        effective_seq_def slot_by_seq_def Let_def)
qed

lemma choose_update_slot_not_None: "choose_update_slot crcf e0 e1 \<noteq> SlotNone"
  by (simp add: choose_update_slot_def slot_by_seq_def)

section \<open>The operations on flash\<close>

interpretation os: entry_store_part
  "entry_read d" "entry_write crcf d" "\<lambda>f. stored_entry (view f)" crcf "flash_ok d view good"
  ota_flash "\<lambda>f s. s\<lparr>ota_flash := f\<rparr>"
  for d :: "('f, 'x) flash_ops" and crcf view good
  by unfold_locales simp_all

definition ota_entries :: "('f \<Rightarrow> memory) \<Rightarrow> 'f ota \<Rightarrow> select_entry_slot \<Rightarrow> ota_select_entry" where
  "ota_entries view s = stored_entry (view (ota_flash s))"

definition ota_ok ::
  "('f, 'x) flash_ops \<Rightarrow> ('f \<Rightarrow> memory) \<Rightarrow> ('f \<Rightarrow> bool) \<Rightarrow> 'f ota \<Rightarrow> bool" where
  "ota_ok d view good s \<longleftrightarrow> flash_ok d view good (ota_flash s)"

lemma get_ota_entries_Ok:
  assumes "ota_ok d view good s" "get_ota_entries d s = (Ok (e0, e1), t)"
  shows "e0 = ota_entries view s SlotZero \<and> e1 = ota_entries view s SlotOne \<and>
    ota_entries view t = ota_entries view s \<and> ota_ok d view good t"
  using os.part.load_both [of d view good s Pair] assms
  by (fastforce simp: get_ota_entries_def get_ota_entry_def ota_entries_def ota_ok_def)

lemma get_ota_entries_frame:
  assumes "ota_ok d view good s" "get_ota_entries d s = (r, t)"
  shows "ota_entries view t = ota_entries view s \<and> ota_ok d view good t \<and> r \<noteq> Panic"
  using os.part.load_both_frame [of d view good s Pair] assms
  by (fastforce simp: get_ota_entries_def get_ota_entry_def ota_entries_def ota_ok_def)

end
