(* ===== verification/Nvs.thy ===== *)
theory Nvs
  imports Flash
begin

text \<open>
  The non-volatile store of src/nvs.rs: a window on the flash at the NVS partition whose
  first four bytes are a magic number that says whether the rest is valid. Reads and writes
  are bounded to the part after the magic number; the magic number itself is read and written
  by \<open>is_valid\<close> and \<open>set_valid\<close> only.

  The window provides the byte store interface again, over its own addresses.
\<close>

definition MAGIC :: u32 where "MAGIC = 0xdeadbeef"
definition MIN_OFFSET :: u32 where "MIN_OFFSET = 4"

datatype 'x nvs_error = OutOfBounds | NvsStorage 'x

record 'f nvs =
  nvs_flash :: 'f
  nvs_offset :: u32
  nvs_size :: u32

definition nvs_new :: "'f \<Rightarrow> 'f nvs" where
  "nvs_new f =
     \<lparr>nvs_flash = f, nvs_offset = p_offset NVS_PARTITION, nvs_size = p_size NVS_PARTITION\<rparr>"

abbreviation on_nvs_flash :: "('f, 'a, 'e) action \<Rightarrow> ('f nvs, 'a, 'e) action" where
  "on_nvs_flash \<equiv> zoom nvs_flash (\<lambda>f s. s\<lparr>nvs_flash := f\<rparr>)"

definition valid_offset :: "u32 \<Rightarrow> nat \<Rightarrow> ('f nvs, unit, 'x nvs_error) action" where
  "valid_offset offset len s =
     (if offset < MIN_OFFSET \<or> offset + of_nat len > nvs_size s then fail OutOfBounds s else ret () s)"

definition is_valid :: "('f, 'x) flash_ops \<Rightarrow> ('f nvs, bool, 'x nvs_error) action" where
  "is_valid d s =
     tryA (on_nvs_flash (flash_read NvsStorage d (nvs_offset s) 4))
       (\<lambda>buf. ret (MAGIC = from_le_bytes buf)) s"

definition set_valid :: "('f, 'x) flash_ops \<Rightarrow> bool \<Rightarrow> ('f nvs, unit, 'x nvs_error) action" where
  "set_valid d valid s =
     (let buf = replicate 4 0;
          buf = (if valid then u32_le MAGIC else buf)
      in on_nvs_flash (flash_write NvsStorage d (nvs_offset s) buf) s)"

definition nvs_read :: "('f, 'x) flash_ops \<Rightarrow> u32 \<Rightarrow> nat \<Rightarrow> ('f nvs, u8 list, 'x nvs_error) action" where
  "nvs_read d offset len =
     tryA (valid_offset offset len) (\<lambda>_ s.
       on_nvs_flash (flash_read NvsStorage d (nvs_offset s + offset) len) s)"

definition nvs_write :: "('f, 'x) flash_ops \<Rightarrow> u32 \<Rightarrow> u8 list \<Rightarrow> ('f nvs, unit, 'x nvs_error) action" where
  "nvs_write d offset buf =
     tryA (valid_offset offset (length buf)) (\<lambda>_ s.
       on_nvs_flash (flash_write NvsStorage d (nvs_offset s + offset) buf) s)"

section \<open>The window\<close>

definition nvs_ok ::
  "('f, 'x) flash_ops \<Rightarrow> ('f \<Rightarrow> memory) \<Rightarrow> ('f \<Rightarrow> bool) \<Rightarrow> 'f nvs \<Rightarrow> bool" where
  "nvs_ok d view good s \<longleftrightarrow>
     flash_ok d view good (nvs_flash s) \<and>
     nvs_offset s = p_offset NVS_PARTITION \<and> nvs_size s = p_size NVS_PARTITION"

definition nvs_view :: "('f \<Rightarrow> memory) \<Rightarrow> 'f nvs \<Rightarrow> memory" where
  "nvs_view view s = (\<lambda>x. view (nvs_flash s) (0x9000 + x))"

text \<open>Accesses whose end does not wrap around the 32-bit address space.\<close>

definition nvs_fits :: "u32 \<Rightarrow> nat \<Rightarrow> bool" where
  "nvs_fits off n \<longleftrightarrow> unat off + n < 2 ^ 32"

lemma nvs_ok_new: "flash_ok d view good f \<Longrightarrow> nvs_ok d view good (nvs_new f)"
  by (simp add: nvs_ok_def nvs_new_def)

lemma peek_nvs_view: "peek (nvs_view view s) a n = peek (view (nvs_flash s)) (0x9000 + a) n"
  by (simp add: peek_def nvs_view_def add.assoc)

lemma nvs_view_poke:
  "view f = poke (view (nvs_flash s)) (0x9000 + a) bs \<Longrightarrow>
     nvs_view view (s\<lparr>nvs_flash := f\<rparr>) = poke (nvs_view view s) a bs"
  by (auto simp: nvs_view_def poke_def fun_eq_iff)

text \<open>The bounds check, over the natural numbers.\<close>

lemma valid_offset_nat:
  assumes "nvs_fits off n" "nvs_size s = p_size NVS_PARTITION"
  shows "valid_offset off n s =
    (if unat off < 4 \<or> unat off + n > 0x4000 then (Err OutOfBounds, s) else (Ok (), s))"
proof -
  have "unat (off + of_nat n) = unat off + n"
    using assms(1) by (intro unat_plus_of_nat) (simp add: nvs_fits_def)
  then have "off + of_nat n > nvs_size s \<longleftrightarrow> unat off + n > 0x4000"
    using assms(2) by (simp add: word_less_nat_alt NVS_PARTITION_def)
  moreover have "off < MIN_OFFSET \<longleftrightarrow> unat off < 4"
    by (simp add: MIN_OFFSET_def word_less_nat_alt)
  ultimately show ?thesis by (simp add: valid_offset_def fail_def ret_def)
qed

lemma nvs_address:
  "unat off \<le> 0x4000 \<Longrightarrow> unat (p_offset NVS_PARTITION + off) = 0x9000 + unat off"
  by (simp add: NVS_PARTITION_def unat_word_ariths)

lemma nvs_write_cases:
  assumes "nvs_ok d view good s" "nvs_fits off (length bs)"
  obtains (out) "unat off < 4 \<or> unat off + length bs > 0x4000" "nvs_write d off bs s = (Err OutOfBounds, s)"
  | (access) r f where "4 \<le> unat off" "unat off + length bs \<le> 0x4000"
      "unat (p_offset NVS_PARTITION + off) = 0x9000 + unat off"
      "flash_write NvsStorage d (p_offset NVS_PARTITION + off) bs (nvs_flash s) = (r, f)"
      "nvs_write d off bs s = (r, s\<lparr>nvs_flash := f\<rparr>)"
proof (cases "unat off < 4 \<or> unat off + length bs > 0x4000")
  case True
  with assms out show ?thesis
    by (simp add: nvs_write_def valid_offset_nat nvs_ok_def)
next
  case False
  obtain r f where "flash_write NvsStorage d (p_offset NVS_PARTITION + off) bs (nvs_flash s) = (r, f)"
    by fastforce
  with False assms show ?thesis
    by (intro access) (simp_all add: nvs_address nvs_write_def valid_offset_nat nvs_ok_def zoom_def)
qed

lemma nvs_read_cases:
  assumes "nvs_ok d view good s" "nvs_fits off n"
  obtains (out) "unat off < 4 \<or> unat off + n > 0x4000" "nvs_read d off n s = (Err OutOfBounds, s)"
  | (access) r f where "4 \<le> unat off" "unat off + n \<le> 0x4000"
      "unat (p_offset NVS_PARTITION + off) = 0x9000 + unat off"
      "flash_read NvsStorage d (p_offset NVS_PARTITION + off) n (nvs_flash s) = (r, f)"
      "nvs_read d off n s = (r, s\<lparr>nvs_flash := f\<rparr>)"
proof (cases "unat off < 4 \<or> unat off + n > 0x4000")
  case True
  with assms out show ?thesis
    by (simp add: nvs_read_def valid_offset_nat nvs_ok_def)
next
  case False
  obtain r f where "flash_read NvsStorage d (p_offset NVS_PARTITION + off) n (nvs_flash s) = (r, f)"
    by fastforce
  with False assms show ?thesis
    by (intro access) (simp_all add: nvs_address nvs_read_def valid_offset_nat nvs_ok_def zoom_def)
qed

text \<open>What a read or a write can have done, whether or not its bounds are checked.\<close>

lemma nvs_read_run:
  assumes "nvs_read d off n s = (r, t)"
  shows "t = s \<or> (\<exists>r' f. flash_read NvsStorage d (nvs_offset s + off) n (nvs_flash s) = (r', f) \<and>
    t = s\<lparr>nvs_flash := f\<rparr>)" and "r \<noteq> Panic"
  using assms
  by (auto simp: fls.rd_no_panic nvs_read_def tryA_def valid_offset_def zoom_def ret_def fail_def
      split: if_splits prod.splits)

lemma nvs_write_run:
  assumes "nvs_write d off bs s = (r, t)"
  shows "t = s \<or> (\<exists>r' f. flash_write NvsStorage d (nvs_offset s + off) bs (nvs_flash s) = (r', f) \<and>
    t = s\<lparr>nvs_flash := f\<rparr>)" and "r \<noteq> Panic"
  using assms
  by (auto simp: fls.wr_no_panic nvs_write_def tryA_def valid_offset_def zoom_def ret_def fail_def
      split: if_splits prod.splits)

interpretation nv: sector_store
  "nvs_read d" "nvs_write d" "nvs_view view" nvs_fits "nvs_ok d view good" "0x9000"
  for d :: "('f, 'x) flash_ops" and view good
proof unfold_locales
  fix s off n r t
  assume ok: "nvs_ok d view good s" and run: "nvs_read d off n s = (r, t)"
  from nvs_read_run(1) [OF run] ok show "nvs_ok d view good t" "nvs_view view t = nvs_view view s"
    by (auto simp: nvs_ok_def nvs_view_def dest: fls.rd_invar fls.rd_frame)
next
  fix s off n bs t
  assume ok: "nvs_ok d view good s" and fits: "nvs_fits off n" and run: "nvs_read d off n s = (Ok bs, t)"
  from ok fits show "bs = peek (nvs_view view s) (unat off) n"
  proof (cases rule: nvs_read_cases)
    case out
    with run show ?thesis by simp
  next
    case (access r f)
    with run ok show ?thesis
      by (auto simp: peek_nvs_view nvs_ok_def dest!: fls.rd_value [OF _ TrueI, rotated])
  qed
next
  fix s off n t bs
  show "nvs_read d off n s \<noteq> (Panic, t)" using nvs_read_run(2) by blast
  show "nvs_write d off bs s \<noteq> (Panic, t)" using nvs_write_run(2) by blast
next
  fix s off bs r t
  assume ok: "nvs_ok d view good s" and run: "nvs_write d off bs s = (r, t)"
  from nvs_write_run(1) [OF run] ok show "nvs_ok d view good t"
    by (auto simp: nvs_ok_def dest: fls.wr_invar)
next
  fix s off bs u t
  assume ok: "nvs_ok d view good s" and fits: "nvs_fits off (length bs)"
    and run: "nvs_write d off bs s = (Ok u, t)"
  from ok fits show "nvs_view view t = poke (nvs_view view s) (unat off) bs"
  proof (cases rule: nvs_write_cases)
    case out
    with run show ?thesis by simp
  next
    case (access r f)
    with run ok have "view f = poke (view (nvs_flash s)) (0x9000 + unat off) bs"
      by (auto simp: nvs_ok_def dest!: fls.wr_stores [OF _ TrueI, rotated])
    with access run show ?thesis by (auto intro: nvs_view_poke)
  qed
next
  fix s off bs r t x
  assume ok: "nvs_ok d view good s" and fits: "nvs_fits off (length bs)"
    and run: "nvs_write d off bs s = (r, t)"
    and out: "\<not> sector_span (0x9000 + unat off) (length bs) (0x9000 + x)"
  from ok fits show "nvs_view view t x = nvs_view view s x"
  proof (cases rule: nvs_write_cases)
    case out
    with run show ?thesis by simp
  next
    case (access r' f)
    from ok have "flash_ok d view good (nvs_flash s)" by (simp add: nvs_ok_def)
    from fls.wr_frame [OF this TrueI access(4), of "0x9000 + x"] access run out show ?thesis
      by (simp add: nvs_view_def)
  qed
qed

end
