(* ===== verification/Time_Api.thy ===== *)
theory Time_Api
  imports Prelude
begin

text \<open>
  The operations of the \<open>time\<close> crate the firmware calls, as one record of parameters: UTC
  offsets ('o), date-times with an offset ('dt), calendar dates ('d) and times of day ('t).
  Fallible constructors give \<open>None\<close> for their \<open>ComponentRange\<close> error.

  \<open>time_contract\<close> states the documented behaviour the properties rely on. The reference
  instance at the end is a proleptic Gregorian calendar over unbounded integers; it meets the
  contract and serves the instances at concrete inputs.
\<close>

datatype weekday = Monday | Tuesday | Wednesday | Thursday | Friday | Saturday | Sunday

record ('o, 'dt, 'd, 't) time_api =
  utc_offset :: 'o
  offset_from_hms :: "int \<Rightarrow> int \<Rightarrow> int \<Rightarrow> 'o option"
  from_whole_seconds :: "i32 \<Rightarrow> 'o option"
  whole_seconds :: "'o \<Rightarrow> i32"
  is_positive :: "'o \<Rightarrow> bool"
  is_utc :: "'o \<Rightarrow> bool"
  from_unix_timestamp_nanos :: "int \<Rightarrow> 'dt option"
  checked_to_offset :: "'o \<Rightarrow> 'dt \<Rightarrow> 'dt option"
  dt_ge :: "'dt \<Rightarrow> 'dt \<Rightarrow> bool"
  dt_year :: "'dt \<Rightarrow> int"
  dt_month :: "'dt \<Rightarrow> u32"
  dt_day :: "'dt \<Rightarrow> u32"
  dt_date :: "'dt \<Rightarrow> 'd"
  dt_time :: "'dt \<Rightarrow> 't"
  new_utc :: "'d \<Rightarrow> 't \<Rightarrow> 'dt"
  from_calendar_date :: "int \<Rightarrow> nat \<Rightarrow> nat \<Rightarrow> 'd option"
  nth_prev_occurrence :: "'d \<Rightarrow> weekday \<Rightarrow> nat \<Rightarrow> 'd"
  time_from_hms :: "u8 \<Rightarrow> u8 \<Rightarrow> u8 \<Rightarrow> 't option"
  time_le :: "'t \<Rightarrow> 't \<Rightarrow> bool"
  replace_hour :: "u8 \<Rightarrow> 'dt \<Rightarrow> 'dt option"
  replace_minute :: "u8 \<Rightarrow> 'dt \<Rightarrow> 'dt option"
  replace_second :: "u8 \<Rightarrow> 'dt \<Rightarrow> 'dt option"

text \<open>
  An offset is a number of seconds, UTC is zero, positive means east of UTC; an hour is 3600
  seconds; a date-time keeps its instant when it is moved to another offset, and the order on
  date-times is the order of their instants; times of day are totally ordered.
\<close>

definition time_contract :: "('o, 'dt, 'd, 't) time_api \<Rightarrow> bool" where
  "time_contract api \<longleftrightarrow>
     (\<forall>o'. from_whole_seconds api (whole_seconds api o') = Some o') \<and>
     (\<forall>s o'. from_whole_seconds api s = Some o' \<longrightarrow> whole_seconds api o' = s) \<and>
     whole_seconds api (utc_offset api) = 0 \<and>
     (\<forall>o'. is_utc api o' \<longleftrightarrow> whole_seconds api o' = 0) \<and>
     (\<forall>o'. is_positive api o' \<longleftrightarrow> 0 < sint (whole_seconds api o')) \<and>
     (\<exists>o'. offset_from_hms api 1 0 0 = Some o' \<and> whole_seconds api o' = 3600) \<and>
     (\<forall>o' dt dt'. checked_to_offset api o' dt = Some dt' \<longrightarrow>
        (\<forall>x. dt_ge api dt' x = dt_ge api dt x \<and> dt_ge api x dt' = dt_ge api x dt)) \<and>
     (\<forall>x. dt_ge api x x) \<and>
     (\<forall>x y z. dt_ge api x y \<longrightarrow> dt_ge api y z \<longrightarrow> dt_ge api x z)"

lemma time_contractD:
  assumes "time_contract api"
  shows "from_whole_seconds api (whole_seconds api o') = Some o'"
    and "from_whole_seconds api s = Some o' \<Longrightarrow> whole_seconds api o' = s"
    and "whole_seconds api (utc_offset api) = 0"
    and "is_utc api o' \<longleftrightarrow> whole_seconds api o' = 0"
    and "is_positive api o' \<longleftrightarrow> 0 < sint (whole_seconds api o')"
    and "\<exists>o'. offset_from_hms api 1 0 0 = Some o' \<and> whole_seconds api o' = 3600"
    and "checked_to_offset api o' dt = Some dt' \<Longrightarrow> dt_ge api dt' x = dt_ge api dt x"
    and "dt_ge api x y \<Longrightarrow> dt_ge api y z \<Longrightarrow> dt_ge api x z"
  using assms unfolding time_contract_def by blast+

section \<open>A reference instance\<close>

text \<open>Days since 1970-01-01 of a date of the Gregorian calendar, and the year of such a day.\<close>

definition leap_days :: "int \<Rightarrow> int" where
  "leap_days y = y div 4 - y div 100 + y div 400"

definition year_start :: "int \<Rightarrow> int" where
  "year_start y = 365 * (y - 1970) + leap_days (y - 1) - leap_days 1969"

definition is_leap :: "int \<Rightarrow> bool" where
  "is_leap y \<longleftrightarrow> y mod 4 = 0 \<and> (y mod 100 \<noteq> 0 \<or> y mod 400 = 0)"

definition month_start :: "int \<Rightarrow> nat \<Rightarrow> int" where
  "month_start y m =
     [0, 31, 59, 90, 120, 151, 181, 212, 243, 273, 304, 334] ! (m - 1) + (if m > 2 \<and> is_leap y then 1 else 0)"

definition weekday_number :: "weekday \<Rightarrow> int" where
  "weekday_number w = (case w of Monday \<Rightarrow> 0 | Tuesday \<Rightarrow> 1 | Wednesday \<Rightarrow> 2 | Thursday \<Rightarrow> 3
     | Friday \<Rightarrow> 4 | Saturday \<Rightarrow> 5 | Sunday \<Rightarrow> 6)"

text \<open>1970-01-01 was a Thursday; the first earlier day that falls on the weekday, and weeks before it.\<close>

definition prev_weekday :: "int \<Rightarrow> weekday \<Rightarrow> nat \<Rightarrow> int" where
  "prev_weekday day w n = day - ((day + 3 - weekday_number w - 1) mod 7 + 1) - 7 * (int n - 1)"

definition day_nanos :: int where "day_nanos = 86400 * 1000000000"

text \<open>A date-time is its instant in nanoseconds and its offset in seconds.\<close>

definition local_nanos :: "int \<times> i32 \<Rightarrow> int" where
  "local_nanos dt = fst dt + sint (snd dt) * 1000000000"

definition year_of_day :: "int \<Rightarrow> int" where
  "year_of_day day =
     (let y = 1970 + day div 366 in
      if year_start (y + 2) \<le> day then y + 2 else if year_start (y + 1) \<le> day then y + 1 else y)"

text \<open>Replacing a part of the time of day: the unit's size in seconds and its number of values.\<close>

definition replace_part :: "int \<Rightarrow> int \<Rightarrow> u8 \<Rightarrow> int \<times> i32 \<Rightarrow> (int \<times> i32) option" where
  "replace_part unit n v dt =
     (if uint v < n then
        (let old = local_nanos dt div (unit * 1000000000) mod n
         in Some (fst dt + (uint v - old) * unit * 1000000000, snd dt))
      else None)"

text \<open>The month of a day, and the day of the month.\<close>

definition month_of_day :: "int \<Rightarrow> nat" where
  "month_of_day day =
     (let y = year_of_day day
      in length (filter (\<lambda>m. year_start y + month_start y m \<le> day) [1..<13]))"

definition day_of_month :: "int \<Rightarrow> int" where
  "day_of_month day =
     (let y = year_of_day day in day - (year_start y + month_start y (month_of_day day)) + 1)"

definition reference_time :: "(i32, int \<times> i32, int, int) time_api" where
  "reference_time =
     \<lparr>utc_offset = 0,
      offset_from_hms = (\<lambda>h m s. Some (word_of_int (h * 3600 + m * 60 + s))),
      from_whole_seconds = Some,
      whole_seconds = id,
      is_positive = (\<lambda>o'. 0 < sint o'),
      is_utc = (\<lambda>o'. o' = 0),
      from_unix_timestamp_nanos = (\<lambda>n. if n < year_start 10000 * day_nanos then Some (n, 0) else None),
      checked_to_offset = (\<lambda>o' dt. Some (fst dt, o')),
      dt_ge = (\<lambda>x y. fst x \<ge> fst y),
      dt_year = (\<lambda>dt. year_of_day (local_nanos dt div day_nanos)),
      dt_month = (\<lambda>dt. of_nat (month_of_day (local_nanos dt div day_nanos))),
      dt_day = (\<lambda>dt. of_int (day_of_month (local_nanos dt div day_nanos))),
      dt_date = (\<lambda>dt. local_nanos dt div day_nanos),
      dt_time = (\<lambda>dt. local_nanos dt mod day_nanos),
      new_utc = (\<lambda>d t. (d * day_nanos + t, 0)),
      from_calendar_date = (\<lambda>y m d. Some (year_start y + month_start y m + int d - 1)),
      nth_prev_occurrence = prev_weekday,
      time_from_hms = (\<lambda>h m s. if h < 24 \<and> m < 60 \<and> s < 60
        then Some ((uint h * 3600 + uint m * 60 + uint s) * 1000000000) else None),
      time_le = (\<le>),
      replace_hour = replace_part 3600 24,
      replace_minute = replace_part 60 60,
      replace_second = replace_part 1 60\<rparr>"

lemma reference_time_simps:
  "utc_offset reference_time = 0"
  "offset_from_hms reference_time h m s = Some (word_of_int (h * 3600 + m * 60 + s))"
  "from_whole_seconds reference_time o' = Some o'"
  "whole_seconds reference_time o' = o'"
  "is_positive reference_time o' \<longleftrightarrow> 0 < sint o'"
  "is_utc reference_time o' \<longleftrightarrow> o' = 0"
  "from_unix_timestamp_nanos reference_time n = (if n < year_start 10000 * day_nanos then Some (n, 0) else None)"
  "checked_to_offset reference_time o' dt = Some (fst dt, o')"
  "dt_ge reference_time x y \<longleftrightarrow> fst x \<ge> fst y"
  "dt_year reference_time dt = year_of_day (local_nanos dt div day_nanos)"
  "dt_month reference_time dt = of_nat (month_of_day (local_nanos dt div day_nanos))"
  "dt_day reference_time dt = of_int (day_of_month (local_nanos dt div day_nanos))"
  "dt_date reference_time dt = local_nanos dt div day_nanos"
  "dt_time reference_time dt = local_nanos dt mod day_nanos"
  "new_utc reference_time d t = (d * day_nanos + t, 0)"
  "from_calendar_date reference_time yr mo da = Some (year_start yr + month_start yr mo + int da - 1)"
  "nth_prev_occurrence reference_time d w k = prev_weekday d w k"
  "time_from_hms reference_time hh mm ss = (if hh < 24 \<and> mm < 60 \<and> ss < 60
     then Some ((uint hh * 3600 + uint mm * 60 + uint ss) * 1000000000) else None)"
  "time_le reference_time t1 t2 \<longleftrightarrow> t1 \<le> t2"
  "replace_hour reference_time v dt = replace_part 3600 24 v dt"
  "replace_minute reference_time v dt = replace_part 60 60 v dt"
  "replace_second reference_time v dt = replace_part 1 60 v dt"
  unfolding reference_time_def by simp_all

lemma reference_time_contract: "time_contract reference_time"
  by (simp add: time_contract_def reference_time_def)

text \<open>The last Sundays of March and October 2025 are the 30th and the 26th.\<close>

lemma reference_calendar_example:
  "prev_weekday (year_start 2025 + month_start 2025 4) Sunday 1 = year_start 2025 + month_start 2025 3 + 29"
  "prev_weekday (year_start 2025 + month_start 2025 11) Sunday 1 = year_start 2025 + month_start 2025 10 + 25"
  by (simp_all add: prev_weekday_def year_start_def leap_days_def month_start_def is_leap_def
      weekday_number_def)

end
