(* ===== verification/System_Time.thy ===== *)
theory System_Time
  imports Time_Api
begin

text \<open>
  The system clock of src/system_time.rs: the time of day as a boot time kept in two retained
  registers plus the time since boot, which is the raw RTC counter scaled by a calibration
  factor. The state holds the registers and the static \<open>CLOCK_CONFIG\<close>.

  \<open>system_clock\<close> is the interface the NTP client relies on.
\<close>

record clock =
  store1 :: u32
  store2 :: u32
  store3 :: u32
  rtc_low :: u32
  rtc_high :: u32
  configured :: bool
  offset_seconds :: i32
  calibration :: u64
  ntp_synchronized :: bool

text \<open>The clock at a cold start: \<open>ClockConfig::new()\<close> beside the registers.\<close>

definition clock_config_new :: "u32 \<Rightarrow> u32 \<Rightarrow> u32 \<Rightarrow> u32 \<Rightarrow> u32 \<Rightarrow> clock" where
  "clock_config_new s1 s2 s3 l h =
     \<lparr>store1 = s1, store2 = s2, store3 = s3, rtc_low = l, rtc_high = h,
      configured = False, offset_seconds = 0, calibration = 0, ntp_synchronized = False\<rparr>"

definition get_boot_time_us :: "clock \<Rightarrow> u64" where
  "get_boot_time_us c = ucast (store2 c) + push_bit 32 (ucast (store3 c))"

definition set_boot_time_us :: "u64 \<Rightarrow> clock \<Rightarrow> clock" where
  "set_boot_time_us boot_time_us c =
     c\<lparr>store2 := ucast (boot_time_us AND 0xffffffff), store3 := ucast (drop_bit 32 boot_time_us)\<rparr>"

text \<open>
  The loop that waits for the counter latch: \<open>valid i\<close> is what the \<open>time_valid\<close> bit reads at
  the \<open>i\<close>-th poll. The result is the number of one-microsecond delays.
\<close>

partial_function (option) await_time_valid :: "(nat \<Rightarrow> bool) \<Rightarrow> nat \<Rightarrow> nat option" where
  "await_time_valid valid i = (if valid i then Some i else await_time_valid valid (Suc i))"

text \<open>The counter as the two registers hold it once the latch is valid.\<close>

definition get_rtc_time_raw :: "clock \<Rightarrow> u64" where
  "get_rtc_time_raw c = push_bit 32 (ucast (rtc_high c)) OR ucast (rtc_low c)"

definition get_cal_val :: "clock \<Rightarrow> u32" where
  "get_cal_val c = store1 c"

definition CAL_FRACT :: nat where "CAL_FRACT = 19"

definition get_rtc_time_cal_us :: "clock \<Rightarrow> u64" where
  "get_rtc_time_cal_us c =
     (let cal = calibration c;
          ticks = get_rtc_time_raw c;
          ticks_low = ticks AND 0xffffffff;
          ticks_high = drop_bit 32 ticks
      in drop_bit CAL_FRACT (ticks_low * cal) + push_bit (32 - CAL_FRACT) (ticks_high * cal))"

definition get_rtc_time_us :: "clock \<Rightarrow> u64" where
  "get_rtc_time_us c = get_rtc_time_cal_us c"

definition get_time_us :: "clock \<Rightarrow> u64" where
  "get_time_us c =
     (let rtc_time_us = get_rtc_time_us c;
          boot_time_us = get_boot_time_us c;
          wrapped_boot_time_us = - 1 - boot_time_us
      in if rtc_time_us > wrapped_boot_time_us then rtc_time_us - wrapped_boot_time_us
         else boot_time_us + rtc_time_us)"

definition set_time_us :: "u64 \<Rightarrow> clock \<Rightarrow> clock" where
  "set_time_us time_us c =
     (let rtc_time_us = get_rtc_time_us c
      in if time_us < rtc_time_us then set_boot_time_us (- 1 - rtc_time_us + time_us) c
         else set_boot_time_us (time_us - rtc_time_us) c)"

text \<open>\<open>tick\<close> is the time that passes between the two reads of the counter.\<close>

definition update_boot :: "(clock \<Rightarrow> clock) \<Rightarrow> clock \<Rightarrow> clock" where
  "update_boot tick c = (let now = get_time_us c in set_time_us now (tick c))"

definition set_offset :: "('o, 'dt, 'd, 't) time_api \<Rightarrow> 'o \<Rightarrow> clock \<Rightarrow> clock" where
  "set_offset api offset c = c\<lparr>offset_seconds := whole_seconds api offset\<rparr>"

definition configure :: "('o, 'dt, 'd, 't) time_api \<Rightarrow> 'o \<Rightarrow> clock \<Rightarrow> clock" where
  "configure api offset c =
     (let c = set_offset api offset c
      in c\<lparr>calibration := ucast (get_cal_val c), configured := True\<rparr>)"

definition set_ntp_synchronized :: "bool \<Rightarrow> clock \<Rightarrow> clock" where
  "set_ntp_synchronized b c = c\<lparr>ntp_synchronized := b\<rparr>"

datatype component_range = ComponentRange

definition offset :: "('o, 'dt, 'd, 't) time_api \<Rightarrow> clock \<Rightarrow> ('o, component_range) outcome" where
  "offset api c =
     (case from_whole_seconds api (offset_seconds c) of None \<Rightarrow> Err ComponentRange | Some o' \<Rightarrow> Ok o')"

definition datetime :: "('o, 'dt, 'd, 't) time_api \<Rightarrow> clock \<Rightarrow> ('dt, component_range) outcome" where
  "datetime api c =
     (case offset api c of
        Err e \<Rightarrow> Err e
      | Panic \<Rightarrow> Panic
      | Ok o' \<Rightarrow>
          (case from_unix_timestamp_nanos api (uint (get_time_us c) * 1000) of
             None \<Rightarrow> Err ComponentRange
           | Some dt \<Rightarrow>
               (case checked_to_offset api o' dt of None \<Rightarrow> Panic | Some r \<Rightarrow> Ok r)))"

section \<open>The boot time registers\<close>

lemma get_set_boot_time [simp]: "get_boot_time_us (set_boot_time_us b c) = b"
proof -
  have "ucast (ucast (b AND 0xffffffff) :: u32) + push_bit 32 (ucast (ucast (drop_bit 32 b) :: u32)) = b"
  proof -
    have low: "b AND 0xffffffff = take_bit 32 b"
      by (simp add: take_bit_eq_mask mask_eq_exp_minus_1)
    have "ucast (ucast (take_bit 32 b) :: u32) = (take_bit 32 b :: u64)"
      by (intro bit_word_eqI) (auto simp: bit_ucast_iff bit_take_bit_iff)
    moreover have "push_bit 32 (ucast (ucast (drop_bit 32 b) :: u32)) = (push_bit 32 (drop_bit 32 b) :: u64)"
      by (intro bit_word_eqI) (auto simp: bit_ucast_iff bit_push_bit_iff bit_drop_bit_eq dest: bit_imp_le_length)
    moreover have "take_bit 32 b + push_bit 32 (drop_bit 32 b) = b"
      using bits_ident [of 32 b] by (simp add: add.commute)
    ultimately show ?thesis by (simp add: low)
  qed
  then show ?thesis by (simp add: get_boot_time_us_def set_boot_time_us_def)
qed

lemma set_boot_time_frame [simp]:
  "get_rtc_time_us (set_boot_time_us b c) = get_rtc_time_us c"
  "offset_seconds (set_boot_time_us b c) = offset_seconds c"
  "configured (set_boot_time_us b c) = configured c"
  "calibration (set_boot_time_us b c) = calibration c"
  "ntp_synchronized (set_boot_time_us b c) = ntp_synchronized c"
  "store1 (set_boot_time_us b c) = store1 c"
  by (simp_all add: set_boot_time_us_def get_rtc_time_us_def get_rtc_time_cal_us_def get_rtc_time_raw_def)

lemma set_time_frame [simp]:
  "get_rtc_time_us (set_time_us t c) = get_rtc_time_us c"
  "offset_seconds (set_time_us t c) = offset_seconds c"
  "configured (set_time_us t c) = configured c"
  "ntp_synchronized (set_time_us t c) = ntp_synchronized c"
  by (simp_all add: set_time_us_def Let_def)

section \<open>Reading and setting the time\<close>

text \<open>
  Over the natural numbers, the time is the boot time plus the time since boot, less
  \<open>u64::MAX\<close> where the sum exceeds it.
\<close>

definition max_u64 :: nat where "max_u64 = 2 ^ 64 - 1"

lemma unat_max_minus: "unat (- 1 - w :: u64) = max_u64 - unat w"
proof -
  have "w \<le> - 1" by (rule word_n1_ge)
  then have "unat (- 1 - w) = unat (- 1 :: u64) - unat w" by (rule unat_sub)
  then show ?thesis by (simp add: max_u64_def unsigned_minus_1_eq_mask mask_eq_exp_minus_1)
qed

lemma unat_le_max: "unat (w :: u64) \<le> max_u64"
proof -
  have "unat w < 2 ^ LENGTH(64)" by (rule unsigned_less)
  then show ?thesis by (simp add: max_u64_def)
qed

lemma get_time_nat:
  "unat (get_time_us c) =
     (let s = unat (get_boot_time_us c) + unat (get_rtc_time_us c)
      in if s > max_u64 then s - max_u64 else s)"
proof -
  let ?b = "get_boot_time_us c" and ?r = "get_rtc_time_us c"
  have gt: "?r > - 1 - ?b \<longleftrightarrow> unat ?b + unat ?r > max_u64"
    using unat_le_max [of ?b] by (auto simp: word_less_nat_alt unat_max_minus)
  show ?thesis
  proof (cases "unat ?b + unat ?r > max_u64")
    case True
    then have "- 1 - ?b \<le> ?r" using gt by simp
    then have "unat (?r - (- 1 - ?b)) = unat ?r - (max_u64 - unat ?b)"
      by (simp add: unat_sub unat_max_minus)
    with True gt unat_le_max [of ?b] show ?thesis by (simp add: get_time_us_def Let_def)
  next
    case False
    then have "unat (?b + ?r) = unat ?b + unat ?r"
      by (simp add: unat_word_ariths max_u64_def)
    with False gt show ?thesis by (simp add: get_time_us_def Let_def)
  qed
qed

lemma set_time_boot_nat:
  "unat (get_boot_time_us (set_time_us t c)) =
     (let r = unat (get_rtc_time_us c)
      in if unat t < r then max_u64 - r + unat t else unat t - r)"
proof -
  let ?r = "get_rtc_time_us c"
  show ?thesis
  proof (cases "t < ?r")
    case True
    then have lt: "unat t < unat ?r" by (simp add: word_less_nat_alt)
    then have "unat (- 1 - ?r + t) = max_u64 - unat ?r + unat t"
      using unat_le_max [of ?r] by (simp add: unat_word_ariths(1) unat_max_minus) (simp add: max_u64_def)
    with True lt show ?thesis by (simp add: set_time_us_def Let_def)
  next
    case False
    then have "unat (t - ?r) = unat t - unat ?r" by (simp add: unat_sub)
    with False show ?thesis by (simp add: set_time_us_def Let_def word_less_nat_alt)
  qed
qed

lemma get_set_time: "0 < t \<Longrightarrow> get_time_us (set_time_us t c) = t"
proof -
  assume "0 < t"
  then have "0 < unat t" by (simp add: word_less_nat_alt)
  then have "unat (get_time_us (set_time_us t c)) = unat t"
    using unat_le_max [of t] unat_le_max [of "get_rtc_time_us c"]
    by (auto simp: get_time_nat set_time_boot_nat Let_def)
  then show ?thesis by (simp add: word_unat_eq_iff)
qed

text \<open>Setting the time to zero only works at boot; later it gives the largest time.\<close>

lemma get_set_time_zero:
  "get_time_us (set_time_us 0 c) = (if get_rtc_time_us c = 0 then 0 else - 1)"
proof -
  have "unat (get_time_us (set_time_us 0 c)) = (if get_rtc_time_us c = 0 then 0 else max_u64)"
    using unat_le_max [of "get_rtc_time_us c"]
    by (auto simp: get_time_nat set_time_boot_nat Let_def unat_eq_0)
  then show ?thesis
    by (auto simp: max_u64_def unsigned_minus_1_eq_mask mask_eq_exp_minus_1 intro: word_unat_eq_iff [THEN iffD2])
qed

text \<open>\<open>c'\<close> is \<open>c\<close> after \<open>d\<close> microseconds of the counter, with nothing else changed.\<close>

definition later :: "u64 \<Rightarrow> clock \<Rightarrow> clock \<Rightarrow> bool" where
  "later d c c' \<longleftrightarrow>
     get_boot_time_us c' = get_boot_time_us c \<and>
     unat (get_rtc_time_us c') = unat (get_rtc_time_us c) + unat d \<and>
     offset_seconds c' = offset_seconds c \<and> configured c' = configured c \<and>
     calibration c' = calibration c \<and> ntp_synchronized c' = ntp_synchronized c"

lemma time_advances:
  assumes "later d c c'" "unat (get_time_us c) + unat d < 2 ^ 64"
  shows "get_time_us c' = get_time_us c + d"
proof -
  have "unat (get_time_us c') = unat (get_time_us c) + unat d"
    using assms by (auto simp: get_time_nat later_def Let_def max_u64_def split: if_splits)
  also have "\<dots> = unat (get_time_us c + d)"
    using assms(2) by (simp add: unat_word_ariths)
  finally show ?thesis by (simp add: word_unat_eq_iff)
qed

text \<open>What a clock reads some time after it was set.\<close>

lemma set_time_later:
  assumes later: "later d (set_time_us t c) c'" and fits: "unat t + unat d < 2 ^ 64"
  shows "get_time_us c' = (if t + d = 0 \<and> 0 < get_rtc_time_us c then - 1 else t + d)"
proof -
  let ?r = "unat (get_rtc_time_us c)"
  have sum: "unat (t + d) = unat t + unat d" using fits by (simp add: unat_word_ariths)
  have zero: "t + d = 0 \<longleftrightarrow> unat t + unat d = 0" using sum by (metis unat_eq_0)
  have pos: "0 < get_rtc_time_us c \<longleftrightarrow> 0 < ?r" by (simp add: word_less_nat_alt)
  have read: "unat (get_time_us c') = (let s = (if unat t < ?r then max_u64 - ?r + unat t else unat t - ?r) + (?r + unat d)
      in if s > max_u64 then s - max_u64 else s)"
    using later by (simp add: get_time_nat later_def set_time_boot_nat Let_def)
  have "unat (get_time_us c') = (if unat t + unat d = 0 \<and> 0 < ?r then max_u64 else unat t + unat d)"
    unfolding read Let_def using fits unat_le_max [of "get_rtc_time_us c"] by (auto simp: max_u64_def)
  then have "unat (get_time_us c') = unat (if t + d = 0 \<and> 0 < get_rtc_time_us c then - 1 else t + d)"
    using sum zero pos by (simp add: max_u64_def unsigned_minus_1_eq_mask mask_eq_exp_minus_1)
  then show ?thesis by (simp add: word_unat_eq_iff)
qed

lemma later_0: "later 0 c c"
  by (simp add: later_def)

section \<open>The clock interface\<close>

locale system_clock =
  fixes now :: "'c \<Rightarrow> u64"
    and set_now :: "u64 \<Rightarrow> 'c \<Rightarrow> 'c"
    and passes :: "u64 \<Rightarrow> 'c \<Rightarrow> 'c \<Rightarrow> bool"
  assumes now_set: "0 < t \<Longrightarrow> now (set_now t c) = t"
    and now_passes: "passes d c c' \<Longrightarrow> unat (now c) + unat d < 2 ^ 64 \<Longrightarrow> now c' = now c + d"
begin

text \<open>A clock that has been set runs on from the time it was set to.\<close>

lemma runs_on:
  "0 < t \<Longrightarrow> passes d (set_now t c) c' \<Longrightarrow> unat t + unat d < 2 ^ 64 \<Longrightarrow> now c' = t + d"
  using now_passes [of d "set_now t c" c'] now_set [of t c] by simp

text \<open>Setting the clock to what it reads is a correction by nothing.\<close>

lemma set_to_now: "0 < now c \<Longrightarrow> now (set_now (now c) c) = now c"
  by (rule now_set)

lemma last_set_wins: "0 < t \<Longrightarrow> now (set_now t (set_now u c)) = t"
  by (rule now_set)

end

interpretation sc: system_clock get_time_us set_time_us later
  by unfold_locales (simp_all add: get_set_time time_advances)

section \<open>The calibrated counter\<close>

text \<open>
  The code splits the product of the 64-bit counter and the calibration factor into two
  halves. The two halves add up to the scaled product, to the word size: the calibration
  comes from a 32-bit register, so the low product does not wrap.
\<close>

lemma scaled_product_split:
  fixes h l cal :: nat
  shows "(h * 2 ^ 32 + l) * cal div 2 ^ 19 = h * cal * 2 ^ 13 + l * cal div 2 ^ 19"
proof -
  have "(h * 2 ^ 32 + l) * cal = l * cal + (h * cal * 2 ^ 13) * 2 ^ 19"
    by (simp add: algebra_simps)
  then show ?thesis by simp
qed

lemma unat_low_word: "unat (w AND 0xffffffff :: u64) = unat w mod 2 ^ 32"
proof -
  have "w AND 0xffffffff = take_bit 32 w"
    by (simp add: take_bit_eq_mask mask_eq_exp_minus_1)
  then show ?thesis by (simp add: unat_mod take_bit_eq_mod)
qed

lemma unat_high_word: "unat (drop_bit 32 w :: u64) = unat w div 2 ^ 32"
  by (simp add: unat_div drop_bit_eq_div)

lemma calibrated_time_nat:
  assumes "unat (calibration c) < 2 ^ 32"
  shows "unat (get_rtc_time_us c) =
    (unat (get_rtc_time_raw c) * unat (calibration c) div 2 ^ 19) mod 2 ^ 64"
proof -
  let ?t = "get_rtc_time_raw c" and ?cal = "calibration c"
  let ?l = "unat ?t mod 2 ^ 32" and ?h = "unat ?t div 2 ^ 32"
  have "?l < 2 ^ 32" by simp
  with assms have "?l * unat ?cal < 2 ^ 32 * 2 ^ 32"
    by (intro mult_strict_mono) auto
  then have low: "unat ((?t AND 0xffffffff) * ?cal) = ?l * unat ?cal"
    by (simp add: unat_word_ariths unat_low_word)
  have "unat (drop_bit 19 ((?t AND 0xffffffff) * ?cal)) = ?l * unat ?cal div 2 ^ 19"
    by (simp add: unat_div drop_bit_eq_div low)
  moreover have "unat (push_bit 13 (drop_bit 32 ?t * ?cal)) = (?h * unat ?cal * 2 ^ 13) mod 2 ^ 64"
    by (simp add: unsigned_push_bit_eq unat_word_ariths unat_high_word push_bit_eq_mult
        take_bit_eq_mod mod_mult_left_eq)
  ultimately have "unat (get_rtc_time_us c) =
      (?l * unat ?cal div 2 ^ 19 + ?h * unat ?cal * 2 ^ 13) mod 2 ^ 64"
    by (simp add: get_rtc_time_us_def get_rtc_time_cal_us_def CAL_FRACT_def Let_def unat_word_ariths
        mod_simps)
  also have "\<dots> = (unat ?t * unat ?cal div 2 ^ 19) mod 2 ^ 64"
  proof -
    have "?h * 2 ^ 32 + ?l = unat ?t" by (rule div_mult_mod_eq)
    then have "unat ?t * unat ?cal div 2 ^ 19 = ?h * unat ?cal * 2 ^ 13 + ?l * unat ?cal div 2 ^ 19"
      using scaled_product_split [of ?h ?l "unat ?cal"] by metis
    then show ?thesis by (metis add.commute)
  qed
  finally show ?thesis .
qed

section \<open>Waiting for the latch\<close>

lemma await_time_valid_first:
  assumes "valid k" "i \<le> k" "\<And>j. i \<le> j \<Longrightarrow> j < k \<Longrightarrow> \<not> valid j"
  shows "await_time_valid valid i = Some k"
  using assms
proof (induction "k - i" arbitrary: i)
  case 0
  then show ?case by (simp add: await_time_valid.simps)
next
  case (Suc n)
  then have "\<not> valid i" "await_time_valid valid (Suc i) = Some k" by auto
  then show ?case by (subst await_time_valid.simps) simp
qed

end
