(* ===== verification/Ntp.thy ===== *)
theory Ntp
  imports System_Time
begin

text \<open>
  The NTP client of src/ntp.rs. The sockets, the DNS resolver and \<open>sntpc::get_time\<close> are code
  outside the repository: \<open>ntp_net\<close> holds them as parameters over an unknown network state.
  The resolver and \<open>get_time\<close> are awaited without a timeout, and may never complete. \<open>get_time\<close> is given the client's
  timestamp generator, as in the source, and may let time pass on the clock; \<open>tick\<close> is the time that passes between two reads of the clock in a row.

  The debug output formats times with \<open>unwrap\<close>, and its arguments are only evaluated when
  debug logging is on: \<open>debug_on\<close>. Such a panic is a branch of the model.
\<close>

definition NTP_PORT :: u16 where "NTP_PORT = 123"
definition US_PER_S :: u64 where "US_PER_S = 1000000"

datatype ip_address = Ipv4 u32 | Ipv6 "128 word"

datatype 'x ntp_error =
    ResponseTooLarge
  | NtpDns 'x
  | NtpBind 'x
  | NtpSend 'x
  | NtpRecv 'x
  | NtpNtp 'x
  | NtpOther string

record timestamp_gen =
  tg_seconds :: u64
  tg_sub_seconds :: u32

record ntp_result =
  nr_sec :: u32
  nr_sec_fraction :: u32
  nr_offset :: i64

record 'w ntp_state =
  net :: 'w
  clk :: clock

record ('w, 'x) ntp_net =
  query_a :: "string \<Rightarrow> 'w \<Rightarrow> (('x + ip_address list) \<times> 'w) option"
  bind_any :: "'w \<Rightarrow> ('x + unit) \<times> 'w"
  get_time :: "u32 \<times> u16 \<Rightarrow> (clock \<Rightarrow> (timestamp_gen, 'x) outcome) \<Rightarrow>
    ('w ntp_state, ntp_result, 'x) process"
  fraction_to_microseconds :: "u32 \<Rightarrow> u32"
  tick :: "clock \<Rightarrow> clock"

record ntp_client =
  ntp_socket :: "u32 \<times> u16"

definition ntp_client_new :: "u32 \<Rightarrow> ntp_client" where
  "ntp_client_new ip = \<lparr>ntp_socket = (ip, NTP_PORT)\<rparr>"

definition new_from_dns ::
  "('w, 'x) ntp_net \<Rightarrow> string \<Rightarrow> ('w, ntp_client, 'x ntp_error) process" where
  "new_from_dns nw dns_name =
     tryP (awaits NtpDns (query_a nw dns_name)) (\<lambda>addresses. returning (
       case addresses of
         [] \<Rightarrow> fail (NtpOther ''DNS returned 0 A addresses'')
       | a # _ \<Rightarrow>
           (case a of
              Ipv4 ip \<Rightarrow> ret (ntp_client_new ip)
            | Ipv6 _ \<Rightarrow> fail (NtpOther ''Ipv6 address not supported''))))"

text \<open>Whether the debug output of a time unwraps values only.\<close>

definition debug_datetime_ok :: "('o, 'dt, 'd, 't) time_api \<Rightarrow> u64 \<Rightarrow> bool" where
  "debug_datetime_ok api us =
     (case from_unix_timestamp_nanos api (uint us * 1000) of
        None \<Rightarrow> False
      | Some dt \<Rightarrow>
          (case from_whole_seconds api 3600 of
             None \<Rightarrow> False
           | Some o' \<Rightarrow> checked_to_offset api o' dt \<noteq> None))"

definition timestamp_init ::
  "('o, 'dt, 'd, 't) time_api \<Rightarrow> bool \<Rightarrow> clock \<Rightarrow> (timestamp_gen, 'x) outcome" where
  "timestamp_init api debug_on c =
     (let us = get_time_us c;
          seconds = us div US_PER_S;
          sub_seconds = ucast (us - seconds * US_PER_S)
      in if debug_on \<and> \<not> debug_datetime_ok api us then Panic
         else Ok \<lparr>tg_seconds = seconds, tg_sub_seconds = sub_seconds\<rparr>)"

text \<open>The absolute time of the answer in microseconds, and the time the clock is set to.\<close>

definition ntp_time_us :: "('w, 'x) ntp_net \<Rightarrow> ntp_result \<Rightarrow> u64" where
  "ntp_time_us nw r =
     (let sec = ucast (nr_sec r);
          micros = ucast (fraction_to_microseconds nw (nr_sec_fraction r))
      in sec * 1000000 + micros)"

definition ntp_new_time :: "('w, 'x) ntp_net \<Rightarrow> bool \<Rightarrow> ntp_result \<Rightarrow> clock \<Rightarrow> u64" where
  "ntp_new_time nw use_offset r c =
     (if use_offset then
        (let now = get_time_us c in
         if sint (nr_offset r) < 0 then (let o' = - nr_offset r in now - o')
         else (let o' = nr_offset r in now + o'))
      else ntp_time_us nw r)"

definition ntp_adjustment :: "u64 \<Rightarrow> u64 \<Rightarrow> i64" where
  "ntp_adjustment now new_time = (if now \<ge> new_time then now - new_time else new_time - now)"

definition ntp_request ::
  "('o, 'dt, 'd, 't) time_api \<Rightarrow> bool \<Rightarrow> ('w, 'x) ntp_net \<Rightarrow> ntp_client \<Rightarrow> bool \<Rightarrow>
   ('w ntp_state, u64 \<times> i64, 'x ntp_error) process" where
  "ntp_request api debug_on nw client use_offset =
     tryP (returning (zoom net (\<lambda>w s. s\<lparr>net := w\<rparr>) (external NtpBind (bind_any nw)))) (\<lambda>_.
     tryP (errP NtpNtp (get_time nw (ntp_socket client) (timestamp_init api debug_on))) (\<lambda>r s.
       let ntp_time = ntp_time_us nw r;
           new_time = ntp_new_time nw use_offset r (clk s);
           s = (if use_offset then s\<lparr>clk := tick nw (clk s)\<rparr> else s)
       in if debug_on \<and> \<not> (debug_datetime_ok api new_time \<and> debug_datetime_ok api ntp_time) then returning panic s
          else
            let now = get_time_us (clk s);
                s = s\<lparr>clk := set_time_us new_time (tick nw (clk s))\<rparr>
            in returning (ret (ntp_time, ntp_adjustment now new_time)) s))"

section \<open>Arithmetic of a request\<close>

text \<open>Subtracting the magnitude of a negative offset is adding the offset.\<close>

lemma ntp_new_time_offset [simp]: "ntp_new_time nw True r c = get_time_us c + nr_offset r"
  by (simp add: ntp_new_time_def Let_def)

lemma ntp_new_time_absolute [simp]: "ntp_new_time nw False r c = ntp_time_us nw r"
  by (simp add: ntp_new_time_def)

text \<open>The absolute time does not wrap: 32 bits of seconds are fewer than 2 ^ 52 microseconds.\<close>

lemma unat_ntp_time:
  "unat (ntp_time_us nw r) =
     unat (nr_sec r) * 1000000 + unat (fraction_to_microseconds nw (nr_sec_fraction r))"
proof -
  let ?s = "nr_sec r" and ?f = "fraction_to_microseconds nw (nr_sec_fraction r)"
  have s: "unat ?s < 2 ^ LENGTH(32)" and f: "unat ?f < 2 ^ LENGTH(32)" by (rule unsigned_less)+
  have us: "unat (ucast ?s :: u64) = unat ?s" and uf: "unat (ucast ?f :: u64) = unat ?f"
    by (simp_all add: unsigned_ucast_eq take_bit_nat_eq_self_iff s [simplified] less_trans [OF s]
        less_trans [OF f])
  from s f show ?thesis
    by (simp add: ntp_time_us_def Let_def unat_word_ariths us uf)
qed

lemma ntp_adjustment_nat:
  "unat (ntp_adjustment now new_time) =
     (if unat new_time \<le> unat now then unat now - unat new_time else unat new_time - unat now)"
  by (simp add: ntp_adjustment_def word_le_nat_alt unat_sub)

text \<open>A clock that is moved by an offset from what it reads.\<close>

context system_clock
begin

lemma corrected: "now c + d \<noteq> 0 \<Longrightarrow> now (set_now (now c + d) c') = now c + d"
  by (rule now_set) (simp add: word_gt_0)

end

section \<open>What a request does\<close>

text \<open>A request whose socket was bound and which was answered with \<open>r\<close>, in state \<open>u\<close>.\<close>

definition ntp_answered ::
  "('o, 'dt, 'd, 't) time_api \<Rightarrow> bool \<Rightarrow> ('w, 'x) ntp_net \<Rightarrow> ntp_client \<Rightarrow>
   'w ntp_state \<Rightarrow> ntp_result \<Rightarrow> 'w ntp_state \<Rightarrow> bool" where
  "ntp_answered api debug_on nw client s r u \<longleftrightarrow>
     (\<exists>w. bind_any nw (net s) = (Inr (), w) \<and>
       get_time nw (ntp_socket client) (timestamp_init api debug_on) (s\<lparr>net := w\<rparr>) = Some (Ok r, u))"

lemma ntp_request_answered:
  assumes "ntp_answered api debug_on nw client s r u"
  shows "ntp_request api debug_on nw client use_offset s =
    (let new_time = ntp_new_time nw use_offset r (clk u);
         c = (if use_offset then tick nw (clk u) else clk u)
     in if debug_on \<and> \<not> (debug_datetime_ok api new_time \<and> debug_datetime_ok api (ntp_time_us nw r))
        then Some (Panic, u\<lparr>clk := c\<rparr>)
        else Some (Ok (ntp_time_us nw r, ntp_adjustment (get_time_us c) new_time),
              u\<lparr>clk := set_time_us new_time (tick nw c)\<rparr>))"
  using assms
  by (auto simp: ntp_answered_def ntp_request_def returning_def tryP_def zoom_def external_def errP_def Let_def
      panic_def ret_def)

text \<open>A request that is not answered fails, and what it leaves of the clock is what \<open>get_time\<close> left.\<close>

lemma ntp_request_not_answered:
  assumes run: "ntp_request api debug_on nw client use_offset s = Some (Err e, t)"
  shows "(\<exists>x w. bind_any nw (net s) = (Inl x, w) \<and> e = NtpBind x \<and> t = s\<lparr>net := w\<rparr>) \<or>
    (\<exists>x w. bind_any nw (net s) = (Inr (), w) \<and> e = NtpNtp x \<and>
       get_time nw (ntp_socket client) (timestamp_init api debug_on) (s\<lparr>net := w\<rparr>) = Some (Err x, t))"
  using run
  by (fastforce simp: ntp_request_def tryP_Err returning_iff errP_Ok errP_Err action_simps Let_def split: if_splits)

text \<open>The network does nothing to the clock but let time pass.\<close>

definition net_contract :: "('w, 'x) ntp_net \<Rightarrow> bool" where
  "net_contract nw \<longleftrightarrow>
     (\<forall>addr gen s r t. get_time nw addr gen s = Some (r, t) \<longrightarrow> (\<exists>d. later d (clk s) (clk t))) \<and>
     (\<forall>c. \<exists>d. later d c (tick nw c))"

end
