(* ===== verification/Rng_Wrapper.thy ===== *)
theory Rng_Wrapper
  imports Prelude
begin

text \<open>
  The random number wrapper of src/rng.rs. The hardware generator \<open>Rng::random\<close> is a
  parameter: it draws a 32-bit word from an unknown source. \<open>rng_core\<close> is the interface the
  HTTP client and the WiFi start-up use (the trait \<open>RngCore\<close>): bytes are the words drawn, in
  little-endian order, and a 64-bit seed is two of them.
\<close>

type_synonym 'r random = "'r \<Rightarrow> u32 \<times> 'r"

definition next_u32 :: "'r random \<Rightarrow> 'r \<Rightarrow> u32 \<times> 'r" where
  "next_u32 random r = random r"

text \<open>The buffer is overwritten: whole chunks of four bytes first, then the remainder.\<close>

fun fill_bytes :: "'r random \<Rightarrow> nat \<Rightarrow> 'r \<Rightarrow> u8 list \<times> 'r" where
  "fill_bytes random n r =
     (if 4 \<le> n then
        (let (w, r1) = next_u32 random r;
             (bs, r2) = fill_bytes random (n - 4) r1
         in (u32_le w @ bs, r2))
      else if 0 < n then
        (let (w, r1) = next_u32 random r in (take n (u32_le w), r1))
      else ([], r))"

declare fill_bytes.simps [simp del]

definition next_u64 :: "'r random \<Rightarrow> 'r \<Rightarrow> u64 \<times> 'r" where
  "next_u64 random r = (let (bs, r') = fill_bytes random 8 r in (from_le_bytes bs, r'))"

text \<open>The first \<open>k\<close> words drawn, and the source after them.\<close>

fun draws :: "('r \<Rightarrow> u32 \<times> 'r) \<Rightarrow> nat \<Rightarrow> 'r \<Rightarrow> u32 list \<times> 'r" where
  "draws nxt 0 r = ([], r)"
| "draws nxt (Suc k) r =
     (let (w, r1) = nxt r; (ws, r2) = draws nxt k r1 in (w # ws, r2))"

lemma length_draws [simp]: "length (fst (draws nxt k r)) = k"
  by (induction k arbitrary: r) (simp_all add: Let_def split: prod.splits, metis fst_conv)

lemma length_concat_u32_le [simp]: "length (concat (map u32_le ws)) = 4 * length ws"
  by (induction ws) simp_all

lemma fill_bytes_draws:
  "fill_bytes random n r =
     (take n (concat (map u32_le (fst (draws (next_u32 random) ((n + 3) div 4) r)))),
      snd (draws (next_u32 random) ((n + 3) div 4) r))"
proof (induction random n r rule: fill_bytes.induct)
  case (1 random n r)
  obtain w r1 where w: "next_u32 random r = (w, r1)" by fastforce
  show ?case
  proof (cases "4 \<le> n")
    case True
    then have k: "(n + 3) div 4 = Suc ((n - 4 + 3) div 4)" by auto
    from 1 [OF True w [symmetric] refl] True w show ?thesis
      unfolding k by (subst fill_bytes.simps) (simp add: Let_def split: prod.splits)
  next
    case False
    then have "n = 0 \<or> (n + 3) div 4 = Suc 0" by auto
    with False w show ?thesis by (subst fill_bytes.simps) auto
  qed
qed

section \<open>The generator interface\<close>

locale rng_core =
  fixes nxt32 :: "'r \<Rightarrow> u32 \<times> 'r"
    and nxt64 :: "'r \<Rightarrow> u64 \<times> 'r"
    and fill :: "nat \<Rightarrow> 'r \<Rightarrow> u8 list \<times> 'r"
  assumes fill_words: "fill n r =
      (take n (concat (map u32_le (fst (draws nxt32 ((n + 3) div 4) r)))), snd (draws nxt32 ((n + 3) div 4) r))"
    and nxt64_fill: "nxt64 r = (from_le_bytes (fst (fill 8 r)), snd (fill 8 r))"
begin

lemma fill_length: "length (fst (fill n r)) = n"
  by (simp add: fill_words)

text \<open>A 64-bit value is two words, the first one drawn in its lower half.\<close>

lemma nxt64_words:
  assumes "nxt32 r = (a, r1)" "nxt32 r1 = (b, r2)"
  shows "nxt64 r = (ucast a OR push_bit 32 (ucast b), r2)"
proof -
  have two: "draws nxt32 2 r = ([a, b], r2)"
    using assms by (simp add: numeral_2_eq_2)
  have "from_le_bytes (u32_le a @ u32_le b) = (ucast a OR push_bit 32 (ucast b) :: u64)"
    by (simp only: from_le_bytes_append from_to_le_bytes_ucast length_to_le_bytes)
      (simp add: take_bit_word_eq_self)
  then show ?thesis using two by (simp add: nxt64_fill fill_words)
qed

end

interpretation rng: rng_core "next_u32 random" "next_u64 random" "fill_bytes random" for random
  by unfold_locales (simp_all add: fill_bytes_draws next_u64_def split: prod.splits)

end
