(* ===== verification/Text.thy ===== *)
theory Text
  imports Prelude
begin

text \<open>
  The parts of the standard library the firmware uses on text, over strings as lists of their
  UTF-8 bytes: validity of UTF-8 (\<open>core::str::from_utf8\<close>), comparison without ASCII case,
  decimal output of integers, and \<open>i64::from_str_radix\<close> with its errors.
\<close>

type_synonym bytes = "u8 list"

section \<open>UTF-8\<close>

definition utf8_cont :: "u8 \<Rightarrow> bool" where
  "utf8_cont b \<longleftrightarrow> 0x80 \<le> b \<and> b \<le> 0xBF"

definition utf8_second3 :: "u8 \<Rightarrow> u8 \<Rightarrow> bool" where
  "utf8_second3 a b \<longleftrightarrow>
     (a = 0xE0 \<and> 0xA0 \<le> b \<and> b \<le> 0xBF) \<or>
     (0xE1 \<le> a \<and> a \<le> 0xEC \<and> 0x80 \<le> b \<and> b \<le> 0xBF) \<or>
     (a = 0xED \<and> 0x80 \<le> b \<and> b \<le> 0x9F) \<or>
     (0xEE \<le> a \<and> a \<le> 0xEF \<and> 0x80 \<le> b \<and> b \<le> 0xBF)"

definition utf8_second4 :: "u8 \<Rightarrow> u8 \<Rightarrow> bool" where
  "utf8_second4 a b \<longleftrightarrow>
     (a = 0xF0 \<and> 0x90 \<le> b \<and> b \<le> 0xBF) \<or>
     (0xF1 \<le> a \<and> a \<le> 0xF3 \<and> 0x80 \<le> b \<and> b \<le> 0xBF) \<or>
     (a = 0xF4 \<and> 0x80 \<le> b \<and> b \<le> 0x8F)"

fun utf8_valid :: "bytes \<Rightarrow> bool" where
  "utf8_valid [] = True"
| "utf8_valid [a] = (a < 0x80)"
| "utf8_valid [a, b] =
     (if a < 0x80 then utf8_valid [b] else 0xC2 \<le> a \<and> a \<le> 0xDF \<and> utf8_cont b)"
| "utf8_valid [a, b, c] =
     (if a < 0x80 then utf8_valid [b, c]
      else if 0xC2 \<le> a \<and> a \<le> 0xDF then utf8_cont b \<and> utf8_valid [c]
      else utf8_second3 a b \<and> utf8_cont c)"
| "utf8_valid (a # b # c # d # rest) =
     (if a < 0x80 then utf8_valid (b # c # d # rest)
      else if 0xC2 \<le> a \<and> a \<le> 0xDF then utf8_cont b \<and> utf8_valid (c # d # rest)
      else if utf8_second3 a b then utf8_cont c \<and> utf8_valid (d # rest)
      else utf8_second4 a b \<and> utf8_cont c \<and> utf8_cont d \<and> utf8_valid rest)"

lemma utf8_valid_ascii: "list_all (\<lambda>b. b < 0x80) bs \<Longrightarrow> utf8_valid bs"
  by (induction bs rule: utf8_valid.induct) simp_all

section \<open>ASCII case\<close>

definition ascii_lower :: "u8 \<Rightarrow> u8" where
  "ascii_lower b = (if 0x41 \<le> b \<and> b \<le> 0x5A then b + 0x20 else b)"

definition eq_ignore_ascii_case :: "bytes \<Rightarrow> bytes \<Rightarrow> bool" where
  "eq_ignore_ascii_case a b \<longleftrightarrow> map ascii_lower a = map ascii_lower b"

section \<open>Decimal output\<close>

definition digit_byte :: "nat \<Rightarrow> u8" where
  "digit_byte d = of_nat (48 + d)"

fun show_nat :: "nat \<Rightarrow> bytes" where
  "show_nat n = (if n < 10 then [digit_byte n] else show_nat (n div 10) @ [digit_byte (n mod 10)])"

declare show_nat.simps [simp del]

definition show_i64 :: "int \<Rightarrow> bytes" where
  "show_i64 v = (if v < 0 then 45 # show_nat (nat (- v)) else show_nat (nat v))"

section \<open>Parsing\<close>

datatype parse_int_error = Empty | InvalidDigit | PosOverflow | NegOverflow

definition in_i64 :: "int \<Rightarrow> bool" where
  "in_i64 v \<longleftrightarrow> - (2 ^ 63) \<le> v \<and> v < 2 ^ 63"

definition digit_value :: "u8 \<Rightarrow> nat option" where
  "digit_value b = (if 48 \<le> b \<and> b \<le> 57 then Some (unat b - 48) else None)"

text \<open>The loop over the digits; a digit is looked at before the overflow is.\<close>

definition accumulate :: "bool \<Rightarrow> int \<Rightarrow> nat \<Rightarrow> int" where
  "accumulate neg acc d = (if neg then acc * 10 - int d else acc * 10 + int d)"

fun parse_digits :: "bool \<Rightarrow> int \<Rightarrow> bytes \<Rightarrow> parse_int_error + int" where
  "parse_digits neg acc [] = Inr acc"
| "parse_digits neg acc (b # bs) =
     (case digit_value b of
        None \<Rightarrow> Inl InvalidDigit
      | Some d \<Rightarrow>
          if in_i64 (accumulate neg acc d) then parse_digits neg (accumulate neg acc d) bs
          else Inl (if neg then NegOverflow else PosOverflow))"

definition parse_i64 :: "bytes \<Rightarrow> parse_int_error + int" where
  "parse_i64 s =
     (case s of
        [] \<Rightarrow> Inl Empty
      | [b] \<Rightarrow> (if b = 43 \<or> b = 45 then Inl InvalidDigit else parse_digits False 0 [b])
      | b # bs \<Rightarrow>
          (if b = 45 then parse_digits True 0 bs
           else if b = 43 then parse_digits False 0 bs
           else parse_digits False 0 s))"

lemma digit_value_byte [simp]: "d < 10 \<Longrightarrow> digit_value (digit_byte d) = Some d"
proof -
  assume d: "d < 10"
  then have "unat (digit_byte d) = 48 + d"
    by (simp add: digit_byte_def unsigned_of_nat take_bit_nat_eq_self_iff del: of_nat_add)
  with d show ?thesis by (simp add: digit_value_def word_le_nat_alt)
qed

lemma digit_byte_not_sign [simp]: "d < 10 \<Longrightarrow> digit_byte d \<noteq> 43 \<and> digit_byte d \<noteq> 45"
  using digit_value_byte [of d] by (auto simp: digit_value_def split: if_splits)

lemma digit_byte_ascii [simp]: "d < 10 \<Longrightarrow> digit_byte d < 0x80"
proof -
  assume d: "d < 10"
  then have "unat (digit_byte d) = 48 + d"
    by (simp add: digit_byte_def unsigned_of_nat take_bit_nat_eq_self_iff del: of_nat_add)
  with d show ?thesis by (simp add: word_less_nat_alt)
qed

lemma show_nat_ascii: "list_all (\<lambda>b. b < 0x80) (show_nat n)"
proof (induction n rule: show_nat.induct)
  case (1 n)
  then show ?case by (subst show_nat.simps) simp
qed

lemma show_nat_not_Nil: "show_nat n \<noteq> []"
  by (subst show_nat.simps) simp

lemma hd_show_nat: "hd (show_nat n) \<noteq> 43 \<and> hd (show_nat n) \<noteq> 45"
proof (induction n rule: show_nat.induct)
  case (1 n)
  then show ?case by (subst (1 2) show_nat.simps) (simp add: hd_append show_nat_not_Nil)
qed

lemma length_show_nat: "0 < k \<Longrightarrow> n < 10 ^ k \<Longrightarrow> length (show_nat n) \<le> k"
proof (induction n arbitrary: k rule: show_nat.induct)
  case (1 n)
  show ?case
  proof (cases "n < 10")
    case True
    with 1 show ?thesis by (subst show_nat.simps) simp
  next
    case False
    with 1 obtain j where j: "k = Suc j" "0 < j" by (cases k; cases "k - 1") auto
    with 1 False have "length (show_nat (n div 10)) \<le> j"
      by (intro 1) (auto simp: less_mult_imp_div_less mult.commute)
    with False j show ?thesis by (subst show_nat.simps) simp
  qed
qed

lemma parse_digits_append:
  "parse_digits neg acc (xs @ ys) =
     (case parse_digits neg acc xs of Inl e \<Rightarrow> Inl e | Inr v \<Rightarrow> parse_digits neg v ys)"
proof (induction xs arbitrary: acc)
  case (Cons b bs)
  show ?case
    by (cases "digit_value b"; cases "in_i64 (accumulate neg acc (the (digit_value b)))")
      (simp_all add: Cons.IH)
qed simp

definition signed_value :: "bool \<Rightarrow> nat \<Rightarrow> int" where
  "signed_value neg n = (if neg then - int n else int n)"

lemma accumulate_signed: "accumulate neg (signed_value neg (n div 10)) (n mod 10) = signed_value neg n"
proof -
  have "int n = int (n div 10) * 10 + int (n mod 10)"
    by (metis div_mult_mod_eq of_nat_add of_nat_mult of_nat_numeral)
  then show ?thesis by (simp add: accumulate_def signed_value_def)
qed

lemma accumulate_0 [simp]: "accumulate neg 0 d = signed_value neg d"
  by (simp add: accumulate_def signed_value_def)

lemma in_i64_prefix: "in_i64 (signed_value neg n) \<Longrightarrow> in_i64 (signed_value neg (n div 10))"
  by (auto simp: in_i64_def signed_value_def)

text \<open>The digits of a number in range are read back, from zero and with either sign.\<close>

lemma parse_digits_show_nat:
  "in_i64 (signed_value neg n) \<Longrightarrow> parse_digits neg 0 (show_nat n) = Inr (signed_value neg n)"
proof (induction n rule: show_nat.induct)
  case (1 n)
  show ?case
  proof (cases "n < 10")
    case True
    with 1 show ?thesis by (subst show_nat.simps) simp
  next
    case False
    with 1 in_i64_prefix
    have "parse_digits neg 0 (show_nat (n div 10)) = Inr (signed_value neg (n div 10))" by blast
    with False "1.prems" show ?thesis
      by (subst show_nat.simps) (simp add: parse_digits_append accumulate_signed)
  qed
qed

lemma parse_i64_unsigned:
  "s \<noteq> [] \<Longrightarrow> hd s \<noteq> 43 \<Longrightarrow> hd s \<noteq> 45 \<Longrightarrow> parse_i64 s = parse_digits False 0 s"
  by (auto simp: parse_i64_def simp del: parse_digits.simps split: list.splits)

lemma parse_i64_minus: "s \<noteq> [] \<Longrightarrow> parse_i64 (45 # s) = parse_digits True 0 s"
  by (auto simp: parse_i64_def simp del: parse_digits.simps split: list.splits)

lemma parse_i64_show_i64: "in_i64 v \<Longrightarrow> parse_i64 (show_i64 v) = Inr v"
  using parse_digits_show_nat [of True "nat (- v)"] parse_digits_show_nat [of False "nat v"]
  by (auto simp: show_i64_def signed_value_def parse_i64_minus parse_i64_unsigned show_nat_not_Nil hd_show_nat)

lemma length_show_i64: "in_i64 v \<Longrightarrow> length (show_i64 v) \<le> 20"
  using length_show_nat [of 19 "nat (- v)"] length_show_nat [of 19 "nat v"]
  by (auto simp: show_i64_def in_i64_def nat_less_iff)

lemma show_i64_utf8: "utf8_valid (show_i64 v)"
  by (rule utf8_valid_ascii) (simp add: show_i64_def show_nat_ascii)

text \<open>What is parsed is in range.\<close>

lemma parse_digits_range: "in_i64 acc \<Longrightarrow> parse_digits neg acc bs = Inr v \<Longrightarrow> in_i64 v"
  by (induction bs arbitrary: acc) (auto split: option.splits if_splits)

lemma parse_i64_range: "parse_i64 s = Inr v \<Longrightarrow> in_i64 v"
proof -
  have "in_i64 0" by (simp add: in_i64_def)
  then show "parse_i64 s = Inr v \<Longrightarrow> in_i64 v"
    using parse_digits_range [of 0]
    by (auto simp: parse_i64_def simp del: parse_digits.simps split: list.splits if_splits)
qed

end
