(* ===== verification/Http.thy ===== *)
theory Http
  imports Rng_Wrapper Text
begin

text \<open>
  The HTTP client of src/http.rs. The request library (reqwless), the sockets and TLS are code
  outside the repository: \<open>http_ops\<close> holds them as parameters over an unknown network state. A call that the code awaits
  may never complete, for the code sets no timeout: then its result is \<open>None\<close>. The client's own logic is modelled: building the URL buffer,
  the redirect loop, the status checks and, for the buffered variant, the loop over the body with its
  count of bytes and its callback.

  Neither loop has a bound in the code, so they are \<open>partial_function (option)\<close>: \<open>None\<close> is a
  call that never returns. The \<open>last_print\<close> counter only decides when a trace line is printed
  and is left out; the lock on the shared buffers serialises requests and is not modelled.
\<close>

datatype 'x http_error =
    Reqwless 'x
  | HttpResponseTooLarge
  | RequestMissingLocation
  | UrlTooLong
  | HttpUtf8Error
  | BadStatus u16

datatype ('x, 'e) callback_error = Outer "'x http_error" | Callback 'e

definition HEADER_LOCATION :: bytes where
  "HEADER_LOCATION = [0x6C, 0x6F, 0x63, 0x61, 0x74, 0x69, 0x6F, 0x6E]"

definition URL_MAX_LENGTH :: nat where "URL_MAX_LENGTH = 2048"

record response_head =
  rs_status :: u16
  rs_headers :: "(bytes \<times> bytes) list"
  rs_content_length :: "usize option"

record ('w, 'x) http_ops =
  hc_new :: "u64 \<Rightarrow> 'w \<Rightarrow> 'w"
  hc_request :: "bytes \<Rightarrow> 'w \<Rightarrow> (('x + unit) \<times> 'w) option"
  hc_send :: "'w \<Rightarrow> (('x + response_head) \<times> 'w) option"
  hc_read_to_end :: "'w \<Rightarrow> (('x + bytes) \<times> 'w) option"
  hc_fill_buf :: "'w \<Rightarrow> (('x + bytes) \<times> 'w) option"
  hc_consume :: "nat \<Rightarrow> 'w \<Rightarrow> 'w"
  is_successful :: "u16 \<Rightarrow> bool"
  is_redirection :: "u16 \<Rightarrow> bool"

record ('w, 'r) http_client =
  http_stack :: 'w
  http_rng :: 'r

section \<open>One request\<close>

definition to_url_string :: "bytes \<Rightarrow> ('s, bytes, 'x http_error) action" where
  "to_url_string input =
     (if length input > URL_MAX_LENGTH then fail UrlTooLong
      else if utf8_valid input then ret input
      else fail HttpUtf8Error)"

text \<open>What follows a response that is not a success: the URL of the redirect, or an error.\<close>

definition redirect_url :: "('w, 'x) http_ops \<Rightarrow> response_head \<Rightarrow> ('w, bytes, 'x http_error) action" where
  "redirect_url h resp =
     (if \<not> is_redirection h (rs_status resp) then fail (BadStatus (rs_status resp))
      else
        (case List.find (\<lambda>(name, _). eq_ignore_ascii_case name HEADER_LOCATION) (rs_headers resp) of
           Some (_, redirect) \<Rightarrow> to_url_string redirect
         | None \<Rightarrow> fail RequestMissingLocation))"

definition send_request :: "('w, 'x) http_ops \<Rightarrow> bytes \<Rightarrow> ('w, response_head, 'x http_error) process" where
  "send_request h url =
     tryP (awaits Reqwless (hc_request h url)) (\<lambda>_. awaits Reqwless (hc_send h))"

text \<open>One turn of the loop of \<open>req\<close>: the next URL, or the body.\<close>

definition req_step ::
  "('w, 'x) http_ops \<Rightarrow> nat \<Rightarrow> bytes \<Rightarrow> ('w, bytes + bytes, 'x http_error) process" where
  "req_step h max_resp_len url =
     tryP (send_request h url) (\<lambda>resp.
       if is_successful h (rs_status resp) then
         tryP (awaits Reqwless (hc_read_to_end h)) (\<lambda>body.
           returning (if length body > max_resp_len then fail HttpResponseTooLarge else ret (Inr body)))
       else returning (tryA (redirect_url h resp) (\<lambda>url'. ret (Inl url'))))"

partial_function (option) req_loop ::
  "('w, 'x) http_ops \<Rightarrow> nat \<Rightarrow> bytes \<Rightarrow> 'w \<Rightarrow> ((bytes, 'x http_error) outcome \<times> 'w) option" where
  "req_loop h max_resp_len url w =
     (case req_step h max_resp_len url w of
        None \<Rightarrow> None
      | Some (Ok (Inl url'), w') \<Rightarrow> req_loop h max_resp_len url' w'
      | Some (Ok (Inr body), w') \<Rightarrow> Some (Ok body, w')
      | Some (Err e, w') \<Rightarrow> Some (Err e, w')
      | Some (Panic, w') \<Rightarrow> Some (Panic, w'))"

text \<open>Building the client: a seed is drawn for TLS.\<close>

definition http_connect ::
  "('w, 'x) http_ops \<Rightarrow> 'r random \<Rightarrow> ('w, 'r) http_client \<Rightarrow> ('w, 'r) http_client" where
  "http_connect h random c =
     (let (seed, r) = next_u64 random (http_rng c)
      in c\<lparr>http_stack := hc_new h seed (http_stack c), http_rng := r\<rparr>)"

definition req ::
  "('w, 'x) http_ops \<Rightarrow> 'r random \<Rightarrow> nat \<Rightarrow> bytes \<Rightarrow> ('w, 'r) http_client \<Rightarrow>
   ((bytes, 'x http_error) outcome \<times> ('w, 'r) http_client) option" where
  "req h random max_resp_len url c =
     (case to_url_string url () of
        (Ok url, _) \<Rightarrow>
          (let c = http_connect h random c
           in map_option (\<lambda>(r, w). (r, c\<lparr>http_stack := w\<rparr>)) (req_loop h max_resp_len url (http_stack c)))
      | (Err e, _) \<Rightarrow> Some (Err e, c)
      | (Panic, _) \<Rightarrow> Some (Panic, c))"

section \<open>The buffered request\<close>

text \<open>
  One turn of the loop over the body: \<open>None\<close> at its end, otherwise the new total. The state
  pairs the network with the state the callback mutates.
\<close>

abbreviation on_net :: "('w, 'a, 'e) action \<Rightarrow> ('w \<times> 'c, 'a, 'e) action" where
  "on_net \<equiv> zoom fst (\<lambda>w s. (w, snd s))"

abbreviation on_callback :: "('c, 'a, 'e) action \<Rightarrow> ('w \<times> 'c, 'a, 'e) action" where
  "on_callback \<equiv> zoom snd (\<lambda>c s. (fst s, c))"

definition body_step ::
  "('w, 'x) http_ops \<Rightarrow> (bytes \<Rightarrow> ('c, unit, 'e) action) \<Rightarrow> usize \<Rightarrow> usize \<Rightarrow>
   ('w \<times> 'c, usize option, ('x, 'e) callback_error) process" where
  "body_step h f content_length tot =
     tryP (zoomP fst (\<lambda>w s. (w, snd s)) (awaits (Outer \<circ> Reqwless) (hc_fill_buf h))) (\<lambda>buf.
       returning (
         if length buf = 0 then ret None
         else
           let tot = tot + of_nat (length buf) in
           if tot > content_length then panic
           else
             tryA (on_callback (map_err Callback (f buf))) (\<lambda>_.
             tryA (on_net (modify (hc_consume h (length buf)))) (\<lambda>_.
             ret (Some tot)))))"

partial_function (option) body_loop ::
  "('w, 'x) http_ops \<Rightarrow> (bytes \<Rightarrow> ('c, unit, 'e) action) \<Rightarrow> usize \<Rightarrow> usize \<Rightarrow> 'w \<times> 'c \<Rightarrow>
   ((unit, ('x, 'e) callback_error) outcome \<times> 'w \<times> 'c) option" where
  "body_loop h f content_length tot s =
     (case body_step h f content_length tot s of
        None \<Rightarrow> None
      | Some (Ok (Some tot'), s') \<Rightarrow> body_loop h f content_length tot' s'
      | Some (Ok None, s') \<Rightarrow> Some (Ok (), s')
      | Some (Err e, s') \<Rightarrow> Some (Err e, s')
      | Some (Panic, s') \<Rightarrow> Some (Panic, s'))"

text \<open>One turn of the outer loop: the next URL, or the length of the body that is now read.\<close>

definition buffered_step ::
  "('w, 'x) http_ops \<Rightarrow> bytes \<Rightarrow> ('w, bytes + usize, 'x http_error) process" where
  "buffered_step h url =
     tryP (send_request h url) (\<lambda>resp. returning (
       if is_successful h (rs_status resp) then
         ret (Inr (case rs_content_length resp of Some n \<Rightarrow> n | None \<Rightarrow> 20 * 1024 * 1024))
       else tryA (redirect_url h resp) (\<lambda>url'. ret (Inl url'))))"

partial_function (option) buffered_loop ::
  "('w, 'x) http_ops \<Rightarrow> (bytes \<Rightarrow> ('c, unit, 'e) action) \<Rightarrow> bytes \<Rightarrow> 'w \<times> 'c \<Rightarrow>
   ((unit, ('x, 'e) callback_error) outcome \<times> 'w \<times> 'c) option" where
  "buffered_loop h f url s =
     (case buffered_step h url (fst s) of
        None \<Rightarrow> None
      | Some (Ok (Inl url'), w') \<Rightarrow> buffered_loop h f url' (w', snd s)
      | Some (Ok (Inr content_length), w') \<Rightarrow> body_loop h f content_length 0 (w', snd s)
      | Some (Err e, w') \<Rightarrow> Some (Err (Outer e), w', snd s)
      | Some (Panic, w') \<Rightarrow> Some (Panic, w', snd s))"

definition req_buffered ::
  "('w, 'x) http_ops \<Rightarrow> 'r random \<Rightarrow> bytes \<Rightarrow> (bytes \<Rightarrow> ('c, unit, 'e) action) \<Rightarrow>
   ('w, 'r) http_client \<times> 'c \<Rightarrow>
   ((unit, ('x, 'e) callback_error) outcome \<times> ('w, 'r) http_client \<times> 'c) option" where
  "req_buffered h random url f s =
     (case to_url_string url () of
        (Ok url, _) \<Rightarrow>
          (let c = http_connect h random (fst s)
           in map_option (\<lambda>(r, w, st). (r, c\<lparr>http_stack := w\<rparr>, st))
                (buffered_loop h f url (http_stack c, snd s)))
      | (Err e, _) \<Rightarrow> Some (Err (Outer e), s)
      | (Panic, _) \<Rightarrow> Some (Panic, s))"

section \<open>The URL buffer\<close>

lemma to_url_string_cases:
  "to_url_string u s =
     (if length u > 2048 then (Err UrlTooLong, s)
      else if utf8_valid u then (Ok u, s) else (Err HttpUtf8Error, s))"
  by (simp add: to_url_string_def URL_MAX_LENGTH_def ret_def fail_def)

definition url_ok :: "bytes \<Rightarrow> bool" where
  "url_ok u \<longleftrightarrow> length u \<le> 2048 \<and> utf8_valid u"

lemma to_url_string_Ok [simp]: "to_url_string u s = (Ok v, t) \<longleftrightarrow> url_ok u \<and> v = u \<and> t = s"
  by (auto simp: to_url_string_cases url_ok_def)

lemma to_url_string_run: "url_ok u \<Longrightarrow> to_url_string u s = (Ok u, s)"
  by simp

lemma redirect_url_ok: "redirect_url h resp w = (Ok u, w') \<Longrightarrow> url_ok u \<and> is_redirection h (rs_status resp)"
  by (auto simp: redirect_url_def fail_def split: if_splits option.splits)

lemma redirect_url_no_panic: "redirect_url h resp w \<noteq> (Panic, w')"
  by (auto simp: redirect_url_def fail_def to_url_string_cases split: option.splits)

lemma req_step_no_panic: "req_step h n url w \<noteq> Some (Panic, w')"
  by (auto simp: req_step_def send_request_def tryP_Panic awaits_iff returning_iff action_simps redirect_url_no_panic split: if_splits)

lemma buffered_step_no_panic: "buffered_step h url w \<noteq> Some (Panic, w')"
  by (auto simp: buffered_step_def send_request_def tryP_Panic awaits_iff returning_iff action_simps redirect_url_no_panic split: if_splits)

lemma req_step_redirect_ok: "req_step h n url w = Some (Ok (Inl u), w') \<Longrightarrow> url_ok u"
  by (auto simp: req_step_def tryP_Ok returning_iff action_simps split: if_splits dest!: redirect_url_ok)

lemma req_step_body_short: "req_step h n url w = Some (Ok (Inr body), w') \<Longrightarrow> length body \<le> n"
  by (auto simp: req_step_def tryP_Ok returning_iff action_simps split: if_splits)

section \<open>The redirect loop\<close>

text \<open>The loop with at most \<open>k\<close> requests.\<close>

fun req_fuel ::
  "('w, 'x) http_ops \<Rightarrow> nat \<Rightarrow> nat \<Rightarrow> bytes \<Rightarrow> 'w \<Rightarrow> ((bytes, 'x http_error) outcome \<times> 'w) option" where
  "req_fuel h n 0 url w = None"
| "req_fuel h n (Suc k) url w =
     (case req_step h n url w of
        None \<Rightarrow> None
      | Some (Ok (Inl url'), w') \<Rightarrow> req_fuel h n k url' w'
      | Some (Ok (Inr body), w') \<Rightarrow> Some (Ok body, w')
      | Some (Err e, w') \<Rightarrow> Some (Err e, w')
      | Some (Panic, w') \<Rightarrow> Some (Panic, w'))"

lemma req_loop_run [simp]:
  "req_step h n url w = None \<Longrightarrow> req_loop h n url w = None"
  "req_step h n url w = Some (Ok (Inl u), w') \<Longrightarrow> req_loop h n url w = req_loop h n u w'"
  "req_step h n url w = Some (Ok (Inr body), w') \<Longrightarrow> req_loop h n url w = Some (Ok body, w')"
  "req_step h n url w = Some (Err e, w') \<Longrightarrow> req_loop h n url w = Some (Err e, w')"
  "req_step h n url w = Some (Panic, w') \<Longrightarrow> req_loop h n url w = Some (Panic, w')"
  by (subst req_loop.simps, simp)+

lemma req_fuel_loop: "req_fuel h n k url w = Some r \<Longrightarrow> req_loop h n url w = Some r"
  by (induction k arbitrary: url w) (auto split: option.splits prod.splits outcome.splits sum.splits)

lemma req_loop_fuel: "req_loop h n url w = Some r \<Longrightarrow> \<exists>k. req_fuel h n k url w = Some r"
proof (induction rule: req_loop.raw_induct [rotated, consumes 1, case_names step])
  case (step loop h n url w r)
  from step(2) obtain o' w' where s: "req_step h n url w = Some (o', w')" by (cases "req_step h n url w") auto
  show ?case
  proof (cases "\<exists>u. o' = Ok (Inl u)")
    case True
    then obtain u where u: "o' = Ok (Inl u)" ..
    with step(2) s have "loop h n u w' = Some r" by simp
    then obtain k where "req_fuel h n k u w' = Some r" using step(1) by blast
    with s u have "req_fuel h n (Suc k) url w = Some r" by simp
    then show ?thesis ..
  next
    case False
    with step(2) s have "req_fuel h n (Suc 0) url w = Some r"
      by (auto split: outcome.splits sum.splits)
    then show ?thesis ..
  qed
qed

lemma req_loop_returns_iff: "req_loop h n url w \<noteq> None \<longleftrightarrow> (\<exists>k. req_fuel h n k url w \<noteq> None)"
  using req_fuel_loop req_loop_fuel by (metis not_None_eq)

text \<open>A server that answers every request for a valid URL with a redirect to a valid URL.\<close>

lemma req_fuel_redirects:
  assumes "\<And>u w. url_ok u \<Longrightarrow> \<exists>v w'. req_step h n u w = Some (Ok (Inl v), w')" "url_ok u"
  shows "req_fuel h n k u w = None"
  using assms(2)
proof (induction k arbitrary: u w)
  case 0
  then show ?case by simp
next
  case (Suc k)
  obtain v w' where s: "req_step h n u w = Some (Ok (Inl v), w')" using assms(1) [OF Suc.prems] by blast
  then have "url_ok v" by (rule req_step_redirect_ok)
  with s Suc.IH show ?case by simp
qed

text \<open>What a request that returns can return.\<close>

lemma req_fuel_result:
  "req_fuel h n k url w = Some (r, w') \<Longrightarrow> r \<noteq> Panic \<and> (\<forall>body. r = Ok body \<longrightarrow> length body \<le> n)"
proof (induction k arbitrary: url w)
  case 0
  then show ?case by simp
next
  case (Suc k)
  from Suc.prems obtain o' w1 where s: "req_step h n url w = Some (o', w1)" by (cases "req_step h n url w") auto
  show ?case
  proof (cases o')
    case (Ok x)
    show ?thesis
    proof (cases x)
      case (Inl u)
      with Ok s Suc.prems have "req_fuel h n k u w1 = Some (r, w')" by simp
      then show ?thesis by (rule Suc.IH)
    next
      case (Inr body)
      with Ok s Suc.prems req_step_body_short [of h n url w body w1] show ?thesis by auto
    qed
  next
    case (Err e)
    with s Suc.prems show ?thesis by auto
  next
    case Panic
    with s req_step_no_panic [of h n url w w1] show ?thesis by simp
  qed
qed

lemma req_loop_result:
  "req_loop h n url w = Some (r, w') \<Longrightarrow> r \<noteq> Panic \<and> (\<forall>body. r = Ok body \<longrightarrow> length body \<le> n)"
proof -
  assume "req_loop h n url w = Some (r, w')"
  then obtain k where "req_fuel h n k url w = Some (r, w')" by (auto dest: req_loop_fuel)
  then show ?thesis by (rule req_fuel_result)
qed

section \<open>The loop over the body\<close>

lemma body_loop_run [simp]:
  "body_step h f cl tot s = None \<Longrightarrow> body_loop h f cl tot s = None"
  "body_step h f cl tot s = Some (Ok (Some tot'), s') \<Longrightarrow> body_loop h f cl tot s = body_loop h f cl tot' s'"
  "body_step h f cl tot s = Some (Ok None, s') \<Longrightarrow> body_loop h f cl tot s = Some (Ok (), s')"
  "body_step h f cl tot s = Some (Err e, s') \<Longrightarrow> body_loop h f cl tot s = Some (Err e, s')"
  "body_step h f cl tot s = Some (Panic, s') \<Longrightarrow> body_loop h f cl tot s = Some (Panic, s')"
  by (subst body_loop.simps, simp)+

lemma buffered_loop_run [simp]:
  "buffered_step h u (fst s) = None \<Longrightarrow> buffered_loop h f u s = None"
  "buffered_step h u (fst s) = Some (Ok (Inl u'), w') \<Longrightarrow> buffered_loop h f u s = buffered_loop h f u' (w', snd s)"
  "buffered_step h u (fst s) = Some (Ok (Inr cl), w') \<Longrightarrow> buffered_loop h f u s = body_loop h f cl 0 (w', snd s)"
  "buffered_step h u (fst s) = Some (Err e, w') \<Longrightarrow> buffered_loop h f u s = Some (Err (Outer e), w', snd s)"
  by (subst buffered_loop.simps, simp)+

text \<open>
  The chunks a body is read in: \<open>chunk_read h w cs w'\<close> reads and consumes the chunks \<open>cs\<close>
  from \<open>w\<close> on, up to the end of the body in \<open>w'\<close>.
\<close>

inductive chunk_read :: "('w, 'x) http_ops \<Rightarrow> 'w \<Rightarrow> bytes list \<Rightarrow> 'w \<Rightarrow> bool" for h where
  end_of_body: "hc_fill_buf h w = Some (Inr [], w') \<Longrightarrow> chunk_read h w [] w'"
| chunk: "hc_fill_buf h w = Some (Inr b, w1) \<Longrightarrow> b \<noteq> [] \<Longrightarrow> chunk_read h (hc_consume h (length b) w1) cs w' \<Longrightarrow>
    chunk_read h w (b # cs) w'"

text \<open>
  The request for \<open>url\<close> in the world \<open>w\<close> leads over its redirects to a final response with content length
  \<open>cl\<close>, whose body is read from the world \<open>w'\<close> on.
\<close>

inductive final_response :: "('w, 'x) http_ops \<Rightarrow> bytes \<Rightarrow> 'w \<Rightarrow> usize \<Rightarrow> 'w \<Rightarrow> bool" for h where
  answered: "buffered_step h url w = Some (Ok (Inr cl), w') \<Longrightarrow> final_response h url w cl w'"
| redirected: "buffered_step h url w = Some (Ok (Inl url'), w1) \<Longrightarrow> final_response h url' w1 cl w' \<Longrightarrow>
    final_response h url w cl w'"

text \<open>The callback on one chunk after the other.\<close>

fun callbacks :: "(bytes \<Rightarrow> ('c, unit, 'e) action) \<Rightarrow> bytes list \<Rightarrow> ('c, unit, 'e) action" where
  "callbacks f [] = ret ()"
| "callbacks f (b # bs) = tryA (f b) (\<lambda>_. callbacks f bs)"

lemma body_step_cases:
  assumes "body_step h f cl tot s = Some (r, s')"
  obtains (read_error) x w' where "hc_fill_buf h (fst s) = Some (Inl x, w')" "r = Err (Outer (Reqwless x))"
      "s' = (w', snd s)"
  | (finished) w' where "hc_fill_buf h (fst s) = Some (Inr [], w')" "r = Ok None" "s' = (w', snd s)"
  | (too_long) b w' where "hc_fill_buf h (fst s) = Some (Inr b, w')" "b \<noteq> []" "tot + of_nat (length b) > cl"
      "r = Panic" "s' = (w', snd s)"
  | (callback) b w1 o' c' where "hc_fill_buf h (fst s) = Some (Inr b, w1)" "b \<noteq> []"
      "tot + of_nat (length b) \<le> cl" "f b (snd s) = (o', c')" "o' \<noteq> Ok ()"
      "r = (case o' of Err e \<Rightarrow> Err (Callback e) | _ \<Rightarrow> Panic)" "s' = (w1, c')"
  | (next_chunk) b w1 c' where "hc_fill_buf h (fst s) = Some (Inr b, w1)" "b \<noteq> []"
      "tot + of_nat (length b) \<le> cl" "f b (snd s) = (Ok (), c')" "r = Ok (Some (tot + of_nat (length b)))"
      "s' = (hc_consume h (length b) w1, c')"
proof -
  from assms obtain q w1 where q: "hc_fill_buf h (fst s) = Some (q, w1)"
    by (cases "hc_fill_buf h (fst s)") (auto simp: body_step_def)
  show ?thesis
  proof (cases q)
    case (Inl x)
    with q assms show ?thesis by (intro read_error) (auto simp: body_step_def)
  next
    case (Inr b)
    obtain o' c' where c: "f b (snd s) = (o', c')" by fastforce
    consider "b = []" | "b \<noteq> []" "tot + of_nat (length b) > cl"
      | "b \<noteq> []" "tot + of_nat (length b) \<le> cl" "o' = Ok ()"
      | "b \<noteq> []" "tot + of_nat (length b) \<le> cl" "o' \<noteq> Ok ()"
      by fastforce
    then show ?thesis
    proof cases
      case 1
      with q Inr assms show ?thesis by (intro finished) (auto simp: body_step_def)
    next
      case 2
      with q Inr assms show ?thesis by (intro too_long) (auto simp: body_step_def returning_def panic_def)
    next
      case 3
      then have "\<not> cl < tot + of_nat (length b)" by simp
      with 3 q Inr c assms show ?thesis
        by (intro next_chunk)
          (auto simp: body_step_def returning_def tryA_def zoom_def ret_def map_err_def modify_def Let_def)
    next
      case 4
      then have "\<not> cl < tot + of_nat (length b)" by simp
      with 4 q Inr c assms show ?thesis
        by (intro callback)
          (auto simp: body_step_def returning_def tryA_def zoom_def map_err_def Let_def split: outcome.splits)
    qed
  qed
qed

lemma body_step_None: "body_step h f cl tot s = None \<longleftrightarrow> hc_fill_buf h (fst s) = None"
  by (cases "hc_fill_buf h (fst s)")
    (auto simp: body_step_def tryP_def zoomP_def returning_def awaits_def prod_eq_iff split: sum.splits prod.splits)

text \<open>
  The total fits the machine word: the library's buffer is never longer than \<open>m\<close>, and there is
  room for one more of them above the content length.
\<close>

definition body_fits :: "('w, 'x) http_ops \<Rightarrow> nat \<Rightarrow> usize \<Rightarrow> bool" where
  "body_fits h m cl \<longleftrightarrow>
     (\<forall>w b w'. hc_fill_buf h w = Some (Inr b, w') \<longrightarrow> length b \<le> m) \<and> unat cl + m < 2 ^ 32"

lemma body_fits_total:
  assumes "body_fits h m cl" "hc_fill_buf h w = Some (Inr b, w')" "tot \<le> cl"
  shows "unat (tot + of_nat (length b)) = unat tot + length b"
proof -
  have "length b \<le> m" "unat cl + m < 2 ^ 32" "unat tot \<le> unat cl"
    using assms by (auto simp: body_fits_def word_le_nat_alt)
  then show ?thesis by (intro unat_plus_of_nat) simp
qed

text \<open>If the library always fills its buffer, then every turn of the loop that continues brings the total closer to the content length.\<close>

lemma body_loop_returns:
  assumes fits: "body_fits h m cl" and completes: "\<forall>w. hc_fill_buf h w \<noteq> None"
  shows "tot \<le> cl \<Longrightarrow> \<exists>r. body_loop h f cl tot s = Some r"
proof (induction "unat cl - unat tot" arbitrary: tot s rule: less_induct)
  case less
  from completes have "body_step h f cl tot s \<noteq> None" by (simp add: body_step_None)
  then obtain r s' where step: "body_step h f cl tot s = Some (r, s')" by fastforce
  show ?case
  proof (cases r)
    case (Ok x)
    show ?thesis
    proof (cases x)
      case None
      with Ok step show ?thesis by simp
    next
      case (Some tot')
      from step show ?thesis
      proof (cases rule: body_step_cases)
        case (next_chunk b w1 c')
        with Ok Some have tot': "tot' = tot + of_nat (length b)" by simp
        have "unat tot' = unat tot + length b"
          unfolding tot' by (rule body_fits_total [OF fits next_chunk(1) less.prems])
        moreover have "unat tot' \<le> unat cl" using next_chunk(3) tot' by (simp add: word_le_nat_alt)
        moreover have "0 < length b" using next_chunk(2) by simp
        ultimately have "unat cl - unat tot' < unat cl - unat tot" by linarith
        moreover have "tot' \<le> cl" using next_chunk(3) tot' by simp
        ultimately have "\<exists>r. body_loop h f cl tot' s' = Some r" by (rule less.hyps)
        with Ok Some step show ?thesis by simp
      qed (use Ok Some in \<open>auto split: outcome.splits\<close>)
    qed
  qed (use step in simp_all)
qed

text \<open>A loop that ends well has run the callback on all chunks of the body, in order.\<close>

lemma body_loop_delivers_aux:
  "body_loop h f cl tot s = Some r \<Longrightarrow> fst r = Ok () \<longrightarrow>
    (\<exists>cs. chunk_read h (fst s) cs (fst (snd r)) \<and> callbacks f cs (snd s) = (Ok (), snd (snd r)) \<and>
      (\<forall>m. body_fits h m cl \<and> tot \<le> cl \<longrightarrow> unat tot + length (concat cs) \<le> unat cl))"
proof (induction rule: body_loop.raw_induct [rotated, consumes 1, case_names step])
  case (step loop h f cl tot s r)
  from step(2) obtain q s1 where run: "body_step h f cl tot s = Some (q, s1)" by (cases "body_step h f cl tot s") auto
  from run show ?case
  proof (cases rule: body_step_cases)
    case (finished w')
    with run step(2) have "r = (Ok (), w', snd s)" by simp
    with finished show ?thesis
      by (intro impI exI [of _ "[]"]) (simp add: end_of_body ret_def word_le_nat_alt)
  next
    case (next_chunk b w1 c')
    let ?tot = "tot + of_nat (length b)"
    have "loop h f cl ?tot s1 = Some r" using step(2) run next_chunk(5) by simp
    note IH = step(1) [OF this]
    show ?thesis
    proof
      assume "fst r = Ok ()"
      with IH obtain cs where cs: "chunk_read h (fst s1) cs (fst (snd r))"
        "callbacks f cs (snd s1) = (Ok (), snd (snd r))"
        "\<And>m. body_fits h m cl \<Longrightarrow> unat ?tot + length (concat cs) \<le> unat cl"
        using next_chunk(3) by blast
      have "unat tot + length (concat (b # cs)) \<le> unat cl" if "body_fits h m cl" "tot \<le> cl" for m
        using cs(3) [OF that(1)] body_fits_total [OF that(1) next_chunk(1) that(2)] by simp
      moreover have "chunk_read h (fst s) (b # cs) (fst (snd r))"
        using next_chunk cs(1) by (simp add: chunk_read.chunk)
      moreover have "callbacks f (b # cs) (snd s) = (Ok (), snd (snd r))"
        using next_chunk cs(2) by simp
      ultimately show "\<exists>cs. chunk_read h (fst s) cs (fst (snd r)) \<and>
          callbacks f cs (snd s) = (Ok (), snd (snd r)) \<and>
          (\<forall>m. body_fits h m cl \<and> tot \<le> cl \<longrightarrow> unat tot + length (concat cs) \<le> unat cl)"
        by blast
    qed
  qed (use run step(2) in \<open>auto split: outcome.splits\<close>)
qed

lemma body_loop_delivers:
  assumes "body_loop h f cl tot s = Some (Ok (), s')"
  obtains cs where "chunk_read h (fst s) cs (fst s')" "callbacks f cs (snd s) = (Ok (), snd s')"
    "\<And>m. body_fits h m cl \<Longrightarrow> tot \<le> cl \<Longrightarrow> unat tot + length (concat cs) \<le> unat cl"
  using body_loop_delivers_aux [OF assms] by auto

text \<open>The whole buffered loop, over its redirects.\<close>

lemma buffered_loop_delivers_aux:
  "buffered_loop h f url s = Some r \<Longrightarrow> fst r = Ok () \<longrightarrow>
    (\<exists>cl w cs. final_response h url (fst s) cl w \<and> chunk_read h w cs (fst (snd r)) \<and>
      callbacks f cs (snd s) = (Ok (), snd (snd r)) \<and> (\<forall>m. body_fits h m cl \<longrightarrow> length (concat cs) \<le> unat cl))"
proof (induction rule: buffered_loop.raw_induct [rotated, consumes 1, case_names step])
  case (step loop h f url s r)
  from step(2) obtain q w' where run: "buffered_step h url (fst s) = Some (q, w')" by (cases "buffered_step h url (fst s)") auto
  show ?case
  proof (cases q)
    case (Ok x)
    show ?thesis
    proof (cases x)
      case (Inl u)
      with Ok run step(2) have "loop h f u (w', snd s) = Some r" by simp
      from step(1) [OF this] redirected [OF run [unfolded Ok Inl]] show ?thesis by fastforce
    next
      case (Inr cl)
      with Ok run step(2) have "body_loop h f cl 0 (w', snd s) = Some r" by simp
      from body_loop_delivers_aux [OF this] answered [OF run [unfolded Ok Inr]] show ?thesis by fastforce
    qed
  qed (use run step(2) in auto)
qed

lemma buffered_loop_delivers:
  assumes "buffered_loop h f url s = Some (Ok (), s')"
  obtains cl w cs where "final_response h url (fst s) cl w" "chunk_read h w cs (fst s')"
    "callbacks f cs (snd s) = (Ok (), snd s')" "\<And>m. body_fits h m cl \<Longrightarrow> length (concat cs) \<le> unat cl"
  using buffered_loop_delivers_aux [OF assms] by auto

lemma req_buffered_delivers:
  assumes "req_buffered h random url f s = Some (Ok (), c', st')"
  obtains cl w cs where "final_response h url (http_stack (http_connect h random (fst s))) cl w"
    "chunk_read h w cs (http_stack c')" "callbacks f cs (snd s) = (Ok (), st')"
    "\<And>m. body_fits h m cl \<Longrightarrow> length (concat cs) \<le> unat cl"
proof -
  obtain w1 where "buffered_loop h f url (http_stack (http_connect h random (fst s)), snd s) =
      Some (Ok (), http_stack c', st')"
    using assms by (auto simp: req_buffered_def Let_def to_url_string_cases split: if_splits)
  from buffered_loop_delivers [OF this] that show ?thesis by auto
qed

section \<open>What the callback is called on\<close>

text \<open>
  However the loop over a body ends, the callback's state is what a sequence of calls on chunks that
  were read makes of it, the last of which may have failed.
\<close>

definition called_on :: "('w, 'x) http_ops \<Rightarrow> (bytes \<Rightarrow> ('c, unit, 'e) action) \<Rightarrow> 'c \<Rightarrow> 'c \<Rightarrow> bool" where
  "called_on h f st st' \<longleftrightarrow>
     (\<exists>cs q. callbacks f cs st = (q, st') \<and> (\<forall>c\<in>set cs. \<exists>w w'. hc_fill_buf h w = Some (Inr c, w')))"

lemma called_on_refl [simp]: "called_on h f st st"
  unfolding called_on_def by (intro exI [of _ "[]"]) (simp add: ret_def)

lemma called_on_stop: "hc_fill_buf h w = Some (Inr b, w') \<Longrightarrow> f b st = (q, st') \<Longrightarrow> called_on h f st st'"
  unfolding called_on_def
  by (intro exI [of _ "[b]"], cases q) (auto simp: ret_def)

lemma called_on_next:
  assumes "hc_fill_buf h w = Some (Inr b, w')" "f b st = (Ok (), st1)" "called_on h f st1 st'"
  shows "called_on h f st st'"
proof -
  from assms(3) obtain cs q where "callbacks f cs st1 = (q, st')"
    "\<forall>c\<in>set cs. \<exists>w w'. hc_fill_buf h w = Some (Inr c, w')"
    unfolding called_on_def by blast
  with assms(1,2) have "callbacks f (b # cs) st = (q, st') \<and>
      (\<forall>c\<in>set (b # cs). \<exists>w w'. hc_fill_buf h w = Some (Inr c, w'))" by auto
  then show ?thesis unfolding called_on_def by blast
qed

lemma body_loop_called_on:
  "body_loop h f cl tot s = Some r \<Longrightarrow> called_on h f (snd s) (snd (snd r))"
proof (induction rule: body_loop.raw_induct [rotated, consumes 1, case_names step])
  case (step loop h f cl tot s r)
  from step(2) obtain q s1 where run: "body_step h f cl tot s = Some (q, s1)" by (cases "body_step h f cl tot s") auto
  from run show ?case
  proof (cases rule: body_step_cases)
    case (next_chunk b w1 c')
    have "loop h f cl (tot + of_nat (length b)) s1 = Some r" using step(2) run next_chunk(5) by simp
    from step(1) [OF this] next_chunk(6) have "called_on h f c' (snd (snd r))" by simp
    with next_chunk(1,4) show ?thesis by (rule called_on_next)
  next
    case (callback b w1 o' c')
    then have "called_on h f (snd s) c'" by (intro called_on_stop)
    moreover have "snd (snd r) = c'"
      using step(2) run callback(5,6,7) by (auto split: outcome.splits)
    ultimately show ?thesis by simp
  qed (use run step(2) in auto)
qed

lemma buffered_loop_called_on:
  "buffered_loop h f url s = Some r \<Longrightarrow> called_on h f (snd s) (snd (snd r))"
proof (induction rule: buffered_loop.raw_induct [rotated, consumes 1, case_names step])
  case (step loop h f url s r)
  from step(2) obtain q w' where run: "buffered_step h url (fst s) = Some (q, w')" by (cases "buffered_step h url (fst s)") auto
  show ?case
  proof (cases q)
    case (Ok x)
    show ?thesis
    proof (cases x)
      case (Inl u)
      with Ok run step(2) have "loop h f u (w', snd s) = Some r" by simp
      from step(1) [OF this] show ?thesis by simp
    next
      case (Inr cl)
      with Ok run step(2) have "body_loop h f cl 0 (w', snd s) = Some r" by simp
      from body_loop_called_on [OF this] show ?thesis by simp
    qed
  qed (use run step(2) in auto)
qed

lemma req_buffered_called_on:
  assumes "req_buffered h random url f s = Some (r, c', st')"
  shows "called_on h f (snd s) st'"
proof (cases "url_ok url")
  case True
  with assms obtain w where
    "buffered_loop h f url (http_stack (http_connect h random (fst s)), snd s) = Some (r, w, st')"
    by (auto simp: req_buffered_def to_url_string_run Let_def)
  from buffered_loop_called_on [OF this] show ?thesis by simp
next
  case False
  with assms have "st' = snd s"
    by (auto simp: req_buffered_def to_url_string_cases url_ok_def split: if_splits)
  then show ?thesis by simp
qed

lemma chunk_read_filled: "chunk_read h w cs w' \<Longrightarrow> \<forall>c\<in>set cs. \<exists>w w'. hc_fill_buf h w = Some (Inr c, w')"
  by (induction rule: chunk_read.induct) auto

end
