(* ===== verification/Wifi.thy ===== *)
theory Wifi
  imports Rng_Wrapper Text
begin

text \<open>
  The WiFi start-up of src/wifi.rs. The radio driver (esp_wifi), the network stack
  (embassy_net), the timers and the signals between tasks are code outside the repository:
  \<open>wifi_ops\<close> holds them as parameters over an unknown world. What is modelled is the logic of
  the file: the cache it keeps in retained memory over deep sleeps (the last access point and
  the last address), when \<open>connect\<close> uses it, what \<open>wait_for_connection\<close> stores in it, and the
  turns of the connection task.

  Polling loops have no bound in the code and are \<open>partial_function (option)\<close>; \<open>None\<close> is a loop
  that never ends, or a call of the driver or a wait for an event or a signal that never completes. Nothing in the
  repository signals the restart, for which the connection task waits after a shutdown. Delays are in microseconds.
\<close>

definition SSID_MAX_LEN :: nat where "SSID_MAX_LEN = 32"
definition PASSWORD_LEN :: nat where "PASSWORD_LEN = 64"
definition MAX_STATIC_IP_USES :: usize where "MAX_STATIC_IP_USES = 10"

datatype ('i, 'x) wifi_error = WifiInitialization 'i | WifiDriver 'x

record 'am client_config =
  cc_ssid :: bytes
  cc_password :: bytes
  cc_bssid :: "bytes option"
  cc_channel :: "u8 option"
  cc_auth_method :: 'am

record 'am access_point =
  ap_bssid :: bytes
  ap_channel :: u8
  ap_auth_method :: "'am option"

datatype 'cfg net_config = Static_Ip 'cfg | Dhcp

record ('w, 'am, 'cfg, 'i, 'x) wifi_ops =
  wf_init :: "'w \<Rightarrow> ('i + unit) \<times> 'w"
  wf_new_with_config :: "'am client_config \<Rightarrow> 'w \<Rightarrow> ('x + unit) \<times> 'w"
  wf_new_with_mode :: "'w \<Rightarrow> ('x + unit) \<times> 'w"
  wf_new_stack :: "'cfg net_config \<Rightarrow> u64 \<Rightarrow> 'w \<Rightarrow> 'w"
  wf_link_up :: "'w \<Rightarrow> bool"
  wf_config_v4 :: "'w \<Rightarrow> 'cfg option"
  wf_sta_connected :: "'w \<Rightarrow> bool"
  wf_is_started :: "'w \<Rightarrow> 'x + bool"
  wf_start :: "'w \<Rightarrow> (('x + unit) \<times> 'w) option"
  wf_stop :: "'w \<Rightarrow> (('x + unit) \<times> 'w) option"
  wf_scan :: "bytes \<Rightarrow> 'w \<Rightarrow> (('x + 'am access_point list) \<times> 'w) option"
  wf_set_configuration :: "'am client_config \<Rightarrow> 'w \<Rightarrow> ('x + unit) \<times> 'w"
  wf_connect :: "'w \<Rightarrow> (('x + unit) \<times> 'w) option"
  wf_wait_disconnected :: "'w \<Rightarrow> 'w option"
  wf_wait_shutdown :: "'w \<Rightarrow> 'w option"
  wf_signal_complete :: "'w \<Rightarrow> 'w"
  wf_wait_restart :: "'w \<Rightarrow> 'w option"
  wf_delay :: "nat \<Rightarrow> 'w \<Rightarrow> 'w"
  wf_wpa2 :: 'am

text \<open>The statics in retained memory.\<close>

record ('am, 'cfg) wifi_cache =
  last_ssid :: "bytes option"
  last_bssid :: "bytes option"
  last_channel :: "u8 option"
  last_auth_method :: 'am
  static_ip_config :: "'cfg option"
  static_ip_uses :: usize

record ('w, 'am, 'cfg, 'r) wifi_state =
  wf_world :: 'w
  wf_cache :: "('am, 'cfg) wifi_cache"
  wf_rng :: 'r

definition wifi_cache_new :: "('w, 'am, 'cfg, 'i, 'x) wifi_ops \<Rightarrow> ('am, 'cfg) wifi_cache" where
  "wifi_cache_new dev =
     \<lparr>last_ssid = None, last_bssid = None, last_channel = None, last_auth_method = wf_wpa2 dev,
      static_ip_config = None, static_ip_uses = 0\<rparr>"

abbreviation on_world :: "('w, 'a, 'e) action \<Rightarrow> (('w, 'am, 'cfg, 'r) wifi_state, 'a, 'e) action" where
  "on_world \<equiv> zoom wf_world (\<lambda>w s. s\<lparr>wf_world := w\<rparr>)"

abbreviation on_cache ::
  "(('am, 'cfg) wifi_cache \<Rightarrow> ('am, 'cfg) wifi_cache) \<Rightarrow> (('w, 'am, 'cfg, 'r) wifi_state, unit, 'e) action" where
  "on_cache g \<equiv> modify (\<lambda>s. s\<lparr>wf_cache := g (wf_cache s)\<rparr>)"

abbreviation radio ::
  "('w \<Rightarrow> ('x + 'a) \<times> 'w) \<Rightarrow> (('w, 'am, 'cfg, 'r) wifi_state, 'a, ('i, 'x) wifi_error) action" where
  "radio m \<equiv> on_world (external WifiDriver m)"

section \<open>Connecting\<close>

text \<open>The configuration both \<open>connect\<close> and the connection task build from the cache.\<close>

definition cached_config :: "bytes \<Rightarrow> bytes \<Rightarrow> ('am, 'cfg) wifi_cache \<Rightarrow> 'am client_config" where
  "cached_config ssid password c =
     \<lparr>cc_ssid = ssid, cc_password = password, cc_bssid = last_bssid c, cc_channel = last_channel c,
      cc_auth_method = last_auth_method c\<rparr>"

definition forget_other_ssid :: "bytes \<Rightarrow> ('am, 'cfg) wifi_cache \<Rightarrow> ('am, 'cfg) wifi_cache" where
  "forget_other_ssid ssid c = (if last_ssid c \<noteq> Some ssid then c\<lparr>last_bssid := None\<rparr> else c)"

definition choose_net_config :: "('am, 'cfg) wifi_cache \<Rightarrow> 'cfg net_config \<times> ('am, 'cfg) wifi_cache" where
  "choose_net_config c =
     (case static_ip_config c of
        Some ip \<Rightarrow>
          (if static_ip_uses c < MAX_STATIC_IP_USES
           then (Static_Ip ip, c\<lparr>static_ip_uses := static_ip_uses c + 1\<rparr>) else (Dhcp, c))
      | None \<Rightarrow> (Dhcp, c))"

definition wifi_connect ::
  "('w, 'am, 'cfg, 'i, 'x) wifi_ops \<Rightarrow> 'r random \<Rightarrow> bytes \<Rightarrow> bytes \<Rightarrow>
   (('w, 'am, 'cfg, 'r) wifi_state, 'cfg net_config, ('i, 'x) wifi_error) action" where
  "wifi_connect dev random ssid password s =
     (let (seed, r) = next_u64 random (wf_rng s)
      in tryA (on_world (external WifiInitialization (wf_init dev))) (\<lambda>_.
         tryA (on_cache (forget_other_ssid ssid)) (\<lambda>_.
         tryA (\<lambda>s. if last_bssid (wf_cache s) \<noteq> None
                   then radio (wf_new_with_config dev (cached_config ssid password (wf_cache s))) s
                   else radio (wf_new_with_mode dev) s) (\<lambda>_ s.
           let (config, c) = choose_net_config (wf_cache s)
           in ret config (s\<lparr>wf_cache := c, wf_world := wf_new_stack dev config seed (wf_world s)\<rparr>))))
         (s\<lparr>wf_rng := r\<rparr>))"

section \<open>Waiting for the connection\<close>

partial_function (option) wait_link_up :: "('w, 'am, 'cfg, 'i, 'x) wifi_ops \<Rightarrow> 'w \<Rightarrow> 'w option" where
  "wait_link_up dev w = (if wf_link_up dev w then Some w else wait_link_up dev (wf_delay dev 1000000 w))"

partial_function (option) wait_config_v4 ::
  "('w, 'am, 'cfg, 'i, 'x) wifi_ops \<Rightarrow> 'w \<Rightarrow> ('cfg \<times> 'w) option" where
  "wait_config_v4 dev w =
     (case wf_config_v4 dev w of
        Some config \<Rightarrow> Some (config, w)
      | None \<Rightarrow> wait_config_v4 dev (wf_delay dev 1000000 w))"

definition remember_config :: "'cfg \<Rightarrow> ('am, 'cfg) wifi_cache \<Rightarrow> ('am, 'cfg) wifi_cache" where
  "remember_config config c =
     (if static_ip_config c = None then c\<lparr>static_ip_config := Some config, static_ip_uses := 0\<rparr> else c)"

definition wait_for_connection ::
  "('w, 'am, 'cfg, 'i, 'x) wifi_ops \<Rightarrow> ('w, 'am, 'cfg, 'r) wifi_state \<Rightarrow> ('w, 'am, 'cfg, 'r) wifi_state option" where
  "wait_for_connection dev s =
     (case wait_link_up dev (wf_world s) of
        None \<Rightarrow> None
      | Some w \<Rightarrow>
          (case wait_config_v4 dev w of
             None \<Rightarrow> None
           | Some (config, w) \<Rightarrow> Some (s\<lparr>wf_world := w, wf_cache := remember_config config (wf_cache s)\<rparr>)))"

section \<open>The connection task\<close>

definition connection_init ::
  "('w, 'am, 'cfg, 'i, 'x) wifi_ops \<Rightarrow> bytes \<Rightarrow> ('am, 'cfg) wifi_cache \<Rightarrow> ('am, 'cfg) wifi_cache" where
  "connection_init dev ssid c =
     (let c = (case last_ssid c of
                 Some lssid \<Rightarrow>
                   (if lssid \<noteq> ssid
                    then c\<lparr>last_bssid := None, last_channel := None, last_auth_method := wf_wpa2 dev\<rparr> else c)
               | None \<Rightarrow> c)
      in c\<lparr>last_ssid := Some ssid\<rparr>)"

partial_function (option) wait_started :: "('w, 'am, 'cfg, 'i, 'x) wifi_ops \<Rightarrow> 'w \<Rightarrow> 'w option" where
  "wait_started dev w =
     (if wf_is_started dev w = Inr False then wait_started dev (wf_delay dev 10 w) else Some w)"

abbreviation awaits_radio ::
  "('w \<Rightarrow> (('x + 'a) \<times> 'w) option) \<Rightarrow> (('w, 'am, 'cfg, 'r) wifi_state, 'a, ('i, 'x) wifi_error) process" where
  "awaits_radio m \<equiv> zoomP wf_world (\<lambda>w s. s\<lparr>wf_world := w\<rparr>) (awaits WifiDriver m)"

definition waits :: "('w \<Rightarrow> 'w option) \<Rightarrow> (('w, 'am, 'cfg, 'r) wifi_state, unit, 'e) process" where
  "waits m s = map_option (\<lambda>w. (Ok (), s\<lparr>wf_world := w\<rparr>)) (m (wf_world s))"

definition ensure_started ::
  "('w, 'am, 'cfg, 'i, 'x) wifi_ops \<Rightarrow> (('w, 'am, 'cfg, 'r) wifi_state, unit, ('i, 'x) wifi_error) process" where
  "ensure_started dev s =
     (if wf_is_started dev (wf_world s) \<noteq> Inr True then awaits_radio (wf_start dev) s else returning (ret ()) s)"

text \<open>The scan: whether an access point was found.\<close>

definition remember_ap :: "'am access_point \<Rightarrow> ('am, 'cfg) wifi_cache \<Rightarrow> ('am, 'cfg) wifi_cache" where
  "remember_ap ap c =
     (let c = c\<lparr>last_bssid := Some (ap_bssid ap), last_channel := Some (ap_channel ap)\<rparr>
      in case ap_auth_method ap of Some am \<Rightarrow> c\<lparr>last_auth_method := am\<rparr> | None \<Rightarrow> c)"

definition scan_for_ap ::
  "('w, 'am, 'cfg, 'i, 'x) wifi_ops \<Rightarrow> bytes \<Rightarrow>
   (('w, 'am, 'cfg, 'r) wifi_state, bool, ('i, 'x) wifi_error) process" where
  "scan_for_ap dev ssid =
     tryP (awaits_radio (wf_scan dev ssid)) (\<lambda>aps.
       case aps of
         ap # _ \<Rightarrow>
           tryP (returning (on_cache (remember_ap ap))) (\<lambda>_.
           tryP (awaits_radio (wf_stop dev)) (\<lambda>_.
           tryP (returning (on_world (modify (wf_delay dev 100)))) (\<lambda>_. returning (ret True))))
       | [] \<Rightarrow> tryP (returning (on_world (modify (wf_delay dev 100)))) (\<lambda>_. returning (ret False)))"

text \<open>After a connection: waiting to be stopped, stopping, and waiting to be restarted.\<close>

definition until_restart ::
  "('w, 'am, 'cfg, 'i, 'x) wifi_ops \<Rightarrow> (('w, 'am, 'cfg, 'r) wifi_state, unit, ('i, 'x) wifi_error) process" where
  "until_restart dev =
     tryP (waits (wf_wait_shutdown dev)) (\<lambda>_.
     tryP (awaits_radio (wf_stop dev)) (\<lambda>_.
     tryP (returning (on_world (modify (wf_signal_complete dev)))) (\<lambda>_.
     waits (wf_wait_restart dev))))"

text \<open>Configuring and connecting. A failure to connect is no error: the next turn tries again.\<close>

definition associate ::
  "('w, 'am, 'cfg, 'i, 'x) wifi_ops \<Rightarrow> bytes \<Rightarrow> bytes \<Rightarrow>
   (('w, 'am, 'cfg, 'r) wifi_state, unit, ('i, 'x) wifi_error) process" where
  "associate dev ssid password s =
     tryP (returning (radio (wf_set_configuration dev (cached_config ssid password (wf_cache s))))) (\<lambda>_.
     tryP (ensure_started dev) (\<lambda>_ s.
       case wf_connect dev (wf_world s) of
         None \<Rightarrow> None
       | Some (Inr _, w) \<Rightarrow> until_restart dev (s\<lparr>wf_world := w\<rparr>)
       | Some (Inl _, w) \<Rightarrow> returning (on_world (modify (wf_delay dev 500000))) (s\<lparr>wf_world := w\<rparr>))) s"

definition wait_previous ::
  "('w, 'am, 'cfg, 'i, 'x) wifi_ops \<Rightarrow> (('w, 'am, 'cfg, 'r) wifi_state, unit, ('i, 'x) wifi_error) process" where
  "wait_previous dev s =
     (if wf_sta_connected dev (wf_world s)
      then tryP (waits (wf_wait_disconnected dev)) (\<lambda>_. returning (on_world (modify (wf_delay dev 5000000)))) s
      else returning (ret ()) s)"

text \<open>One turn of the loop of \<open>connection_fallible\<close>.\<close>

definition connection_turn ::
  "('w, 'am, 'cfg, 'i, 'x) wifi_ops \<Rightarrow> bytes \<Rightarrow> bytes \<Rightarrow>
   (('w, 'am, 'cfg, 'r) wifi_state, unit, ('i, 'x) wifi_error) process" where
  "connection_turn dev ssid password =
     tryP (wait_previous dev) (\<lambda>_ s.
       if last_bssid (wf_cache s) = None then
         tryP (ensure_started dev) (\<lambda>_.
         tryP (waits (wait_started dev)) (\<lambda>_.
         tryP (scan_for_ap dev ssid) (\<lambda>found.
           if found then associate dev ssid password else returning (ret ())))) s
       else associate dev ssid password s)"

end
