(* ===== verification/Blind_Error.thy ===== *)
theory Blind_Error
  imports Ota Nvs Ntp Http Wifi
begin

text \<open>
  The error type of the firmware (\<open>Error\<close> in src/bin/blind.rs) and the conversions \<open>?\<close> applies to
  the errors of the components. Its \<open>Impossible\<close> case carries a type without values and has no
  counterpart. The parameters are the error types of the code outside the repository: the
  flash ('f), the network ('n), the HTTP library ('h) and the radio ('i and 'x).
\<close>

datatype ('f, 'n, 'h, 'i, 'x) blind_error =
    ParseCredentials
  | MissingCredentials
  | InvalidEpochDate
  | Wifi_Error "('i, 'x) wifi_error"
  | Nvs_Error "'f nvs_error"
  | Ota_Error "'f ota_error"
  | Ntp_Error "'n ntp_error"
  | Http_Error "'h http_error"
  | Utf8_Error
  | Parse_Int_Error parse_int_error
  | Timeout string
  | Date_Error component_range
  | Other_Error string

text \<open>The conversion of a callback error whose callback fails with an update error.\<close>

fun from_callback_error :: "('h, 'f ota_error) callback_error \<Rightarrow> ('f, 'n, 'h, 'i, 'x) blind_error" where
  "from_callback_error (Callback e) = Ota_Error e"
| "from_callback_error (Outer e) = Http_Error e"

text \<open>A result that touches no state, and a missing value turned into an error.\<close>

definition from_outcome :: "('e \<Rightarrow> 'e2) \<Rightarrow> ('a, 'e) outcome \<Rightarrow> ('s, 'a, 'e2) action" where
  "from_outcome conv r s =
     (case r of Ok a \<Rightarrow> ret a s | Err e \<Rightarrow> fail (conv e) s | Panic \<Rightarrow> panic s)"

definition ok_or :: "'e \<Rightarrow> 'a option \<Rightarrow> ('s, 'a, 'e) action" where
  "ok_or e x = (case x of Some a \<Rightarrow> ret a | None \<Rightarrow> fail e)"

lemma from_outcome_run [action_simps]:
  "from_outcome conv r s = (Ok a, t) \<longleftrightarrow> r = Ok a \<and> t = s"
  "from_outcome conv r s = (Err e, t) \<longleftrightarrow> (\<exists>x. r = Err x \<and> e = conv x) \<and> t = s"
  "from_outcome conv r s = (Panic, t) \<longleftrightarrow> r = Panic \<and> t = s"
  by (auto simp: from_outcome_def ret_def fail_def panic_def split: outcome.splits)

lemma ok_or_run [action_simps]:
  "ok_or e x s = (Ok a, t) \<longleftrightarrow> x = Some a \<and> t = s"
  "ok_or e x s = (Err e', t) \<longleftrightarrow> x = None \<and> e' = e \<and> t = s"
  "ok_or e x s \<noteq> (Panic, t)"
  by (auto simp: ok_or_def ret_def fail_def split: option.splits)

end
