(* ===== verification/Motor.thy ===== *)
theory Motor
  imports Prelude
begin

text \<open>
  The stepper motor task of src/bin/blind.rs (\<open>motor_task\<close>). One command is handled at a
  time: the handler decides whether to skip it, sets the direction and enable pins of the
  TMC driver and toggles the step pin, waiting after each toggle. What the handler does to
  the outside is a list of events in the order the code performs them; the abstract
  specification below reads the travel of the blind and the time it takes off those events.
\<close>

datatype step_command = Forward usize | Backward usize | Raise | Lower

datatype level = Low | High

instantiation level :: linorder
begin

definition less_eq_level :: "level \<Rightarrow> level \<Rightarrow> bool" where
  "less_eq_level a b \<longleftrightarrow> a = Low \<or> b = High"

definition less_level :: "level \<Rightarrow> level \<Rightarrow> bool" where
  "less_level a b \<longleftrightarrow> a = Low \<and> b = High"

instance
proof
  fix x y z :: level
  show "x < y \<longleftrightarrow> x \<le> y \<and> \<not> y \<le> x" "x \<le> x" "x \<le> y \<or> y \<le> x"
    by (cases x; cases y; simp add: less_eq_level_def less_level_def)+
  show "x \<le> y \<Longrightarrow> y \<le> z \<Longrightarrow> x \<le> z" "x \<le> y \<Longrightarrow> y \<le> x \<Longrightarrow> x = y"
    by (cases x; cases y; cases z; simp add: less_eq_level_def)+
qed

end

definition BLIND_HEIGHT :: usize where "BLIND_HEIGHT = 4450"

datatype motor_event = Set_Dir level | Set_En level | Toggle_Step | Wait_Us u64

text \<open>Whether a command is skipped, and the raised flag after it.\<close>

definition skipped :: "bool \<Rightarrow> step_command \<Rightarrow> bool" where
  "skipped raised msg =
     (case (raised, msg) of
        (True, Raise) \<Rightarrow> True
      | (False, Lower) \<Rightarrow> True
      | _ \<Rightarrow> False)"

definition toggle_raised :: "bool \<Rightarrow> step_command \<Rightarrow> bool" where
  "toggle_raised raised msg =
     (case (raised, msg) of
        (False, Raise) \<Rightarrow> \<not> raised
      | (True, Lower) \<Rightarrow> \<not> raised
      | _ \<Rightarrow> raised)"

fun dir_and_steps :: "step_command \<Rightarrow> level \<times> usize" where
  "dir_and_steps (Forward n) = (High, n)"
| "dir_and_steps (Backward n) = (Low, n)"
| "dir_and_steps Raise = (High, BLIND_HEIGHT)"
| "dir_and_steps Lower = (Low, BLIND_HEIGHT)"

definition step_speed :: "usize \<Rightarrow> usize \<Rightarrow> u64" where
  "step_speed n i = (let fast = 1500; slow = 5000 in if i < 100 \<or> i \<ge> n - 100 then slow else fast)"

definition step_events :: "usize \<Rightarrow> motor_event list" where
  "step_events n = concat (map (\<lambda>i. [Toggle_Step, Wait_Us (step_speed n (of_nat i))]) [0..<unat n])"

definition motor_command :: "usize \<Rightarrow> step_command \<Rightarrow> bool \<Rightarrow> bool \<times> motor_event list" where
  "motor_command microsteps msg raised =
     (if skipped raised msg then (raised, [])
      else
        (let raised = toggle_raised raised msg;
             (dir, n) = dir_and_steps msg;
             n = n * microsteps
         in (raised, [Set_Dir dir, Set_En Low] @ step_events n @ [Set_En High])))"

text \<open>The task: it starts raised and handles the commands in the order it receives them.\<close>

fun motor_run :: "usize \<Rightarrow> bool \<Rightarrow> step_command list \<Rightarrow> bool \<times> motor_event list" where
  "motor_run microsteps raised [] = (raised, [])"
| "motor_run microsteps raised (msg # msgs) =
     (let (raised1, es1) = motor_command microsteps msg raised;
          (raised2, es2) = motor_run microsteps raised1 msgs
      in (raised2, es1 @ es2))"

definition motor_task :: "usize \<Rightarrow> step_command list \<Rightarrow> bool \<times> motor_event list" where
  "motor_task microsteps msgs = motor_run microsteps True msgs"

section \<open>The driver seen from outside\<close>

text \<open>
  The pins and the travel of the motor: a toggle while the driver is enabled (its enable pin
  is low) moves the blind by one microstep in the direction of the direction pin.
\<close>

record driver =
  pin_dir :: level
  pin_en :: level
  pin_step :: level
  travel :: int
  elapsed_us :: nat

definition other_level :: "level \<Rightarrow> level" where
  "other_level l = (case l of Low \<Rightarrow> High | High \<Rightarrow> Low)"

definition driver_event :: "motor_event \<Rightarrow> driver \<Rightarrow> driver" where
  "driver_event e p =
     (case e of
        Set_Dir l \<Rightarrow> p\<lparr>pin_dir := l\<rparr>
      | Set_En l \<Rightarrow> p\<lparr>pin_en := l\<rparr>
      | Wait_Us us \<Rightarrow> p\<lparr>elapsed_us := elapsed_us p + unat us\<rparr>
      | Toggle_Step \<Rightarrow>
          p\<lparr>pin_step := other_level (pin_step p),
            travel := (if pin_en p = High then travel p
                       else if pin_dir p = High then travel p + 1 else travel p - 1)\<rparr>)"

definition drive :: "motor_event list \<Rightarrow> driver \<Rightarrow> driver" where
  "drive es p = fold driver_event es p"

text \<open>
  The outputs \<open>main_fallible\<close> creates, by GPIO number, with their levels: step (32), direction (33), enable (25), and the
  two that configure the microsteps (27 and 26). The comment there gives the microsteps for three of the four
  settings of the last two.
\<close>

definition board_outputs :: "(nat \<times> level) list" where
  "board_outputs = [(32, High), (33, High), (25, High), (27, High), (26, Low)]"

definition microsteps_of :: "level \<Rightarrow> level \<Rightarrow> nat option" where
  "microsteps_of ms1 ms2 =
     (case (ms1, ms2) of
        (Low, Low) \<Rightarrow> Some 8
      | (High, Low) \<Rightarrow> Some 2
      | (Low, High) \<Rightarrow> Some 4
      | (High, High) \<Rightarrow> None)"

text \<open>The driver is disabled at first.\<close>

definition driver_init :: driver where
  "driver_init = \<lparr>pin_dir = High, pin_en = High, pin_step = High, travel = 0, elapsed_us = 0\<rparr>"

lemma driver_init_outputs:
  "map_of board_outputs 33 = Some (pin_dir driver_init)" "map_of board_outputs 25 = Some (pin_en driver_init)"
  "map_of board_outputs 32 = Some (pin_step driver_init)"
  by (simp_all add: board_outputs_def driver_init_def)

definition signed_steps :: "level \<Rightarrow> usize \<Rightarrow> int" where
  "signed_steps dir n = (if dir = High then int (unat n) else - int (unat n))"

lemma drive_append [simp]: "drive (xs @ ys) p = drive ys (drive xs p)"
  by (simp add: drive_def)

lemma drive_Nil [simp]: "drive [] p = p"
  by (simp add: drive_def)

lemma other_level_twice [simp]: "other_level (other_level l) = l"
  by (cases l) (simp_all add: other_level_def)

lemma other_level_even: "even k \<Longrightarrow> (other_level ^^ k) l = l"
proof -
  have "(other_level ^^ (2 * j)) l = l" for j
    by (induction j) (simp_all add: numeral_2_eq_2)
  then show "even k \<Longrightarrow> (other_level ^^ k) l = l" by (auto elim: evenE)
qed

section \<open>The speed profile\<close>

text \<open>
  The test against \<open>n - 100\<close> wraps for short moves; the steps it would misjudge are among the
  first hundred, which are slow anyway.
\<close>

definition slow_step :: "nat \<Rightarrow> nat \<Rightarrow> bool" where
  "slow_step n i \<longleftrightarrow> i < 100 \<or> n \<le> i + 100"

lemma unat_of_index: "i < unat (n :: usize) \<Longrightarrow> unat (of_nat i :: usize) = i"
proof -
  assume "i < unat n"
  moreover have "unat n < 2 ^ LENGTH(32)" by (rule unsigned_less)
  ultimately show ?thesis by (simp add: unsigned_of_nat take_bit_nat_eq_self_iff)
qed

lemma step_speed_slow:
  assumes "i < unat n"
  shows "step_speed n (of_nat i) = (if slow_step (unat n) i then 5000 else 1500)"
proof (cases "100 \<le> unat n")
  case True
  then have "unat (n - 100) = unat n - 100" by (simp add: unat_sub word_le_nat_alt)
  with assms True show ?thesis
    by (auto simp: step_speed_def slow_step_def word_less_nat_alt word_le_nat_alt unat_of_index)
next
  case False
  with assms show ?thesis
    by (simp add: step_speed_def slow_step_def word_less_nat_alt unat_of_index)
qed

definition step_wait :: "nat \<Rightarrow> nat \<Rightarrow> nat" where
  "step_wait n i = (if slow_step n i then 5000 else 1500)"

definition move_us :: "nat \<Rightarrow> nat" where
  "move_us n = (\<Sum>i<n. step_wait n i)"

lemma step_wait_speed: "i < unat n \<Longrightarrow> unat (step_speed n (of_nat i)) = step_wait (unat n) i"
  by (simp add: step_speed_slow step_wait_def)

lemma drive_steps_upto:
  assumes "k \<le> unat n" "pin_en p = Low"
  shows "drive (concat (map (\<lambda>i. [Toggle_Step, Wait_Us (step_speed n (of_nat i))]) [0..<k])) p =
    p\<lparr>pin_step := (other_level ^^ k) (pin_step p),
      travel := travel p + (if pin_dir p = High then int k else - int k),
      elapsed_us := elapsed_us p + (\<Sum>i<k. step_wait (unat n) i)\<rparr>"
  using assms(1)
proof (induction k)
  case 0
  then show ?case by simp
next
  case (Suc k)
  then have "unat (step_speed n (of_nat k)) = step_wait (unat n) k" by (simp add: step_wait_speed)
  with Suc assms(2) show ?case by (auto simp: drive_def driver_event_def)
qed

lemma drive_steps:
  assumes "pin_en p = Low"
  shows "drive (step_events n) p =
    p\<lparr>pin_step := (other_level ^^ unat n) (pin_step p), travel := travel p + signed_steps (pin_dir p) n,
      elapsed_us := elapsed_us p + move_us (unat n)\<rparr>"
  using drive_steps_upto [OF order_refl assms] by (simp add: step_events_def signed_steps_def move_us_def)

lemma sum_lessThan_add: "(\<Sum>i<a + b. f i) = (\<Sum>i<a. f i) + (\<Sum>i<b. f (a + i))" for f :: "nat \<Rightarrow> nat"
  by (induction b) simp_all

text \<open>The closed form of the duration.\<close>

lemma move_us_closed: "move_us n = (if n < 200 then n * 5000 else 1000000 + (n - 200) * 1500)"
proof (cases "n < 200")
  case True
  then have "(\<Sum>i<n. step_wait n i) = (\<Sum>i<n. 5000)"
    by (intro sum.cong) (auto simp: step_wait_def slow_step_def)
  with True show ?thesis by (simp add: move_us_def)
next
  case False
  then obtain m where n: "n = m + 200" by (metis le_add_diff_inverse2 not_less)
  have "(\<Sum>i<100 + (m + 100). step_wait n i) = (\<Sum>i<100. step_wait n i) +
      ((\<Sum>i<m. step_wait n (100 + i)) + (\<Sum>i<100. step_wait n (100 + (m + i))))"
    by (simp only: sum_lessThan_add)
  also have "(\<Sum>i<100. step_wait n i) = (\<Sum>i<(100::nat). 5000)"
    by (intro sum.cong) (auto simp: step_wait_def slow_step_def)
  also have "(\<Sum>i<m. step_wait n (100 + i)) = (\<Sum>i<m. 1500)"
    by (intro sum.cong) (auto simp: step_wait_def slow_step_def n)
  also have "(\<Sum>i<100. step_wait n (100 + (m + i))) = (\<Sum>i<(100::nat). 5000)"
    by (intro sum.cong) (auto simp: step_wait_def slow_step_def n)
  finally show ?thesis by (simp add: move_us_def n add.commute)
qed

section \<open>One command\<close>

text \<open>The travel a command asks for in the given state of the flag, and its duration.\<close>

definition command_travel :: "usize \<Rightarrow> bool \<Rightarrow> step_command \<Rightarrow> int" where
  "command_travel microsteps raised msg =
     (if skipped raised msg then 0
      else signed_steps (fst (dir_and_steps msg)) (snd (dir_and_steps msg) * microsteps))"

definition command_us :: "usize \<Rightarrow> bool \<Rightarrow> step_command \<Rightarrow> nat" where
  "command_us microsteps raised msg =
     (if skipped raised msg then 0 else move_us (unat (snd (dir_and_steps msg) * microsteps)))"

lemma drive_move:
  assumes "pin_en p = High"
  shows "drive (([Set_Dir dir, Set_En Low] @ step_events k) @ [Set_En High]) p =
    p\<lparr>pin_dir := dir, pin_step := (other_level ^^ unat k) (pin_step p),
      travel := travel p + signed_steps dir k, elapsed_us := elapsed_us p + move_us (unat k)\<rparr>"
proof -
  let ?p = "p\<lparr>pin_dir := dir, pin_en := Low\<rparr>"
  have on: "drive [Set_Dir dir, Set_En Low] p = ?p" and off: "drive [Set_En High] q = q\<lparr>pin_en := High\<rparr>" for q
    by (simp_all add: drive_def driver_event_def)
  have steps: "drive (step_events k) ?p =
    ?p\<lparr>pin_step := (other_level ^^ unat k) (pin_step ?p), travel := travel ?p + signed_steps (pin_dir ?p) k,
      elapsed_us := elapsed_us ?p + move_us (unat k)\<rparr>"
    by (rule drive_steps) simp
  show ?thesis using assms by (simp only: drive_append on off steps) simp
qed

lemma motor_command_drives:
  assumes "pin_en p = High"
  shows "drive (snd (motor_command m msg raised)) p =
    (if skipped raised msg then p
     else p\<lparr>pin_dir := fst (dir_and_steps msg),
       pin_step := (other_level ^^ unat (snd (dir_and_steps msg) * m)) (pin_step p),
       travel := travel p + command_travel m raised msg,
       elapsed_us := elapsed_us p + command_us m raised msg\<rparr>)"
  using drive_move [OF assms, of "fst (dir_and_steps msg)" "snd (dir_and_steps msg) * m"]
  by (simp add: motor_command_def command_travel_def command_us_def split_beta)

end
