(* ===== verification/Schedule.thy ===== *)
theory Schedule
  imports Blind_Error Motor
begin

text \<open>
  The schedule task of src/bin/blind.rs: once a minute it decides from the clock and the
  sunset of the day whether the blind should be raised or lowered, and sends a command when
  the decision changes. The sunset calculation (the crates sunrise and chrono) is a
  parameter.
\<close>

text \<open>What the task waits for before its first turn: it looks every two seconds whether the clock has been synchronised.\<close>

definition schedule_ready :: "clock \<Rightarrow> bool" where
  "schedule_ready c \<longleftrightarrow> ntp_synchronized c"

lemma schedule_ready_iff [simp]: "schedule_ready c = ntp_synchronized c"
  by (simp add: schedule_ready_def)


record ('c, 'nd, 'sd) solar_api =
  from_ymd_opt :: "int \<Rightarrow> u32 \<Rightarrow> u32 \<Rightarrow> 'nd option"
  sunset_event :: "'c \<Rightarrow> 'nd \<Rightarrow> 'sd"
  sun_hour :: "'sd \<Rightarrow> u32"
  sun_minute :: "'sd \<Rightarrow> u32"
  sun_second :: "'sd \<Rightarrow> u32"

definition calculate_sunset ::
  "('o, 'dt, 'd, 't) time_api \<Rightarrow> ('c, 'nd, 'sd) solar_api \<Rightarrow> 'dt \<Rightarrow> 'c \<Rightarrow>
   ('s, 'dt, ('f, 'n, 'h, 'i, 'x) blind_error) action" where
  "calculate_sunset api sol dt coordinates =
     tryA (ok_or (Other_Error ''Failed to convert time::Date into chrono::NaiveDate'')
            (from_ymd_opt sol (dt_year api dt) (dt_month api dt) (dt_day api dt))) (\<lambda>date.
       let sunset = sunset_event sol coordinates date in
       tryA (ok_or (Date_Error ComponentRange) (replace_hour api (ucast (sun_hour sol sunset)) dt)) (\<lambda>d.
       tryA (ok_or (Date_Error ComponentRange) (replace_minute api (ucast (sun_minute sol sunset)) d)) (\<lambda>d.
       ok_or (Date_Error ComponentRange) (replace_second api (ucast (sun_second sol sunset)) d))))"

text \<open>The variables of the task, and the command it is about to send.\<close>

record 'dt schedule =
  sch_sunset :: "'dt option"
  sch_state :: "step_command option"
  sch_send :: "step_command option"

definition schedule_init :: "'dt schedule" where
  "schedule_init = \<lparr>sch_sunset = None, sch_state = None, sch_send = None\<rparr>"

text \<open>\<open>unwrap\<close> of the raise time, before the loop.\<close>

definition raise_time :: "('o, 'dt, 'd, 't) time_api \<Rightarrow> 't option" where
  "raise_time api = time_from_hms api 12 30 0"

definition choose_action :: "bool option \<Rightarrow> bool \<Rightarrow> step_command option" where
  "choose_action after_sunset after_raise =
     (case (after_sunset, after_raise) of
        (Some True, _) \<Rightarrow> Some Lower
      | (Some False, True) \<Rightarrow> Some Raise
      | (Some False, False) \<Rightarrow> Some Lower
      | (None, _) \<Rightarrow> None)"

text \<open>One turn of the loop at the clock \<open>c\<close>: the sunset of a new day, then the decision, where
  \<open>unreachable!\<close> is a panic.\<close>

definition refresh_sunset ::
  "('o, 'dt, 'd, 't) time_api \<Rightarrow> ('c, 'nd, 'sd) solar_api \<Rightarrow> 'c \<Rightarrow> 'dt \<Rightarrow>
   ('dt schedule, unit, ('f, 'n, 'h, 'i, 'x) blind_error) action" where
  "refresh_sunset api sol coordinates now s =
     (let new_day = (case sch_sunset s of
                       None \<Rightarrow> True
                     | Some sunset \<Rightarrow> dt_date api sunset \<noteq> dt_date api now)
      in if new_day
         then tryA (calculate_sunset api sol now coordinates) (\<lambda>sunset.
           modify (\<lambda>s. s\<lparr>sch_sunset := Some sunset\<rparr>)) s
         else ret () s)"

definition schedule_decide ::
  "('o, 'dt, 'd, 't) time_api \<Rightarrow> 't \<Rightarrow> 'dt \<Rightarrow> 'dt schedule \<Rightarrow> 'dt schedule option" where
  "schedule_decide api raise now s =
     (let time = dt_time api now in
      case choose_action (map_option (\<lambda>v. time_le api (dt_time api v) time) (sch_sunset s)) (time_le api raise time) of
        None \<Rightarrow> None
      | Some action \<Rightarrow>
          Some (if sch_state s \<noteq> Some action
                then s\<lparr>sch_state := Some action, sch_send := Some action\<rparr> else s))"

definition schedule_turn ::
  "('o, 'dt, 'd, 't) time_api \<Rightarrow> ('c, 'nd, 'sd) solar_api \<Rightarrow> 'c \<Rightarrow> 't \<Rightarrow> clock \<Rightarrow>
   ('dt schedule, unit, ('f, 'n, 'h, 'i, 'x) blind_error) action" where
  "schedule_turn api sol coordinates raise c =
     tryA (from_outcome Date_Error (datetime api c)) (\<lambda>now.
     tryA (refresh_sunset api sol coordinates now) (\<lambda>_ s.
     case schedule_decide api raise now s of
       None \<Rightarrow> panic s
     | Some s \<Rightarrow> ret () s))"

text \<open>The task waits for the first synchronisation: \<open>sync i\<close> is the flag at the \<open>i\<close>-th poll.\<close>

partial_function (option) await_ntp_sync :: "(nat \<Rightarrow> bool) \<Rightarrow> nat \<Rightarrow> nat option" where
  "await_ntp_sync sync i = (if sync i then Some i else await_ntp_sync sync (Suc i))"

section \<open>What a turn does\<close>

text \<open>The command the code is meant to choose: the blind is up from the raise time to sunset.\<close>

definition daylight :: "('o, 'dt, 'd, 't) time_api \<Rightarrow> 't \<Rightarrow> 'dt \<Rightarrow> 'dt \<Rightarrow> bool" where
  "daylight api raise sunset now \<longleftrightarrow>
     time_le api raise (dt_time api now) \<and> \<not> time_le api (dt_time api sunset) (dt_time api now)"

lemma choose_action_daylight:
  "choose_action (Some (time_le api (dt_time api sunset) (dt_time api now))) (time_le api raise (dt_time api now)) =
     Some (if daylight api raise sunset now then Raise else Lower)"
  by (auto simp: choose_action_def daylight_def split: bool.splits)

text \<open>The sunset of a day, where the calendar and the calculation give one.\<close>

definition sunset_of ::
  "('o, 'dt, 'd, 't) time_api \<Rightarrow> ('c, 'nd, 'sd) solar_api \<Rightarrow> 'c \<Rightarrow> 'dt \<Rightarrow> 'dt option" where
  "sunset_of api sol coordinates now =
     Option.bind (from_ymd_opt sol (dt_year api now) (dt_month api now) (dt_day api now)) (\<lambda>date.
     let sunset = sunset_event sol coordinates date in
     Option.bind (replace_hour api (ucast (sun_hour sol sunset)) now) (\<lambda>d.
     Option.bind (replace_minute api (ucast (sun_minute sol sunset)) d) (\<lambda>d.
     replace_second api (ucast (sun_second sol sunset)) d)))"

lemma calculate_sunset_cases:
  "calculate_sunset api sol now c s = (r, t) \<Longrightarrow>
     t = s \<and> (case sunset_of api sol c now of Some d \<Rightarrow> r = Ok d | None \<Rightarrow> \<exists>e. r = Err e)"
  by (auto simp: calculate_sunset_def sunset_of_def Let_def tryA_def ok_or_def ret_def fail_def
      split: option.splits bind_splits)

text \<open>A turn that succeeds used a sunset, the cached one of the day or one computed now.\<close>

definition sunset_used ::
  "('o, 'dt, 'd, 't) time_api \<Rightarrow> ('c, 'nd, 'sd) solar_api \<Rightarrow> 'c \<Rightarrow> 'dt \<Rightarrow> 'dt option \<Rightarrow> 'dt \<Rightarrow> bool" where
  "sunset_used api sol coordinates now cached sunset \<longleftrightarrow>
     (if \<exists>v. cached = Some v \<and> dt_date api v = dt_date api now then cached = Some sunset
      else sunset_of api sol coordinates now = Some sunset)"

lemma refresh_sunset_cases:
  fixes r :: "(unit, ('f, 'n, 'h, 'i, 'x) blind_error) outcome"
  assumes "refresh_sunset api sol coords now s = (r, t)"
  shows "(\<exists>sunset. r = Ok () \<and> sunset_used api sol coords now (sch_sunset s) sunset \<and> t = s\<lparr>sch_sunset := Some sunset\<rparr>)
    \<or> (\<exists>e. r = Err e \<and> t = s)"
proof -
  obtain q :: "('a, ('f, 'n, 'h, 'i, 'x) blind_error) outcome" and s1
    where q: "calculate_sunset api sol now coords s = (q, s1)" by (rule prod.exhaust)
  from calculate_sunset_cases [OF this] assms q show ?thesis
    by (cases "sch_sunset s"; cases "sunset_of api sol coords now"; cases s)
      (auto simp: refresh_sunset_def sunset_used_def tryA_def modify_def ret_def split: if_splits)
qed

lemma schedule_decide_run:
  assumes "sch_sunset s = Some sunset" "action = (if daylight api raise sunset now then Raise else Lower)"
  shows "schedule_decide api raise now s =
    Some (s\<lparr>sch_state := Some action, sch_send := (if sch_state s = Some action then sch_send s else Some action)\<rparr>)"
  using assms(1) by (cases s) (simp add: schedule_decide_def choose_action_daylight assms(2))

text \<open>
  The outcomes of a turn. The \<open>unreachable!\<close> arm is unreachable: only the clock's own panic
  remains; and a turn that fails leaves everything as it was.
\<close>

lemma schedule_turn_cases:
  fixes r :: "(unit, ('f, 'n, 'h, 'i, 'x) blind_error) outcome"
  assumes "schedule_turn api sol coords raise c s = (r, t)"
  obtains (turned) now sunset action where "r = Ok ()" "datetime api c = Ok now"
    "sunset_used api sol coords now (sch_sunset s) sunset"
    "action = (if daylight api raise sunset now then Raise else Lower)"
    "t = s\<lparr>sch_sunset := Some sunset, sch_state := Some action,
           sch_send := (if sch_state s = Some action then sch_send s else Some action)\<rparr>"
  | (failed) e where "r = Err e" "t = s"
  | (panicked) "r = Panic" "datetime api c = Panic" "t = s"
proof (cases "datetime api c")
  case (Ok now)
  obtain q :: "(unit, ('f, 'n, 'h, 'i, 'x) blind_error) outcome" and s1
    where q: "refresh_sunset api sol coords now s = (q, s1)" by (rule prod.exhaust)
  with Ok assms have run: "tryA (refresh_sunset api sol coords now) (\<lambda>_ s.
      case schedule_decide api raise now s of None \<Rightarrow> panic s | Some s \<Rightarrow> ret () s) s = (r, t)"
    by (simp add: schedule_turn_def tryA_def from_outcome_def ret_def)
  from refresh_sunset_cases [OF q] show ?thesis
  proof (elim disjE exE conjE)
    fix sunset
    assume v: "q = Ok ()" "sunset_used api sol coords now (sch_sunset s) sunset" "s1 = s\<lparr>sch_sunset := Some sunset\<rparr>"
    let ?a = "if daylight api raise sunset now then Raise else Lower"
    let ?t = "s1\<lparr>sch_state := Some ?a, sch_send := (if sch_state s1 = Some ?a then sch_send s1 else Some ?a)\<rparr>"
    have "sch_sunset s1 = Some sunset" using v(3) by simp
    then have "schedule_decide api raise now s1 = Some ?t" by (rule schedule_decide_run [OF _ refl])
    with run q v(1) have "r = Ok ()" "t = ?t" by (simp_all add: ret_def)
    with Ok v show ?thesis by (intro turned [OF _ _ v(2) refl]) (cases s; simp)+
  next
    fix e assume "q = Err e" "s1 = s"
    with run q show ?thesis by (intro failed [of e]) auto
  qed
next
  case (Err e)
  with assms show ?thesis
    by (intro failed [of "Date_Error e"]) (simp_all add: schedule_turn_def tryA_def from_outcome_def fail_def)
next
  case Panic
  with assms show ?thesis
    by (intro panicked) (simp_all add: schedule_turn_def tryA_def from_outcome_def panic_def)
qed

end
