(* ===== verification/Motor_Properties.thy ===== *)
theory Motor_Properties
  imports Motor
begin

text \<open>
  The properties of the motor task. The firmware's start-up gives the task two microsteps per
  step, so the properties about positions are stated for that value.
\<close>

abbreviation MICROSTEPS :: usize where "MICROSTEPS \<equiv> 2"

text \<open>It is the number of microsteps that the levels of the pins select.\<close>

lemma board_selects_microsteps:
  "\<exists>ms1 ms2. map_of board_outputs 27 = Some ms1 \<and> map_of board_outputs 26 = Some ms2 \<and>
     microsteps_of ms1 ms2 = Some (unat MICROSTEPS)"
  by (simp add: board_outputs_def microsteps_of_def)

text \<open>The full height in microsteps, and what the manual commands of a list ask for.\<close>

abbreviation full_travel :: int where "full_travel \<equiv> 8900"

definition raised_travel :: "bool \<Rightarrow> int" where
  "raised_travel raised = (if raised then 0 else - full_travel)"

fun manual_travel :: "step_command list \<Rightarrow> int" where
  "manual_travel [] = 0"
| "manual_travel (Forward n # msgs) = signed_steps High (n * MICROSTEPS) + manual_travel msgs"
| "manual_travel (Backward n # msgs) = signed_steps Low (n * MICROSTEPS) + manual_travel msgs"
| "manual_travel (_ # msgs) = manual_travel msgs"

text \<open>The raised flag follows the last of the commands that set it.\<close>

fun last_position :: "bool \<Rightarrow> step_command list \<Rightarrow> bool" where
  "last_position raised [] = raised"
| "last_position raised (Raise # msgs) = last_position True msgs"
| "last_position raised (Lower # msgs) = last_position False msgs"
| "last_position raised (_ # msgs) = last_position raised msgs"

definition at_rest :: "driver \<Rightarrow> bool" where
  "at_rest p \<longleftrightarrow> pin_en p = High \<and> pin_step p = High"

lemma even_steps: "even (unat (n * MICROSTEPS))"
proof -
  have "unat (n * MICROSTEPS) = (unat n * 2) mod 2 ^ 32" by (simp add: unat_word_ariths)
  then show ?thesis by (simp add: dvd_mod)
qed

lemma command_travel_position:
  "raised_travel raised + command_travel MICROSTEPS raised msg =
     raised_travel (fst (motor_command MICROSTEPS msg raised)) + manual_travel [msg]"
  by (cases msg; cases raised)
    (simp_all add: raised_travel_def command_travel_def skipped_def signed_steps_def BLIND_HEIGHT_def
      motor_command_def toggle_raised_def)

lemma motor_command_position:
  assumes "at_rest p"
  shows "travel (drive (snd (motor_command MICROSTEPS msg raised)) p) - travel p =
      raised_travel (fst (motor_command MICROSTEPS msg raised)) - raised_travel raised + manual_travel [msg]"
    and "at_rest (drive (snd (motor_command MICROSTEPS msg raised)) p)"
proof -
  have "(other_level ^^ unat (snd (dir_and_steps msg) * MICROSTEPS)) (pin_step p) = pin_step p"
    by (rule other_level_even [OF even_steps])
  with assms show "at_rest (drive (snd (motor_command MICROSTEPS msg raised)) p)"
    by (simp add: at_rest_def motor_command_drives)
  have "travel (drive (snd (motor_command MICROSTEPS msg raised)) p) - travel p =
      command_travel MICROSTEPS raised msg"
    using assms by (simp add: at_rest_def motor_command_drives command_travel_def)
  then show "travel (drive (snd (motor_command MICROSTEPS msg raised)) p) - travel p =
      raised_travel (fst (motor_command MICROSTEPS msg raised)) - raised_travel raised + manual_travel [msg]"
    using command_travel_position [of raised msg] by linarith
qed

lemma manual_travel_Cons: "manual_travel (msg # msgs) = manual_travel [msg] + manual_travel msgs"
  by (cases msg) simp_all

lemma motor_run_position:
  assumes "at_rest p"
  shows "travel (drive (snd (motor_run MICROSTEPS raised msgs)) p) - travel p =
      raised_travel (fst (motor_run MICROSTEPS raised msgs)) - raised_travel raised + manual_travel msgs \<and>
    at_rest (drive (snd (motor_run MICROSTEPS raised msgs)) p)"
  using assms
proof (induction msgs arbitrary: raised p)
  case Nil
  then show ?case by simp
next
  case (Cons msg msgs)
  note step = motor_command_position [OF Cons.prems, of msg raised]
  from Cons.IH [OF step(2), of "fst (motor_command MICROSTEPS msg raised)"] step(1)
  show ?case
    by (simp add: split_beta manual_travel_Cons [of msg msgs])
qed

lemma fst_motor_command:
  "fst (motor_command m msg raised) = last_position raised [msg]"
  by (cases msg; cases raised) (simp_all add: motor_command_def skipped_def toggle_raised_def)

lemma last_position_Cons: "last_position raised (msg # msgs) = last_position (last_position raised [msg]) msgs"
  by (cases msg) simp_all

lemma fst_motor_run: "fst (motor_run m raised msgs) = last_position raised msgs"
  by (induction msgs arbitrary: raised)
    (simp, simp only: motor_run.simps split_beta fst_conv fst_motor_command Let_def last_position_Cons [symmetric])

section \<open>Properties\<close>

text \<open>C19: Whatever commands arrive in whatever order, the blind is never over-wound by raise and
  lower commands: it is either fully raised or exactly one blind height down, as the last of them
  asked for, displaced only by the manual moves; and after each command the driver is disabled
  again with the step pin back at its idle level.\<close>

theorem blind_position:
  "travel (drive (snd (motor_task MICROSTEPS msgs)) driver_init) =
     (if last_position True msgs then 0 else - 8900) + manual_travel msgs \<and>
   fst (motor_task MICROSTEPS msgs) = last_position True msgs \<and>
   pin_en (drive (snd (motor_task MICROSTEPS msgs)) driver_init) = High \<and>
   pin_step (drive (snd (motor_task MICROSTEPS msgs)) driver_init) = High"
proof -
  have "at_rest driver_init" by (simp add: at_rest_def driver_init_def)
  from motor_run_position [OF this, of True msgs] show ?thesis
    by (simp add: motor_task_def fst_motor_run raised_travel_def driver_init_def at_rest_def)
qed

text \<open>A command that is not skipped takes 5 ms for each of the first and the last hundred
  microsteps and 1.5 ms for the others, for every number of microsteps, although the test
  \<open>i >= n - 100\<close> wraps for moves of fewer than a hundred; a full raise or lower takes 14.05 s.\<close>

theorem move_duration:
  assumes "pin_en p = High" "\<not> skipped raised msg" "n = unat (snd (dir_and_steps msg) * microsteps)"
  shows "elapsed_us (drive (snd (motor_command microsteps msg raised)) p) =
    elapsed_us p + (if n < 200 then n * 5000 else 200 * 5000 + (n - 200) * 1500)"
  using assms by (simp add: motor_command_drives command_us_def move_us_closed)

theorem move_duration_witness:
  "elapsed_us (drive (snd (motor_command 2 Lower True)) driver_init) = 14050000 \<and>
   elapsed_us (drive (snd (motor_command 2 (Forward 30) True)) driver_init) = 300000"
  using move_duration [of driver_init True Lower 8900 2] move_duration [of driver_init True "Forward 30" 60 2]
  by (simp add: driver_init_def skipped_def BLIND_HEIGHT_def)

text \<open>A manual move of \<open>n\<close> steps asked for over the web moves \<open>2 * n\<close> microsteps modulo
  2 ^ 32, so a request for 2 ^ 31 steps is accepted and does not move the blind at all.\<close>

theorem manual_move_wraps:
  "(pin_en p = High \<longrightarrow>
     travel (drive (snd (motor_command 2 (Forward n) raised)) p) = travel p + int (2 * unat n mod 2 ^ 32)) \<and>
   drive (snd (motor_command 2 (Forward 0x80000000) raised)) driver_init = driver_init"
proof -
  have "unat (n * 2) = 2 * unat n mod 2 ^ 32" by (simp add: unat_word_ariths mult.commute)
  then show ?thesis
    by (cases raised)
      (simp_all add: motor_command_drives command_travel_def command_us_def skipped_def signed_steps_def
        driver_init_def move_us_def)
qed

theorem manual_move_wraps_witness:
  "travel (drive (snd (motor_command 2 (Forward 30) True)) driver_init) = 60"
  using manual_move_wraps [of driver_init 30 True] by (simp add: driver_init_def)

text \<open>The raised flag does not survive a restart. A task that starts while the blind is
  lowered takes it for raised, and the first lower command drives it one more blind height down.\<close>

theorem restart_lowers_again:
  assumes "pin_en p = High"
  shows "travel (drive (snd (motor_task MICROSTEPS [Lower])) p) = travel p - 8900 \<and>
    travel (drive (snd (motor_task MICROSTEPS [Raise])) p) = travel p"
  using assms
  by (simp add: motor_task_def motor_command_drives split_beta command_travel_def skipped_def
      signed_steps_def BLIND_HEIGHT_def)

theorem restart_lowers_again_witness:
  "travel (drive (snd (motor_task 2 [Lower])) (driver_init\<lparr>travel := - 8900\<rparr>)) = - 17800"
  using restart_lowers_again [of "driver_init\<lparr>travel := - 8900\<rparr>"] by (simp add: driver_init_def)

end
