(* ===== verification/Controller.thy ===== *)
theory Controller
  imports Schedule Motor_Properties
begin

text \<open>
  The running controller of src/bin/blind.rs: the schedule task, the handlers of the web
  application and the motor task, which share one channel of commands. The channel
  (\<open>embassy_sync::channel\<close>, with room for ten commands) is code outside the repository; it is
  a parameter with the contract of a bounded queue. The tasks run interleaved: a step is one
  turn of the schedule, one command sent, one command received, or one pin change or wait of
  the motor task. Commands can so be sent while the motor is moving.
\<close>

section \<open>The channel\<close>

record 'q channel_ops =
  ch_try_send :: "step_command \<Rightarrow> 'q \<Rightarrow> 'q option"
  ch_try_receive :: "'q \<Rightarrow> (step_command \<times> 'q) option"

definition channel_capacity :: nat where "channel_capacity = 10"

definition channel_contract :: "'q channel_ops \<Rightarrow> ('q \<Rightarrow> step_command list) \<Rightarrow> bool" where
  "channel_contract ch contents \<longleftrightarrow>
     (\<forall>c q. case ch_try_send ch c q of
        None \<Rightarrow> channel_capacity \<le> length (contents q)
      | Some q' \<Rightarrow> length (contents q) < channel_capacity \<and> contents q' = contents q @ [c]) \<and>
     (\<forall>q. case ch_try_receive ch q of
        None \<Rightarrow> contents q = []
      | Some (c, q') \<Rightarrow> contents q = c # contents q')"

lemma channel_sendD:
  assumes "channel_contract ch contents" "ch_try_send ch c q = Some q'"
  shows "length (contents q) < channel_capacity \<and> contents q' = contents q @ [c]"
proof -
  from assms(1) have "case ch_try_send ch c q of
      None \<Rightarrow> channel_capacity \<le> length (contents q)
    | Some q' \<Rightarrow> length (contents q) < channel_capacity \<and> contents q' = contents q @ [c]"
    unfolding channel_contract_def by blast
  with assms(2) show ?thesis by simp
qed

lemma channel_fullD:
  assumes "channel_contract ch contents" "ch_try_send ch c q = None"
  shows "channel_capacity \<le> length (contents q)"
proof -
  from assms(1) have "case ch_try_send ch c q of
      None \<Rightarrow> channel_capacity \<le> length (contents q)
    | Some q' \<Rightarrow> length (contents q) < channel_capacity \<and> contents q' = contents q @ [c]"
    unfolding channel_contract_def by blast
  with assms(2) show ?thesis by simp
qed

lemma channel_receiveD:
  assumes "channel_contract ch contents"
  shows "ch_try_receive ch q = Some (c, q') \<Longrightarrow> contents q = c # contents q'"
    and "ch_try_receive ch q = None \<Longrightarrow> contents q = []"
proof -
  from assms have "case ch_try_receive ch q of None \<Rightarrow> contents q = [] | Some (c, q') \<Rightarrow> contents q = c # contents q'"
    unfolding channel_contract_def by blast
  then show "ch_try_receive ch q = Some (c, q') \<Longrightarrow> contents q = c # contents q'"
    "ch_try_receive ch q = None \<Longrightarrow> contents q = []" by simp_all
qed

text \<open>The reference channel is a list.\<close>

definition list_channel :: "step_command list channel_ops" where
  "list_channel =
     \<lparr>ch_try_send = (\<lambda>c q. if length q < channel_capacity then Some (q @ [c]) else None),
      ch_try_receive = (\<lambda>q. case q of [] \<Rightarrow> None | c # q' \<Rightarrow> Some (c, q'))\<rparr>"

lemma list_channel_contract: "channel_contract list_channel id"
  by (auto simp: channel_contract_def list_channel_def split: list.splits)

section \<open>The web application\<close>

text \<open>
  The routes that command the blind, by the segments of the path. The library parses the last
  segment of a manual move; the handler sends the command and answers with a text, in a
  buffer of 64 bytes that is written as far as it has room.
\<close>

definition ascii :: "string \<Rightarrow> bytes" where "ascii = map of_char"

definition web_route :: "(bytes \<Rightarrow> usize option) \<Rightarrow> bytes list \<Rightarrow> (step_command \<times> bytes) option" where
  "web_route parse path =
     (case path of
        [p] \<Rightarrow>
          (if p = ascii ''raise'' then Some (Raise, ascii ''Raise'')
           else if p = ascii ''lower'' then Some (Lower, ascii ''Lower'')
           else None)
      | [p, seg] \<Rightarrow>
          (if p = ascii ''forward'' then
             map_option (\<lambda>n. (Forward n, ascii ''Forward '' @ show_nat (unat n))) (parse seg)
           else if p = ascii ''backward'' then
             map_option (\<lambda>n. (Backward n, ascii ''Backwards '' @ show_nat (unat n))) (parse seg)
           else None)
      | _ \<Rightarrow> None)"

section \<open>Steps\<close>

record ('q, 'dt) controller =
  ct_schedule :: "'dt schedule"
  ct_queue :: 'q
  ct_raised :: bool
  ct_moves :: "motor_event list"
  ct_driver :: driver

text \<open>
  \<open>web\<close> says which commands the web handlers send. A task that sends waits until the channel has
  room; the schedule takes no turn while it waits. What the motor task has still to do for the
  command it received is \<open>ct_moves\<close>; it receives the next one when that is done.
\<close>

inductive task_step ::
  "'q channel_ops \<Rightarrow> (step_command \<Rightarrow> bool) \<Rightarrow> ('q, 'dt) controller \<Rightarrow> ('q, 'dt) controller \<Rightarrow> bool"
  for ch web where
  task_schedule: "sch_send (ct_schedule s) = Some c \<Longrightarrow> ch_try_send ch c (ct_queue s) = Some q \<Longrightarrow>
    task_step ch web s (s\<lparr>ct_queue := q, ct_schedule := (ct_schedule s)\<lparr>sch_send := None\<rparr>\<rparr>)"
| task_web: "web c \<Longrightarrow> ch_try_send ch c (ct_queue s) = Some q \<Longrightarrow> task_step ch web s (s\<lparr>ct_queue := q\<rparr>)"
| task_motor: "ct_moves s = [] \<Longrightarrow> ch_try_receive ch (ct_queue s) = Some (c, q) \<Longrightarrow>
    motor_command MICROSTEPS c (ct_raised s) = (raised, es) \<Longrightarrow>
    task_step ch web s (s\<lparr>ct_queue := q, ct_raised := raised, ct_moves := es\<rparr>)"
| task_pins: "ct_moves s = e # es \<Longrightarrow>
    task_step ch web s (s\<lparr>ct_moves := es, ct_driver := driver_event e (ct_driver s)\<rparr>)"

text \<open>The schedule takes a turn at some clock, or the tasks do their part of what was decided.\<close>

inductive controller_step ::
  "('o, 'dt, 'd, 't) time_api \<Rightarrow> ('c, 'nd, 'sd) solar_api \<Rightarrow> 'c \<Rightarrow> 't \<Rightarrow> 'q channel_ops \<Rightarrow>
   (step_command \<Rightarrow> bool) \<Rightarrow> ('q, 'dt) controller \<Rightarrow> ('q, 'dt) controller \<Rightarrow> bool"
  for api sol coords raise ch web where
  schedule_turns: "sch_send (ct_schedule s) = None \<Longrightarrow>
    schedule_turn api sol coords raise clock (ct_schedule s) =
      (r :: (unit, (unit, unit, unit, unit, unit) blind_error) outcome, sch) \<Longrightarrow>
    controller_step api sol coords raise ch web s (s\<lparr>ct_schedule := sch\<rparr>)"
| tasks_act: "task_step ch web s t \<Longrightarrow> controller_step api sol coords raise ch web s t"

lemmas schedule_sends = tasks_act [OF task_schedule]
  and web_sends = tasks_act [OF task_web]
  and motor_receives = tasks_act [OF task_motor]
  and motor_moves = tasks_act [OF task_pins]

lemma controller_step_cases:
  assumes "controller_step api sol coords raise ch web s t"
  obtains (schedule_turns) clock and r :: "(unit, (unit, unit, unit, unit, unit) blind_error) outcome" and sch
    where "t = s\<lparr>ct_schedule := sch\<rparr>" "sch_send (ct_schedule s) = None"
      "schedule_turn api sol coords raise clock (ct_schedule s) = (r, sch)"
  | (schedule_sends) c q where "t = s\<lparr>ct_queue := q, ct_schedule := (ct_schedule s)\<lparr>sch_send := None\<rparr>\<rparr>"
      "sch_send (ct_schedule s) = Some c" "ch_try_send ch c (ct_queue s) = Some q"
  | (web_sends) c q where "t = s\<lparr>ct_queue := q\<rparr>" "web c" "ch_try_send ch c (ct_queue s) = Some q"
  | (motor_receives) c q raised es where "t = s\<lparr>ct_queue := q, ct_raised := raised, ct_moves := es\<rparr>"
      "ct_moves s = []" "ch_try_receive ch (ct_queue s) = Some (c, q)"
      "motor_command MICROSTEPS c (ct_raised s) = (raised, es)"
  | (motor_moves) e es where "t = s\<lparr>ct_moves := es, ct_driver := driver_event e (ct_driver s)\<rparr>"
      "ct_moves s = e # es"
  using assms by (elim controller_step.cases task_step.cases) blast+

text \<open>At the start the channel is empty and the motor task takes the blind for raised.\<close>

definition controller_init :: "'q \<Rightarrow> ('q, 'dt) controller" where
  "controller_init q =
     \<lparr>ct_schedule = schedule_init, ct_queue = q, ct_raised = True, ct_moves = [], ct_driver = driver_init\<rparr>"

inductive controller_reach ::
  "('o, 'dt, 'd, 't) time_api \<Rightarrow> ('c, 'nd, 'sd) solar_api \<Rightarrow> 'c \<Rightarrow> 't \<Rightarrow> 'q channel_ops \<Rightarrow>
   ('q \<Rightarrow> step_command list) \<Rightarrow> (step_command \<Rightarrow> bool) \<Rightarrow> ('q, 'dt) controller \<Rightarrow> bool"
  for api sol coords raise ch contents web where
  start: "contents q = [] \<Longrightarrow> controller_reach api sol coords raise ch contents web (controller_init q)"
| steps: "controller_reach api sol coords raise ch contents web s \<Longrightarrow>
    controller_step api sol coords raise ch web s t \<Longrightarrow>
    controller_reach api sol coords raise ch contents web t"

end
