(* ===== verification/Credentials.thy ===== *)
theory Credentials
  imports Blind_Error
begin

text \<open>
  The WiFi credentials in the non-volatile store, as the start-up of src/bin/blind.rs saves and
  loads them: credentials compiled into the firmware are saved and used; without them the
  saved ones are loaded, if the store is marked as valid. Strings are their UTF-8 bytes; those compiled in are
  \<open>Option<&str>\<close>.
\<close>

definition ssid_at :: u32 where "ssid_at = MIN_OFFSET"
definition password_at :: u32 where "password_at = MIN_OFFSET + 1 + of_nat SSID_MAX_LEN"

abbreviation nvs_op ::
  "('f nvs, 'a, 'f2 nvs_error) action \<Rightarrow> ('f nvs, 'a, ('f2, 'n, 'h, 'i, 'x) blind_error) action" where
  "nvs_op \<equiv> map_err Nvs_Error"

text \<open>\<open>String::try_from\<close> and \<open>Vec::resize\<close> fail where the capacity is exceeded.\<close>

definition within :: "nat \<Rightarrow> nat \<Rightarrow> ('s, unit, ('f, 'n, 'h, 'i, 'x) blind_error) action" where
  "within capacity n = (if n \<le> capacity then ret () else fail ParseCredentials)"

definition save_credentials ::
  "('f, 'y) flash_ops \<Rightarrow> bytes \<Rightarrow> bytes \<Rightarrow> ('f nvs, unit, ('y, 'n, 'h, 'i, 'x) blind_error) action" where
  "save_credentials d ssid password =
     tryA (nvs_op (set_valid d False)) (\<lambda>_.
     let ssid_len = [of_nat (length ssid)]; password_len = [of_nat (length password)] in
     tryA (nvs_op (nvs_write d ssid_at ssid_len)) (\<lambda>_.
     tryA (nvs_op (nvs_write d (ssid_at + 1) ssid)) (\<lambda>_.
     tryA (nvs_op (nvs_write d password_at password_len)) (\<lambda>_.
     tryA (nvs_op (nvs_write d (password_at + 1) password)) (\<lambda>_.
     nvs_op (set_valid d True))))))"

text \<open>A field is a length byte and as many bytes.\<close>

definition load_field ::
  "('f, 'y) flash_ops \<Rightarrow> u32 \<Rightarrow> nat \<Rightarrow> ('f nvs, bytes, ('y, 'n, 'h, 'i, 'x) blind_error) action" where
  "load_field d at capacity =
     tryA (nvs_op (nvs_read d at 1)) (\<lambda>len.
     let n = unat (hd len) in
     tryA (within capacity n) (\<lambda>_.
     nvs_op (nvs_read d (at + 1) n)))"

definition load_credentials ::
  "('f, 'y) flash_ops \<Rightarrow> ('f nvs, bytes \<times> bytes, ('y, 'n, 'h, 'i, 'x) blind_error) action" where
  "load_credentials d =
     tryA (nvs_op (is_valid d)) (\<lambda>valid.
     if valid then
       tryA (load_field d ssid_at SSID_MAX_LEN) (\<lambda>ssid.
       tryA (load_field d password_at PASSWORD_LEN) (\<lambda>password.
       if \<not> utf8_valid ssid \<or> \<not> utf8_valid password then
         tryA (nvs_op (set_valid d False)) (\<lambda>_. fail ParseCredentials)
       else ret (ssid, password)))
     else fail MissingCredentials)"

definition get_credentials ::
  "('f, 'y) flash_ops \<Rightarrow> bytes option \<Rightarrow> bytes option \<Rightarrow>
   ('f nvs, bytes \<times> bytes, ('y, 'n, 'h, 'i, 'x) blind_error) action" where
  "get_credentials d SSID PASSWORD =
     (case (SSID, PASSWORD) of
        (Some ssid, Some password) \<Rightarrow>
          tryA (within SSID_MAX_LEN (length ssid)) (\<lambda>_.
          tryA (within PASSWORD_LEN (length password)) (\<lambda>_.
          tryA (save_credentials d ssid password) (\<lambda>_. ret (ssid, password))))
      | _ \<Rightarrow> load_credentials d)"

section \<open>The validity mark\<close>

definition mark :: "bool \<Rightarrow> bytes" where
  "mark valid = (if valid then u32_le MAGIC else replicate 4 0)"

definition marked :: "('f \<Rightarrow> memory) \<Rightarrow> 'f nvs \<Rightarrow> bool" where
  "marked view s \<longleftrightarrow> from_le_bytes (peek (nvs_view view s) 0 4) = MAGIC"

lemma length_mark [simp]: "length (mark v) = 4"
  by (simp add: mark_def)

lemma from_mark: "from_le_bytes (mark v) = MAGIC \<longleftrightarrow> v"
proof (cases v)
  case False
  have "replicate 4 (0 :: u8) = [0, 0, 0, 0]" by (simp add: numeral_eq_Suc)
  with False show ?thesis by (simp add: mark_def MAGIC_def)
qed (simp add: mark_def)

lemma set_valid_law:
  assumes "nvs_ok d view good s" "set_valid d v s = (Ok u, t)"
  shows "nvs_ok d view good t \<and> nvs_view view t = poke (nvs_view view s) 0 (mark v)"
proof -
  from assms(2) obtain f where w: "flash_write NvsStorage d (nvs_offset s) (mark v) (nvs_flash s) = (Ok u, f)"
    and t: "t = s\<lparr>nvs_flash := f\<rparr>"
    by (cases v) (auto simp: set_valid_def mark_def zoom_eq)
  from assms(1) have ok: "flash_ok d view good (nvs_flash s)" and off: "unat (nvs_offset s) = 0x9000"
    by (simp_all add: nvs_ok_def NVS_PARTITION_def)
  from fls.wr_law [OF ok TrueI w] off have "flash_ok d view good f" "view f = poke (view (nvs_flash s)) (0x9000 + 0) (mark v)"
    by simp_all
  with assms(1) t show ?thesis by (simp add: nvs_ok_def nvs_view_poke)
qed

lemma set_valid_ok: "nvs_ok d view good s \<Longrightarrow> set_valid d v s = (r, t) \<Longrightarrow> nvs_ok d view good t \<and> r \<noteq> Panic"
  by (auto simp: set_valid_def Let_def zoom_eq nvs_ok_def fls.wr_no_panic dest: fls.wr_invar)

lemma is_valid_law:
  assumes "nvs_ok d view good s" "is_valid d s = (r, t)"
  shows "nvs_ok d view good t \<and> nvs_view view t = nvs_view view s \<and>
    (r = Ok (marked view s) \<or> (\<exists>e. r = Err e))"
proof -
  from assms(1) have ok: "flash_ok d view good (nvs_flash s)" and off: "unat (nvs_offset s) = 0x9000"
    by (simp_all add: nvs_ok_def NVS_PARTITION_def)
  obtain q f where q: "flash_read NvsStorage d (nvs_offset s) 4 (nvs_flash s) = (q, f)" by fastforce
  have f: "flash_ok d view good f" "view f = view (nvs_flash s)"
    using fls.rd_invar [OF ok q] fls.rd_frame [OF ok q] by auto
  have t: "t = s\<lparr>nvs_flash := f\<rparr>" and r: "case q of Ok bs \<Rightarrow> r = Ok (MAGIC = from_le_bytes bs) | Err e \<Rightarrow> r = Err e | Panic \<Rightarrow> False"
    using assms(2) q by (auto simp: is_valid_def tryA_def zoom_def ret_def fls.rd_no_panic split: outcome.splits)
  have "r = Ok (marked view s) \<or> (\<exists>e. r = Err e)"
  proof (cases q)
    case (Ok bs)
    with q have "flash_read NvsStorage d (nvs_offset s) 4 (nvs_flash s) = (Ok bs, f)" by simp
    from fls.rd_value [OF ok TrueI this] off have "bs = peek (view (nvs_flash s)) 0x9000 4" by simp
    with Ok r show ?thesis by (auto simp: marked_def peek_nvs_view)
  qed (use r in auto)
  with assms(1) f t show ?thesis by (simp add: nvs_ok_def nvs_view_def)
qed

text \<open>Writes through the window never touch the mark.\<close>

lemma nvs_write_marked:
  assumes "nvs_ok d view good s" "nvs_fits off (length bs)" "nvs_write d off bs s = (Ok u, t)"
  shows "nvs_ok d view good t \<and> marked view t = marked view s"
proof -
  have "4 \<le> unat off"
    using assms by (cases rule: nvs_write_cases [OF assms(1,2)]) auto
  with nv.wr_law [OF assms] show ?thesis
    by (simp add: marked_def peek_poke_other)
qed

section \<open>Saving\<close>

lemma field_addresses [simp]:
  "unat ssid_at = 4" "unat (ssid_at + 1) = 5" "unat password_at = 37" "unat (password_at + 1) = 38"
  by (simp_all add: ssid_at_def password_at_def MIN_OFFSET_def SSID_MAX_LEN_def)

definition storable :: "bytes \<Rightarrow> bytes \<Rightarrow> bool" where
  "storable ssid password \<longleftrightarrow> length ssid \<le> 32 \<and> length password \<le> 64"

text \<open>The store as a successful save leaves it.\<close>

definition holds_field :: "memory \<Rightarrow> nat \<Rightarrow> bytes \<Rightarrow> bool" where
  "holds_field m at x \<longleftrightarrow> peek m at 1 = [of_nat (length x)] \<and> peek m (at + 1) (length x) = x"

definition saved_view :: "memory \<Rightarrow> bytes \<Rightarrow> bytes \<Rightarrow> memory" where
  "saved_view m ssid password =
     poke (poke (poke (poke (poke (poke m 0 (mark False)) 4 [of_nat (length ssid)]) 5 ssid)
       37 [of_nat (length password)]) 38 password) 0 (mark True)"

lemma saved_view_holds:
  assumes "storable ssid password"
  shows "holds_field (saved_view m ssid password) 4 ssid" "holds_field (saved_view m ssid password) 37 password"
    and "peek (saved_view m ssid password) 0 4 = mark True"
  using assms by (simp_all add: storable_def holds_field_def saved_view_def peek_poke_other)

lemma save_credentials_law:
  assumes "nvs_ok d view good s" "storable ssid password" "save_credentials d ssid password s = (Ok u, t)"
  shows "nvs_ok d view good t \<and> nvs_view view t = saved_view (nvs_view view s) ssid password"
proof -
  from assms(3) obtain u0 s0 u1 s1 u2 s2 u3 s3 u4 s4 where
    w: "set_valid d False s = (Ok u0, s0)" "nvs_write d ssid_at [of_nat (length ssid)] s0 = (Ok u1, s1)"
      "nvs_write d (ssid_at + 1) ssid s1 = (Ok u2, s2)"
      "nvs_write d password_at [of_nat (length password)] s2 = (Ok u3, s3)"
      "nvs_write d (password_at + 1) password s3 = (Ok u4, s4)" "set_valid d True s4 = (Ok u, t)"
    by (auto simp: save_credentials_def Let_def action_simps)
  have fits: "nvs_fits ssid_at (length [of_nat (length ssid) :: u8])" "nvs_fits (ssid_at + 1) (length ssid)"
    "nvs_fits password_at (length [of_nat (length password) :: u8])" "nvs_fits (password_at + 1) (length password)"
    using assms(2) by (simp_all add: nvs_fits_def storable_def)
  note v0 = set_valid_law [OF assms(1) w(1)]
  note v1 = nv.wr_law [OF conjunct1 [OF v0] fits(1) w(2)]
  note v2 = nv.wr_law [OF conjunct1 [OF v1] fits(2) w(3)]
  note v3 = nv.wr_law [OF conjunct1 [OF v2] fits(3) w(4)]
  note v4 = nv.wr_law [OF conjunct1 [OF v3] fits(4) w(5)]
  from set_valid_law [OF conjunct1 [OF v4] w(6)] v0 v1 v2 v3 v4 show ?thesis
    by (simp add: saved_view_def)
qed

section \<open>Loading\<close>

lemma load_field_law:
  fixes r :: "(bytes, ('y, 'n, 'h, 'i, 'x) blind_error) outcome"
  assumes "nvs_ok d view good s" "holds_field (nvs_view view s) (unat at) x" "length x \<le> capacity" "capacity \<le> 64"
    and "unat (at + 1) = unat at + 1" "unat at < 100" "load_field d at capacity s = (r, t)"
  shows "nvs_ok d view good t \<and> nvs_view view t = nvs_view view s \<and> (r = Ok x \<or> (\<exists>e. r = Err (Nvs_Error e)))"
proof -
  obtain q s1 where q: "nvs_read d at 1 s = (q, s1)" by fastforce
  have s1: "nvs_ok d view good s1" "nvs_view view s1 = nvs_view view s"
    using nv.rd_invar [OF assms(1) q] nv.rd_frame [OF assms(1) q] by auto
  show ?thesis
  proof (cases q)
    case (Ok len)
    have "nvs_fits at 1" using assms(6) by (simp add: nvs_fits_def)
    with nv.rd_value [OF assms(1) this] q Ok assms(2) have "len = [of_nat (length x)]"
      by (simp add: holds_field_def)
    moreover have "unat (of_nat (length x) :: u8) = length x"
      using assms(3,4) by (simp add: unsigned_of_nat take_bit_nat_eq_self_iff)
    ultimately have n: "unat (hd len) = length x" by simp
    obtain p s2 where p: "nvs_read d (at + 1) (length x) s1 = (p, s2)" by fastforce
    have s2: "nvs_ok d view good s2" "nvs_view view s2 = nvs_view view s1"
      using nv.rd_invar [OF s1(1) p] nv.rd_frame [OF s1(1) p] by auto
    have "nvs_fits (at + 1) (length x)" using assms(3-6) by (simp add: nvs_fits_def)
    from nv.rd_value [OF s1(1) this] p have "p = Ok bs \<Longrightarrow> bs = x" for bs
      using assms(2,5) s1(2) by (simp add: holds_field_def)
    moreover have "p \<noteq> Panic" using nv.rd_no_panic p by blast
    ultimately show ?thesis
      using assms(3,7) q Ok n p s1 s2
      by (cases p) (auto simp: load_field_def tryA_def map_err_def within_def ret_def)
  next
    case (Err e)
    with q assms(7) s1 show ?thesis by (auto simp: load_field_def tryA_def map_err_def)
  next
    case Panic
    with q nv.rd_no_panic show ?thesis by blast
  qed
qed

text \<open>Loading from a store that holds two fields, whatever their bytes.\<close>

definition holds_credentials :: "memory \<Rightarrow> bytes \<Rightarrow> bytes \<Rightarrow> bool" where
  "holds_credentials m ssid password \<longleftrightarrow>
     storable ssid password \<and> holds_field m 4 ssid \<and> holds_field m 37 password"

lemma load_credentials_unmarked:
  fixes r :: "(bytes \<times> bytes, ('y, 'n, 'h, 'i, 'x) blind_error) outcome"
  assumes "nvs_ok d view good s" "\<not> marked view s" "load_credentials d s = (r, t)"
  shows "r = Err MissingCredentials \<or> (\<exists>e. r = Err (Nvs_Error e))"
proof -
  obtain q s1 where q: "is_valid d s = (q, s1)" by fastforce
  with is_valid_law [OF assms(1) q] assms(2,3) show ?thesis
    by (auto simp: load_credentials_def tryA_def map_err_def fail_def)
qed

lemma load_credentials_law:
  fixes r :: "(bytes \<times> bytes, ('y, 'n, 'h, 'i, 'x) blind_error) outcome"
  assumes "nvs_ok d view good s" "marked view s" "holds_credentials (nvs_view view s) ssid password"
    and "load_credentials d s = (r, t)"
  obtains (store_error) e where "r = Err (Nvs_Error e)"
  | (loaded) "utf8_valid ssid" "utf8_valid password" "r = Ok (ssid, password)" "nvs_view view t = nvs_view view s"
  | (rejected) "\<not> utf8_valid ssid \<or> \<not> utf8_valid password" "r = Err ParseCredentials" "\<not> marked view t"
proof -
  obtain q s1 where q: "is_valid d s = (q, s1)" by fastforce
  note s1 = is_valid_law [OF assms(1) q]
  show ?thesis
  proof (cases "q = Ok True")
    case False
    with s1 assms(2) obtain e where "q = Err e" by auto
    with q assms(4) show ?thesis by (intro store_error [of e]) (simp add: load_credentials_def tryA_def map_err_def)
  next
    case True
    have fields: "holds_field (nvs_view view s) 4 ssid" "holds_field (nvs_view view s) 37 password"
      "length ssid \<le> 32" "length password \<le> 64"
      using assms(3) by (simp_all add: holds_credentials_def storable_def)
    obtain p :: "(bytes, ('y, 'n, 'h, 'i, 'x) blind_error) outcome" and s2 where
      p: "load_field d ssid_at SSID_MAX_LEN s1 = (p, s2)" by fastforce
    have s2: "nvs_ok d view good s2 \<and> nvs_view view s2 = nvs_view view s1 \<and> (p = Ok ssid \<or> (\<exists>e. p = Err (Nvs_Error e)))"
      by (rule load_field_law [OF _ _ _ _ _ _ p]) (use s1 fields in \<open>simp_all add: SSID_MAX_LEN_def\<close>)
    show ?thesis
    proof (cases "p = Ok ssid")
      case False
      with s2 obtain e where "p = Err (Nvs_Error e)" by auto
      with q True p assms(4) show ?thesis
        by (intro store_error [of e]) (simp add: load_credentials_def tryA_def map_err_def)
    next
      case pOk: True
      obtain o' :: "(bytes, ('y, 'n, 'h, 'i, 'x) blind_error) outcome" and s3 where
        o': "load_field d password_at PASSWORD_LEN s2 = (o', s3)" by fastforce
      have s3: "nvs_ok d view good s3 \<and> nvs_view view s3 = nvs_view view s2 \<and>
          (o' = Ok password \<or> (\<exists>e. o' = Err (Nvs_Error e)))"
        by (rule load_field_law [OF _ _ _ _ _ _ o']) (use s1 s2 fields in \<open>simp_all add: PASSWORD_LEN_def\<close>)
      show ?thesis
      proof (cases "o' = Ok password")
        case False
        with s3 obtain e where "o' = Err (Nvs_Error e)" by auto
        with q True p pOk o' assms(4) show ?thesis
          by (intro store_error [of e]) (simp add: load_credentials_def tryA_def map_err_def)
      next
        case oOk: True
        show ?thesis
        proof (cases "utf8_valid ssid \<and> utf8_valid password")
          case valid: True
          with q True p pOk o' oOk assms(4) s1 s2 s3 show ?thesis
            by (intro loaded) (auto simp: load_credentials_def tryA_def map_err_def ret_def)
        next
          case invalid: False
          obtain v s4 where v: "set_valid d False s3 = (v, s4)" by fastforce
          show ?thesis
          proof (cases v)
            case (Ok u)
            have m: "\<not> marked view s4"
              using set_valid_law [OF conjunct1 [OF s3] v [unfolded Ok]] from_mark [of False]
              by (simp add: marked_def)
            have "(r, t) = (Err ParseCredentials, s4)"
              using invalid q True p pOk o' oOk assms(4) v Ok
              by (simp add: load_credentials_def tryA_def map_err_def fail_def)
            with invalid m show ?thesis by (intro rejected) auto
          next
            case (Err e)
            with invalid q True p pOk o' oOk assms(4) v show ?thesis
              by (intro store_error [of e]) (simp add: load_credentials_def tryA_def map_err_def)
          next
            case Panic
            with set_valid_ok [OF conjunct1 [OF s3] v] show ?thesis by simp
          qed
        qed
      qed
    qed
  qed
qed

section \<open>An interrupted save\<close>

text \<open>The writes of a save, one after the other, and the first \<open>k\<close> of them.\<close>

definition save_steps ::
  "('f, 'y) flash_ops \<Rightarrow> bytes \<Rightarrow> bytes \<Rightarrow> ('f nvs, unit, 'y nvs_error) action list" where
  "save_steps d ssid password =
     [set_valid d False,
      nvs_write d ssid_at [of_nat (length ssid)],
      nvs_write d (ssid_at + 1) ssid,
      nvs_write d password_at [of_nat (length password)],
      nvs_write d (password_at + 1) password,
      set_valid d True]"

fun run_steps :: "('s, unit, 'e) action list \<Rightarrow> ('s, unit, 'e) action" where
  "run_steps [] = ret ()"
| "run_steps (m # ms) = tryA m (\<lambda>_. run_steps ms)"

lemma tryA_right_ret: "tryA m ret = m"
  by (simp add: fun_eq_iff tryA_def ret_def split: prod.splits outcome.splits)

lemma map_err_tryA: "map_err f (tryA m k) = tryA (map_err f m) (\<lambda>a. map_err f (k a))"
  by (simp add: fun_eq_iff tryA_def map_err_def split: prod.splits outcome.splits)

lemma map_err_ret: "map_err f (ret a) = ret a"
  by (simp add: fun_eq_iff map_err_def ret_def)

lemma save_credentials_steps:
  "save_credentials d ssid password = map_err Nvs_Error (run_steps (save_steps d ssid password))"
  by (simp add: save_credentials_def save_steps_def map_err_tryA map_err_ret tryA_right_ret Let_def)

lemma run_writes_marked:
  assumes "nvs_ok d view good s" "\<not> marked view s" "run_steps ms s = (Ok (), t)"
    and "\<forall>m \<in> set ms. \<exists>off bs. m = nvs_write d off bs \<and> nvs_fits off (length bs)"
  shows "nvs_ok d view good t \<and> \<not> marked view t"
  using assms
proof (induction ms arbitrary: s)
  case Nil
  then show ?case by (simp add: ret_def)
next
  case (Cons m ms)
  obtain off bs where m: "m = nvs_write d off bs" "nvs_fits off (length bs)" using Cons.prems(4) by auto
  obtain u s1 where s1: "nvs_write d off bs s = (Ok u, s1)" "run_steps ms s1 = (Ok (), t)"
    using Cons.prems(3) m(1) by (auto simp: action_simps)
  from nvs_write_marked [OF Cons.prems(1) m(2) s1(1)] Cons.prems(2,4) s1(2) show ?case
    by (intro Cons.IH) auto
qed

lemma interrupted_save_unmarked:
  assumes "nvs_ok d view good s" "storable ssid password" "0 < k" "k < 6"
    and "run_steps (take k (save_steps d ssid password)) s = (Ok (), t)"
  shows "nvs_ok d view good t \<and> \<not> marked view t"
proof -
  obtain j where k: "k = Suc j" "j < 5" using assms(3,4) by (cases k) auto
  let ?ws = "tl (save_steps d ssid password)"
  from assms(5) k obtain s1 where s1: "set_valid d False s = (Ok (), s1)" "run_steps (take j ?ws) s1 = (Ok (), t)"
    by (auto simp: save_steps_def action_simps)
  have "nvs_ok d view good s1" "\<not> marked view s1"
    using set_valid_law [OF assms(1) s1(1)] from_mark [of False] by (simp_all add: marked_def)
  moreover have "\<forall>m \<in> set (take j ?ws). \<exists>off bs. m = nvs_write d off bs \<and> nvs_fits off (length bs)"
  proof -
    have "set (take j ?ws) \<subseteq> set (take 4 ?ws)"
      using k(2) by (intro set_take_subset_set_take) simp
    moreover have "\<forall>m \<in> set (take 4 ?ws). \<exists>off bs. m = nvs_write d off bs \<and> nvs_fits off (length bs)"
    proof -
      have four: "set (take 4 ?ws) = {nvs_write d ssid_at [of_nat (length ssid)], nvs_write d (ssid_at + 1) ssid,
          nvs_write d password_at [of_nat (length password)], nvs_write d (password_at + 1) password}"
        by (simp add: save_steps_def)
      have "nvs_fits ssid_at (length [of_nat (length ssid) :: u8])" "nvs_fits (ssid_at + 1) (length ssid)"
        "nvs_fits password_at (length [of_nat (length password) :: u8])" "nvs_fits (password_at + 1) (length password)"
        using assms(2) by (simp_all add: nvs_fits_def storable_def)
      then show ?thesis unfolding four by blast
    qed
    ultimately show ?thesis by blast
  qed
  ultimately show ?thesis using run_writes_marked s1(2) by blast
qed

section \<open>Confinement\<close>

text \<open>
  An action that touches the flash inside the NVS partition only, whatever its outcome. The
  property is closed under the sequencing of actions.
\<close>

named_theorems nvs_confined_intros "how confined actions are put together"

definition nvs_confined ::
  "('f, 'y) flash_ops \<Rightarrow> ('f \<Rightarrow> memory) \<Rightarrow> ('f \<Rightarrow> bool) \<Rightarrow> ('f nvs, 'a, 'e) action \<Rightarrow> bool" where
  "nvs_confined d view good m \<longleftrightarrow>
     (\<forall>s r t. nvs_ok d view good s \<longrightarrow> m s = (r, t) \<longrightarrow> nvs_ok d view good t \<and>
       (\<forall>x. \<not> in_partition NVS_PARTITION x \<longrightarrow> view (nvs_flash t) x = view (nvs_flash s) x))"

lemma nvs_confinedD:
  assumes "nvs_confined d view good m" "nvs_ok d view good s" "m s = (r, t)"
  shows "nvs_ok d view good t" "\<not> in_partition NVS_PARTITION x \<Longrightarrow> view (nvs_flash t) x = view (nvs_flash s) x"
  using assms unfolding nvs_confined_def by blast+

lemma nvs_confined_ret [nvs_confined_intros]: "nvs_confined d view good (ret a)"
  by (simp add: nvs_confined_def ret_def)

lemma nvs_confined_fail [nvs_confined_intros]: "nvs_confined d view good (fail e)"
  by (simp add: nvs_confined_def fail_def)

lemma nvs_confined_within [nvs_confined_intros]: "nvs_confined d view good (within capacity n)"
  by (simp add: within_def nvs_confined_ret nvs_confined_fail)

lemma nvs_confined_map_err [nvs_confined_intros]:
  "nvs_confined d view good m \<Longrightarrow> nvs_confined d view good (map_err conv m)"
  unfolding nvs_confined_def map_err_def by (auto split: prod.splits outcome.splits)

lemma nvs_confined_tryA [nvs_confined_intros]:
  assumes m: "nvs_confined d view good m"
    and k: "\<And>a s t. m s = (Ok a, t) \<Longrightarrow> nvs_confined d view good (k a)"
  shows "nvs_confined d view good (tryA m k)"
  unfolding nvs_confined_def
proof (intro allI impI)
  fix s r t
  assume ok: "nvs_ok d view good s" and run: "tryA m k s = (r, t)"
  obtain q u where u: "m s = (q, u)" by (rule prod.exhaust)
  note mu = nvs_confinedD [OF m ok u]
  show "nvs_ok d view good t \<and>
      (\<forall>x. \<not> in_partition NVS_PARTITION x \<longrightarrow> view (nvs_flash t) x = view (nvs_flash s) x)"
  proof (cases q)
    case (Ok a)
    with run u have "k a u = (r, t)" by simp
    from nvs_confinedD [OF k mu(1) this] u Ok mu(2) show ?thesis by auto
  qed (use run u mu in auto)
qed

lemma flash_write_nvs_frame:
  assumes "flash_ok d view good f" "flash_write conv d off bs f = (r, f')"
    and "0x9000 \<le> unat off" "unat off + length bs \<le> 0xd000" "\<not> in_partition NVS_PARTITION x"
  shows "view f' x = view f x"
  using fls.wr_region_frame [OF assms(1,2) TrueI, of "0x9000" "0xd000" x] assms(3-5) by auto

lemma nvs_confined_set_valid [nvs_confined_intros]: "nvs_confined d view good (set_valid d v)"
  unfolding nvs_confined_def
proof (intro allI impI)
  fix s r t
  assume ok: "nvs_ok d view good s" and run: "set_valid d v s = (r, t)"
  then obtain f where w: "flash_write NvsStorage d (nvs_offset s) (mark v) (nvs_flash s) = (r, f)"
    and t: "t = s\<lparr>nvs_flash := f\<rparr>"
    by (cases v) (auto simp: set_valid_def mark_def zoom_eq)
  have "flash_ok d view good (nvs_flash s)" using ok by (simp add: nvs_ok_def)
  then have "view f x = view (nvs_flash s) x" if "\<not> in_partition NVS_PARTITION x" for x
    by (rule flash_write_nvs_frame [OF _ w _ _ that])
      (use ok in \<open>simp_all add: nvs_ok_def NVS_PARTITION_def\<close>)
  then show "nvs_ok d view good t \<and>
      (\<forall>x. \<not> in_partition NVS_PARTITION x \<longrightarrow> view (nvs_flash t) x = view (nvs_flash s) x)"
    using t set_valid_ok [OF ok run] by simp
qed

lemma nvs_confined_reads [nvs_confined_intros]:
  "nvs_confined d view good (is_valid d)" "nvs_confined d view good (nvs_read d off n)"
proof -
  have view: "view (nvs_flash t) = view (nvs_flash s)"
    if "nvs_ok d view good s" "flash_read NvsStorage d a n (nvs_flash s) = (q, f)" "t = s\<lparr>nvs_flash := f\<rparr>"
    for s t q f a n
  proof -
    have "flash_ok d view good (nvs_flash s)" using that(1) by (simp add: nvs_ok_def)
    from fls.rd_frame [OF this that(2)] that(3) show ?thesis by simp
  qed
  show "nvs_confined d view good (nvs_read d off n)"
    unfolding nvs_confined_def using nv.rd_invar nvs_read_run(1) view by metis
  show "nvs_confined d view good (is_valid d)"
    unfolding nvs_confined_def
  proof (intro allI impI)
    fix s r t
    assume ok: "nvs_ok d view good s" and run: "is_valid d s = (r, t)"
    obtain q f where q: "flash_read NvsStorage d (nvs_offset s) 4 (nvs_flash s) = (q, f)" by (rule prod.exhaust)
    with run have "t = s\<lparr>nvs_flash := f\<rparr>"
      by (auto simp: is_valid_def tryA_def zoom_def ret_def split: outcome.splits)
    with view [OF ok q] is_valid_law [OF ok run]
    show "nvs_ok d view good t \<and>
        (\<forall>x. \<not> in_partition NVS_PARTITION x \<longrightarrow> view (nvs_flash t) x = view (nvs_flash s) x)" by simp
  qed
qed

lemma nvs_confined_write [nvs_confined_intros]:
  assumes "nvs_fits off (length bs)"
  shows "nvs_confined d view good (nvs_write d off bs)"
  unfolding nvs_confined_def
proof (intro allI impI)
  fix s r t
  assume ok: "nvs_ok d view good s" and run: "nvs_write d off bs s = (r, t)"
  from ok assms have "\<not> in_partition NVS_PARTITION x \<Longrightarrow> view (nvs_flash t) x = view (nvs_flash s) x" for x
  proof (cases rule: nvs_write_cases)
    case (access q f)
    have "flash_ok d view good (nvs_flash s)" using ok by (simp add: nvs_ok_def)
    from flash_write_nvs_frame [OF this access(4), of x] access(1-3,5) run
    show "\<not> in_partition NVS_PARTITION x \<Longrightarrow> view (nvs_flash t) x = view (nvs_flash s) x" by simp
  qed (use run in simp)
  with nv.wr_invar [OF ok run] show "nvs_ok d view good t \<and>
      (\<forall>x. \<not> in_partition NVS_PARTITION x \<longrightarrow> view (nvs_flash t) x = view (nvs_flash s) x)" by blast
qed

lemma within_Ok: "within capacity n s = (Ok u, t) \<Longrightarrow> n \<le> capacity"
  by (simp add: within_def ret_def fail_def split: if_splits)

lemma nvs_confined_get_credentials: "nvs_confined d view good (get_credentials d SSID PASSWORD)"
proof -
  have save: "nvs_confined d view good (save_credentials d ssid password)"
    if "length ssid \<le> 32" "length password \<le> 64" for ssid password
    using that unfolding save_credentials_def Let_def
    by (intro nvs_confined_intros) (simp_all add: nvs_fits_def)
  have load: "nvs_confined d view good (load_credentials d)"
    unfolding load_credentials_def load_field_def Let_def
    by (auto intro!: nvs_confined_intros)
  show ?thesis
    unfolding get_credentials_def
    by (auto intro!: nvs_confined_intros save load dest!: within_Ok
        simp: SSID_MAX_LEN_def PASSWORD_LEN_def split: option.split)
qed

end
