(* ===== verification/Ntp_Task.thy ===== *)
theory Ntp_Task
  imports Blind_Error
begin

text \<open>
  The NTP task of src/bin/blind.rs (\<open>ntp_task\<close>): once an hour it synchronises the clock and
  moves its UTC offset between winter and summer time. The variables of the task are whether
  its first request is still to come, and the network and clock its requests work on.
\<close>

record 'w ntp_task =
  nt_first_run :: bool
  nt_ntp :: "'w ntp_state"

text \<open>The task starts with \<open>!system_time.configured()\<close>.\<close>

definition ntp_task_init :: "'w ntp_state \<Rightarrow> 'w ntp_task" where
  "ntp_task_init s = \<lparr>nt_first_run = \<not> configured (clk s), nt_ntp = s\<rparr>"

text \<open>The two changes of the year: 01:00 on the last Sunday of March, 02:00 on that of October.\<close>

definition dst_limits :: "('o, 'dt, 'd, 't) time_api \<Rightarrow> int \<Rightarrow> ('dt \<times> 'dt) option" where
  "dst_limits api year =
     Option.bind (from_calendar_date api year 4 1) (\<lambda>april.
     Option.bind (from_calendar_date api year 11 1) (\<lambda>november.
     let forward = nth_prev_occurrence api april Sunday 1;
         backward = nth_prev_occurrence api november Sunday 1 in
     Option.bind (time_from_hms api 1 0 0) (\<lambda>one.
     Option.bind (time_from_hms api 2 0 0) (\<lambda>two.
     Some (new_utc api forward one, new_utc api backward two)))))"

text \<open>The change of offset, if any; no result where the summer offset cannot be built.\<close>

definition dst_change :: "('o, 'dt, 'd, 't) time_api \<Rightarrow> 'dt \<Rightarrow> 'dt \<times> 'dt \<Rightarrow> 'o \<Rightarrow> 'o option option" where
  "dst_change api now limits current =
     (let (forward, backward) = limits in
      if is_positive api current \<and> dt_ge api now backward then Some (Some (utc_offset api))
      else if is_utc api current \<and> dt_ge api now forward then map_option Some (offset_from_hms api 1 0 0)
      else Some None)"

abbreviation on_ntp :: "('w ntp_state, 'a, 'e) process \<Rightarrow> ('w ntp_task, 'a, 'e) process" where
  "on_ntp \<equiv> zoomP nt_ntp (\<lambda>n s. s\<lparr>nt_ntp := n\<rparr>)"

definition apply_change :: "('o, 'dt, 'd, 't) time_api \<Rightarrow> 'o option \<Rightarrow> clock \<Rightarrow> clock" where
  "apply_change api change c =
     set_ntp_synchronized True (case change of Some o' \<Rightarrow> set_offset api o' c | None \<Rightarrow> c)"

text \<open>One turn of the loop, which never ends if the time server never answers.\<close>

definition ntp_task_turn ::
  "('o, 'dt, 'd, 't) time_api \<Rightarrow> bool \<Rightarrow> ('w, 'n) ntp_net \<Rightarrow> ntp_client \<Rightarrow>
   ('w ntp_task, unit, ('f, 'n, 'h, 'i, 'x) blind_error) process" where
  "ntp_task_turn api debug_on nw client =
     tryP (\<lambda>s. on_ntp (errP Ntp_Error (ntp_request api debug_on nw client (\<not> nt_first_run s))) s) (\<lambda>_. returning (
     tryA (modify (\<lambda>s. s\<lparr>nt_first_run := False\<rparr>)) (\<lambda>_.
     tryA (\<lambda>s. from_outcome Date_Error (datetime api (clk (nt_ntp s))) s) (\<lambda>now.
     tryA (ok_or (Date_Error ComponentRange) (dst_limits api (dt_year api now))) (\<lambda>limits.
     tryA (\<lambda>s. from_outcome Date_Error (offset api (clk (nt_ntp s))) s) (\<lambda>current.
     tryA (ok_or (Date_Error ComponentRange) (dst_change api now limits current)) (\<lambda>change.
     modify (\<lambda>s. s\<lparr>nt_ntp := (nt_ntp s)\<lparr>clk := apply_change api change (clk (nt_ntp s))\<rparr>\<rparr>))))))))"

section \<open>What a turn does\<close>

lemma ntp_task_turn_Ok:
  assumes "ntp_task_turn api debug_on nw client s = Some (Ok u, t)"
  obtains r n now limits current change where
    "ntp_request api debug_on nw client (\<not> nt_first_run s) (nt_ntp s) = Some (Ok r, n)"
    "datetime api (clk n) = Ok now" "dst_limits api (dt_year api now) = Some limits"
    "offset api (clk n) = Ok current" "dst_change api now limits current = Some change"
    "t = \<lparr>nt_first_run = False, nt_ntp = n\<lparr>clk := apply_change api change (clk n)\<rparr>\<rparr>"
  using assms
  by (cases s) (auto simp: ntp_task_turn_def tryP_Ok zoomP_iff errP_Ok returning_iff action_simps)

text \<open>A request, answered or not, leaves the offset and the flags of the clock alone.\<close>

definition same_settings :: "clock \<Rightarrow> clock \<Rightarrow> bool" where
  "same_settings c c' \<longleftrightarrow>
     offset_seconds c' = offset_seconds c \<and> configured c' = configured c \<and> ntp_synchronized c' = ntp_synchronized c"

lemma same_settings_later: "later d c c' \<Longrightarrow> same_settings c c'"
  by (simp add: later_def same_settings_def)

lemma same_settings_trans [trans]: "same_settings a b \<Longrightarrow> same_settings b c \<Longrightarrow> same_settings a c"
  by (simp add: same_settings_def)

lemma ntp_request_settings:
  assumes net: "net_contract nw" and run: "ntp_request api debug_on nw client use_offset s = Some (r, t)"
  shows "same_settings (clk s) (clk t)"
proof -
  have tick: "same_settings c (tick nw c)" for c
    using net same_settings_later unfolding net_contract_def by blast
  have time: "get_time nw a g s1 = Some (q, t1) \<Longrightarrow> same_settings (clk s1) (clk t1)" for a g s1 q t1
    using net same_settings_later unfolding net_contract_def by blast
  have set: "same_settings c (set_time_us x c)" for x c by (simp add: same_settings_def)
  obtain b w where b: "bind_any nw (net s) = (b, w)" by fastforce
  show ?thesis
  proof (cases "\<exists>x. b = Inl x")
    case True
    with run b have "clk t = clk s" by (auto simp: ntp_request_def tryP_def returning_def zoom_def external_def)
    then show ?thesis by (simp add: same_settings_def)
  next
    case False
    with b have b: "bind_any nw (net s) = (Inr (), w)" by (cases b) simp_all
    with run obtain q u where q: "get_time nw (ntp_socket client) (timestamp_init api debug_on) (s\<lparr>net := w\<rparr>) = Some (q, u)"
      by (cases "get_time nw (ntp_socket client) (timestamp_init api debug_on) (s\<lparr>net := w\<rparr>)")
        (auto simp: ntp_request_def errP_def zoom_def)
    have su: "same_settings (clk s) (clk u)" using time [OF q] by simp
    let ?c = "if use_offset then tick nw (clk u) else clk u"
    have sc: "same_settings (clk s) ?c" using su tick same_settings_trans by auto
    have st: "same_settings (clk s) (set_time_us x (tick nw ?c))" for x
      using same_settings_trans [OF same_settings_trans [OF sc tick] set] .
    show ?thesis
    proof (cases "\<exists>a. q = Ok a")
      case True
      then obtain a where "ntp_answered api debug_on nw client s a u" using b q by (auto simp: ntp_answered_def)
      from run ntp_request_answered [OF this, of use_offset] sc st show ?thesis
        by (auto simp: Let_def split: if_splits)
    next
      case False
      with run b q have "clk t = clk u"
        by (cases q) (auto simp: ntp_request_def tryP_def returning_def errP_def zoom_def)
      then show ?thesis using su by simp
    qed
  qed
qed

text \<open>The order of date-times is that of their instants, whatever the offset.\<close>

lemma datetime_instant:
  assumes "time_contract api" "datetime api c = Ok now"
  obtains i o' where "from_unix_timestamp_nanos api (uint (get_time_us c) * 1000) = Some i"
    "from_whole_seconds api (offset_seconds c) = Some o'" "checked_to_offset api o' i = Some now"
    "\<And>x. dt_ge api now x = dt_ge api i x"
proof -
  obtain o' i where i: "from_unix_timestamp_nanos api (uint (get_time_us c) * 1000) = Some i"
    "from_whole_seconds api (offset_seconds c) = Some o'" "checked_to_offset api o' i = Some now"
    using assms(2) by (auto simp: datetime_def offset_def split: outcome.splits option.splits)
  with time_contractD(7) [OF assms(1) i(3)] that show ?thesis by blast
qed

text \<open>The local date-time of an instant at an offset in seconds.\<close>

definition local_of :: "('o, 'dt, 'd, 't) time_api \<Rightarrow> i32 \<Rightarrow> 'dt \<Rightarrow> 'dt option" where
  "local_of api secs instant =
     Option.bind (from_whole_seconds api secs) (\<lambda>o'. checked_to_offset api o' instant)"

lemma get_time_apply_change [simp]: "get_time_us (apply_change api change c) = get_time_us c"
  by (simp add: apply_change_def set_ntp_synchronized_def set_offset_def get_time_us_def get_rtc_time_us_def
      get_rtc_time_cal_us_def get_rtc_time_raw_def get_boot_time_us_def split: option.splits)

text \<open>The offset after a turn, in seconds, from the instant the clock then shows.\<close>

definition dst_offset :: "('o, 'dt, 'd, 't) time_api \<Rightarrow> 'dt \<Rightarrow> 'dt \<times> 'dt \<Rightarrow> i32 \<Rightarrow> i32" where
  "dst_offset api instant limits old =
     (if 0 < sint old \<and> dt_ge api instant (snd limits) then 0
      else if old = 0 \<and> dt_ge api instant (fst limits) then 3600 else old)"

lemma ntp_task_turn_offset:
  assumes api: "time_contract api" and net: "net_contract nw"
    and run: "ntp_task_turn api debug_on nw client s = Some (Ok u, t)"
  obtains instant local limits where
    "from_unix_timestamp_nanos api (uint (get_time_us (clk (nt_ntp t))) * 1000) = Some instant"
    "local_of api (offset_seconds (clk (nt_ntp s))) instant = Some local"
    "dst_limits api (dt_year api local) = Some limits"
    "offset_seconds (clk (nt_ntp t)) = dst_offset api instant limits (offset_seconds (clk (nt_ntp s)))"
    "ntp_synchronized (clk (nt_ntp t))"
proof -
  from run obtain r n now limits current change where n:
    "ntp_request api debug_on nw client (\<not> nt_first_run s) (nt_ntp s) = Some (Ok r, n)"
    "datetime api (clk n) = Ok now" "dst_limits api (dt_year api now) = Some limits"
    "offset api (clk n) = Ok current" "dst_change api now limits current = Some change"
    "t = \<lparr>nt_first_run = False, nt_ntp = n\<lparr>clk := apply_change api change (clk n)\<rparr>\<rparr>"
    by (rule ntp_task_turn_Ok)
  from n(1) ntp_request_settings [OF net] have "same_settings (clk (nt_ntp s)) (clk n)" by blast
  then have old: "offset_seconds (clk n) = offset_seconds (clk (nt_ntp s))" by (simp add: same_settings_def)
  obtain i o' where i: "from_unix_timestamp_nanos api (uint (get_time_us (clk n)) * 1000) = Some i"
    "from_whole_seconds api (offset_seconds (clk n)) = Some o'" "checked_to_offset api o' i = Some now"
    "\<And>x. dt_ge api now x = dt_ge api i x"
    by (rule datetime_instant [OF api n(2)]) blast
  have "from_whole_seconds api (offset_seconds (clk n)) = Some current"
    using n(4) by (auto simp: offset_def split: option.splits)
  then have cur: "whole_seconds api current = offset_seconds (clk n)" by (rule time_contractD(2) [OF api])
  obtain one where one: "offset_from_hms api 1 0 0 = Some one" "whole_seconds api one = 3600"
    using time_contractD(6) [OF api] by blast
  have change: "change =
      (if 0 < sint (offset_seconds (clk n)) \<and> dt_ge api i (snd limits) then Some (utc_offset api)
       else if offset_seconds (clk n) = 0 \<and> dt_ge api i (fst limits) then Some one else None)"
    using n(5) one(1) by (auto simp: dst_change_def time_contractD(4,5) [OF api] cur i(4) split_beta split: if_splits)
  have "offset_seconds (clk (nt_ntp t)) = dst_offset api i limits (offset_seconds (clk (nt_ntp s)))"
    by (simp add: n(6) change dst_offset_def apply_change_def set_ntp_synchronized_def set_offset_def
        time_contractD(3) [OF api] one(2) old)
  moreover have "ntp_synchronized (clk (nt_ntp t))"
    using n(6) by (simp add: apply_change_def set_ntp_synchronized_def)
  moreover have "local_of api (offset_seconds (clk (nt_ntp s))) i = Some now"
    using i(2,3) old by (simp add: local_of_def)
  ultimately show ?thesis using that n(3,6) i(1) by simp
qed

text \<open>A turn that fails keeps the offset and the synchronisation flag.\<close>

lemma ntp_task_turn_Err:
  assumes "net_contract nw" "ntp_task_turn api debug_on nw client s = Some (Err e, t)"
  shows "same_settings (clk (nt_ntp s)) (clk (nt_ntp t))"
proof -
  from assms(2) have "\<exists>r n. ntp_request api debug_on nw client (\<not> nt_first_run s) (nt_ntp s) = Some (r, n) \<and> nt_ntp t = n"
    by (auto simp: ntp_task_turn_def tryP_Err zoomP_iff errP_Ok errP_Err returning_iff action_simps)
  then show ?thesis using ntp_request_settings [OF assms(1)] by blast
qed

end
