(* ===== verification/Boot.thy ===== *)
theory Boot
  imports Controller Credentials Ntp_Task
begin

text \<open>
  The start of the firmware (\<open>main\<close> and \<open>main_fallible\<close> in src/bin/blind.rs): the credentials,
  the network, the look for a newer firmware and its installation, the clock, and the tasks. It works on
  the flash, the WiFi state with the network behind it, the clock, and the flag that an update
  waits for a restart. The calls over the network may never return, which is \<open>None\<close>.

  \<open>boot_env\<close> holds what is fixed when the firmware is built (the credentials, the build date,
  the target, the name of the time server, the position) and the code outside the
  repository. \<open>be_timestamp\<close> is \<open>timestamp_millis_opt\<close> of the crate chrono. \<open>be_coordinates\<close> is the position,
  if both of its parts parse and the crate sunrise accepts them.
\<close>

section \<open>Unwrapping\<close>

text \<open>\<open>Option::expect\<close>, a panic where there is no value.\<close>

definition expect :: "'a option \<Rightarrow> ('s, 'a, 'e) action" where
  "expect x = (case x of Some a \<Rightarrow> ret a | None \<Rightarrow> panic)"

lemma expect_iff [action_simps]:
  "expect x s = (r, t) \<longleftrightarrow> t = s \<and> (case x of Some a \<Rightarrow> r = Ok a | None \<Rightarrow> r = Panic)"
  by (auto simp: expect_def ret_def panic_def split: option.splits)

section \<open>The state and the environment\<close>

record ('f, 'w, 'am, 'cfg, 'r) device =
  dv_flash :: 'f
  dv_wifi :: "('w, 'am, 'cfg, 'r) wifi_state"
  dv_clock :: clock
  dv_update_pending :: bool

record ('f, 'y, 'w, 'am, 'cfg, 'i, 'x, 'r, 'h, 'n, 'o, 'dt, 'd, 't, 'bd, 'c) boot_env =
  be_flash :: "('f, 'y) flash_ops"
  be_crc :: "u8 list \<Rightarrow> u32"
  be_wifi :: "('w, 'am, 'cfg, 'i, 'x) wifi_ops"
  be_random :: "'r random"
  be_http :: "('w, 'h) http_ops"
  be_ntp :: "('w, 'n) ntp_net"
  be_time :: "('o, 'dt, 'd, 't) time_api"
  be_timestamp :: "int \<Rightarrow> 'bd option"
  be_coordinates :: "'c option"
  be_ssid :: "bytes option"
  be_password :: "bytes option"
  be_build_date :: int
  be_target :: string
  be_ntp_server :: string

definition RELEASE_URL :: bytes where
  "RELEASE_URL = ascii ''https://github.com/cs2dsb/blind_controller.rs/releases/latest/download/''"

definition BUILD_DATE_URL :: "string \<Rightarrow> bytes" where
  "BUILD_DATE_URL target = RELEASE_URL @ ascii ''BUILD_DATE_'' @ ascii target"

definition FIRMWARE_URL :: "string \<Rightarrow> bytes" where
  "FIRMWARE_URL target = RELEASE_URL @ ascii ''blind_'' @ ascii target"

section \<open>The build date\<close>

text \<open>What build.rs writes into the file that a release publishes.\<close>

definition build_date_file :: "int \<Rightarrow> bytes" where
  "build_date_file millis = show_i64 millis"

definition parse_build_date :: "bytes \<Rightarrow> ('s, int, ('y, 'n, 'h, 'i, 'x) blind_error) action" where
  "parse_build_date bytes =
     (if \<not> utf8_valid bytes then fail Utf8_Error
      else case parse_i64 bytes of Inl e \<Rightarrow> fail (Parse_Int_Error e) | Inr v \<Rightarrow> ret v)"

definition fetch_build_date ::
  "(int \<Rightarrow> 'bd option) \<Rightarrow> ('w, 'h) http_ops \<Rightarrow> 'r random \<Rightarrow> bytes \<Rightarrow>
   (('w, 'r) http_client, int, ('y, 'n, 'h, 'i, 'x) blind_error) process" where
  "fetch_build_date timestamp h random url =
     tryP (errP Http_Error (req h random 20 url)) (\<lambda>bytes.
     returning (
       tryA (parse_build_date bytes) (\<lambda>v.
       tryA (ok_or InvalidEpochDate (timestamp v)) (\<lambda>_. ret v))))"

section \<open>The update\<close>

abbreviation on_ota ::
  "('f ota, 'a, 'y ota_error) action \<Rightarrow>
   (('w, 'r) http_client \<times> 'f ota, 'a, ('y, 'n, 'h, 'i, 'x) blind_error) action" where
  "on_ota m \<equiv> zoom snd (\<lambda>o' s. (fst s, o')) (map_err Ota_Error m)"

definition install_update ::
  "(u8 list \<Rightarrow> u32) \<Rightarrow> ('f, 'y) flash_ops \<Rightarrow> ('w, 'h) http_ops \<Rightarrow> 'r random \<Rightarrow> bytes \<Rightarrow>
   (('w, 'r) http_client \<times> 'f ota, unit, ('y, 'n, 'h, 'i, 'x) blind_error) process" where
  "install_update crcf d h random url =
     tryP (returning (on_ota (prepare_for_update crcf d))) (\<lambda>_.
     tryP (errP from_callback_error (req_buffered h random url (write_update d))) (\<lambda>_.
     returning (on_ota (commit_update crcf d))))"

text \<open>The HTTP client works on the network of the WiFi state and its random source; the update on the flash.\<close>

definition http_of :: "('f, 'w, 'am, 'cfg, 'r) device \<Rightarrow> ('w, 'r) http_client" where
  "http_of s = \<lparr>http_stack = wf_world (dv_wifi s), http_rng = wf_rng (dv_wifi s)\<rparr>"

definition http_to ::
  "('w, 'r) http_client \<Rightarrow> ('f, 'w, 'am, 'cfg, 'r) device \<Rightarrow> ('f, 'w, 'am, 'cfg, 'r) device" where
  "http_to c s = s\<lparr>dv_wifi := (dv_wifi s)\<lparr>wf_world := http_stack c, wf_rng := http_rng c\<rparr>\<rparr>"

definition check_for_update ::
  "('f, 'y, 'w, 'am, 'cfg, 'i, 'x, 'r, 'h, 'n, 'o, 'dt, 'd, 't, 'bd, 'c) boot_env \<Rightarrow>
   (('f, 'w, 'am, 'cfg, 'r) device, unit, ('y, 'n, 'h, 'i, 'x) blind_error) process" where
  "check_for_update env =
     tryP (zoomP http_of http_to
       (fetch_build_date (be_timestamp env) (be_http env) (be_random env) (BUILD_DATE_URL (be_target env)))) (\<lambda>new.
     if new > be_build_date env then
       tryP (zoomP (\<lambda>s. (http_of s, ota_new (dv_flash s))) (\<lambda>(c, o') s. http_to c (s\<lparr>dv_flash := ota_flash o'\<rparr>))
         (install_update (be_crc env) (be_flash env) (be_http env) (be_random env) (FIRMWARE_URL (be_target env)))) (\<lambda>_.
       returning (modify (\<lambda>s. s\<lparr>dv_update_pending := True\<rparr>)))
     else returning (ret ()))"

section \<open>The whole start\<close>

abbreviation on_nvs ::
  "('f nvs, 'a, 'e) action \<Rightarrow> (('f, 'w, 'am, 'cfg, 'r) device, 'a, 'e) action" where
  "on_nvs \<equiv> zoom (\<lambda>s. nvs_new (dv_flash s)) (\<lambda>n s. s\<lparr>dv_flash := nvs_flash n\<rparr>)"

abbreviation on_wifi ::
  "(('w, 'am, 'cfg, 'r) wifi_state, 'a, 'e) action \<Rightarrow> (('f, 'w, 'am, 'cfg, 'r) device, 'a, 'e) action" where
  "on_wifi \<equiv> zoom dv_wifi (\<lambda>w s. s\<lparr>dv_wifi := w\<rparr>)"

definition await_connection ::
  "('w, 'am, 'cfg, 'i, 'x) wifi_ops \<Rightarrow> (('f, 'w, 'am, 'cfg, 'r) device, unit, 'e) process" where
  "await_connection dev s =
     map_option (\<lambda>w. (Ok (), s\<lparr>dv_wifi := w\<rparr>)) (wait_for_connection dev (dv_wifi s))"

definition configure_once :: "('o, 'dt, 'd, 't) time_api \<Rightarrow> clock \<Rightarrow> clock" where
  "configure_once api c = (if \<not> configured c then configure api (utc_offset api) c else c)"

definition resolve_server ::
  "('f, 'y, 'w, 'am, 'cfg, 'i, 'x, 'r, 'h, 'n, 'o, 'dt, 'd, 't, 'bd, 'c) boot_env \<Rightarrow>
   (('f, 'w, 'am, 'cfg, 'r) device, ntp_client, ('y, 'n, 'h, 'i, 'x) blind_error) process" where
  "resolve_server env =
     zoomP (\<lambda>s. wf_world (dv_wifi s)) (\<lambda>w s. s\<lparr>dv_wifi := (dv_wifi s)\<lparr>wf_world := w\<rparr>\<rparr>)
       (errP Ntp_Error (new_from_dns (be_ntp env) (be_ntp_server env)))"

text \<open>From the connection to the spawning of the tasks, which get the NTP client and the position.\<close>

definition start_after_credentials ::
  "('f, 'y, 'w, 'am, 'cfg, 'i, 'x, 'r, 'h, 'n, 'o, 'dt, 'd, 't, 'bd, 'c) boot_env \<Rightarrow> bytes \<Rightarrow> bytes \<Rightarrow> 'c \<Rightarrow>
   (('f, 'w, 'am, 'cfg, 'r) device, ntp_client \<times> 'c, ('y, 'n, 'h, 'i, 'x) blind_error) process" where
  "start_after_credentials env ssid password coordinates =
     tryP (returning (on_wifi (map_err Wifi_Error (wifi_connect (be_wifi env) (be_random env) ssid password)))) (\<lambda>_.
     tryP (await_connection (be_wifi env)) (\<lambda>_.
     tryP (check_for_update env) (\<lambda>_.
     tryP (returning (modify (\<lambda>s. s\<lparr>dv_clock := configure_once (be_time env) (dv_clock s)\<rparr>))) (\<lambda>_.
     tryP (resolve_server env) (\<lambda>client.
     returning (ret (client, coordinates)))))))"

definition main_fallible ::
  "('f, 'y, 'w, 'am, 'cfg, 'i, 'x, 'r, 'h, 'n, 'o, 'dt, 'd, 't, 'bd, 'c) boot_env \<Rightarrow>
   (('f, 'w, 'am, 'cfg, 'r) device, ntp_client \<times> 'c, ('y, 'n, 'h, 'i, 'x) blind_error) process" where
  "main_fallible env =
     tryP (returning (expect (be_timestamp env (be_build_date env)))) (\<lambda>_.
     tryP (returning (expect (be_coordinates env))) (\<lambda>coordinates.
     tryP (returning (on_nvs (get_credentials (be_flash env) (be_ssid env) (be_password env)))) (\<lambda>(ssid, password).
     start_after_credentials env ssid password coordinates)))"

text \<open>
  What follows: the tasks run with their initial states, or after an error the device sleeps for ten
  seconds and starts again. A panic is left to the panic handler of the libraries.
\<close>

datatype 'a started = Running 'a | Deep_Sleep nat | Panicked

text \<open>\<open>enter_deep\<close> of src/rtc.rs does not return: the timer wakes the device after the interval, in microseconds.\<close>

definition enter_deep :: "nat \<Rightarrow> 'a started" where
  "enter_deep interval = Deep_Sleep interval"

definition firmware_main ::
  "('f, 'y, 'w, 'am, 'cfg, 'i, 'x, 'r, 'h, 'n, 'o, 'dt, 'd, 't, 'bd, 'c) boot_env \<Rightarrow>
   ('f, 'w, 'am, 'cfg, 'r) device \<Rightarrow> ((ntp_client \<times> 'c) started \<times> ('f, 'w, 'am, 'cfg, 'r) device) option" where
  "firmware_main env s =
     map_option (\<lambda>(r, t).
       (case (r :: (ntp_client \<times> 'c, ('y, 'n, 'h, 'i, 'x) blind_error) outcome) of
          Ok x \<Rightarrow> Running x
        | Err e \<Rightarrow> enter_deep (10 * 1000000)
        | Panic \<Rightarrow> Panicked, t)) (main_fallible env s)"

end
