(* ===== verification/Ota_Correct.thy ===== *)
theory Ota_Correct
  imports Ota
begin

text \<open>
  What the operations of src/ota.rs do to the flash: reading operations change nothing, the
  chunks of an image end up one after the other in the slot being updated and nowhere else,
  and a commit rewrites the entry of that slot and nothing else.
\<close>

section \<open>Reading operations\<close>

definition reads_only ::
  "('f, 'x) flash_ops \<Rightarrow> ('f \<Rightarrow> memory) \<Rightarrow> ('f \<Rightarrow> bool) \<Rightarrow> ('f ota, 'a, 'e) action \<Rightarrow> bool" where
  "reads_only d view good m \<longleftrightarrow>
     (\<forall>s r t. ota_ok d view good s \<longrightarrow> m s = (r, t) \<longrightarrow>
        ota_ok d view good t \<and> view (ota_flash t) = view (ota_flash s) \<and>
        update_state t = update_state s \<and> r \<noteq> Panic)"

lemma reads_onlyD:
  assumes "reads_only d view good m" "ota_ok d view good s" "m s = (r, t)"
  shows "ota_ok d view good t" "view (ota_flash t) = view (ota_flash s)"
    "update_state t = update_state s" "r \<noteq> Panic"
  using assms unfolding reads_only_def by blast+

lemma reads_only_ret [intro]: "reads_only d view good (ret a)"
  by (simp add: reads_only_def ret_def)

lemma reads_only_tryA [intro]:
  assumes "reads_only d view good m" "\<And>a. reads_only d view good (k a)"
  shows "reads_only d view good (tryA m k)"
  unfolding reads_only_def
proof (intro allI impI)
  fix s r t
  assume ok: "ota_ok d view good s" and run: "tryA m k s = (r, t)"
  obtain r0 u where u: "m s = (r0, u)" by fastforce
  note m = reads_onlyD [OF assms(1) ok u]
  show "ota_ok d view good t \<and> view (ota_flash t) = view (ota_flash s) \<and>
      update_state t = update_state s \<and> r \<noteq> Panic"
  proof (cases r0)
    case (Ok a)
    with run u have "k a u = (r, t)" by simp
    from reads_onlyD [OF assms(2) m(1) this] m show ?thesis by simp
  qed (use run u m in auto)
qed

lemma reads_only_get_ota_entry [intro]: "reads_only d view good (get_ota_entry d slot)"
  unfolding reads_only_def
proof (intro allI impI)
  fix s r t
  assume ok: "ota_ok d view good s" and run: "get_ota_entry d slot s = (r, t)"
  then obtain f r' where t: "t = s\<lparr>ota_flash := f\<rparr>" and er: "entry_read d slot (ota_flash s) = (r, f)"
    and fr: "flash_read OtaStorage d (p_offset OTA_DATA_PARTITION + select_slot_offset d slot)
      entry_size (ota_flash s) = (r', f)"
    by (auto simp: get_ota_entry_def action_simps entry_read_def tryA_def ret_def
        split: prod.splits outcome.splits)
  show "ota_ok d view good t \<and> view (ota_flash t) = view (ota_flash s) \<and>
      update_state t = update_state s \<and> r \<noteq> Panic"
    using ok t er fls.rd_invar [OF _ fr] fls.rd_frame [OF _ fr]
    by (auto simp: ota_ok_def es.load_no_panic)
qed

lemma reads_only_get_ota_entries [intro]: "reads_only d view good (get_ota_entries d)"
  unfolding get_ota_entries_def by (intro reads_only_tryA reads_only_ret reads_only_get_ota_entry)

lemma reads_only_update_slot: "reads_only d view good (update_slot crcf d)"
  unfolding update_slot_def get_slot_seq_def
  by (auto intro!: reads_only_tryA reads_only_get_ota_entries reads_only_get_ota_entry
      reads_only_ret split: prod.splits)

text \<open>The slot chosen is the decision on the entries that are on flash.\<close>

lemma update_slot_value:
  assumes ok: "ota_ok d view good s" and run: "update_slot crcf d s = (Ok slot, t)"
  shows "slot = choose_update_slot crcf (ota_entries view s SlotZero) (ota_entries view s SlotOne)"
proof -
  from run obtain e0 e1 u where es: "get_ota_entries d s = (Ok (e0, e1), u)"
    and rest: "(if ota_state e0 \<noteq> Valid then ret Slot0
       else if ota_state e1 \<noteq> Valid then ret Slot1
       else tryA (get_slot_seq crcf d) (\<lambda>(seq0, seq1). ret (slot_by_seq seq0 seq1))) u = (Ok slot, t)"
    by (auto simp: update_slot_def action_simps)
  note e = get_ota_entries_Ok [OF ok es]
  show ?thesis
  proof (cases "ota_state e0 = Valid \<and> ota_state e1 = Valid")
    case False
    with rest e show ?thesis
      by (auto simp: choose_update_slot_def action_simps split: if_splits)
  next
    case True
    with rest obtain q0 q1 where sq: "get_slot_seq crcf d u = (Ok (q0, q1), t)"
      and sl: "slot = slot_by_seq q0 q1"
      by (auto simp: action_simps)
    have "(q0, q1) = (effective_seq crcf (ota_entries view u SlotZero),
        effective_seq crcf (ota_entries view u SlotOne))"
      using os.part.load_both [of d view good u "\<lambda>a b. (effective_seq crcf a, effective_seq crcf b)"] e sq
      by (fastforce simp: get_slot_seq_def get_ota_entry_def ota_entries_def ota_ok_def)
    with True sl e show ?thesis by (simp add: choose_update_slot_def)
  qed
qed

section \<open>Writing the image\<close>

text \<open>Offsets inside a slot do not wrap: a slice of the target is at most 2 ^ 31 - 1 bytes long.\<close>

lemma update_offset_sum:
  "unat (off :: u32) \<le> 0x180000 \<Longrightarrow> n < 2 ^ 31 \<Longrightarrow> unat (off + of_nat n) = unat off + n"
  by (rule unat_plus_of_nat) simp

lemma update_address:
  "unat off \<le> 0x180000 \<Longrightarrow> unat (slot_offset slot + off) = unat (slot_offset slot) + unat off"
  using unat_slot_offset [of slot] by (subst unat_plus_if') (auto simp: word_size)

text \<open>\<open>write_update\<close> in terms of natural numbers.\<close>

lemma write_update_step:
  assumes st: "update_state s = Some (slot, off)" and off: "unat off \<le> 0x180000"
    and len: "length buf < 2 ^ 31"
  shows "write_update d buf s =
     (if unat off + length buf > 0x180000 then (Err TooLarge, s)
      else if buf = [] then (Ok (), s)
      else case flash_write OtaStorage d (slot_offset slot + off) buf (ota_flash s) of
        (Ok _, f) \<Rightarrow> (Ok (), s\<lparr>ota_flash := f, update_state := Some (slot, off + of_nat (length buf))\<rparr>)
      | (Err e, f) \<Rightarrow> (Err e, s\<lparr>ota_flash := f\<rparr>)
      | (Panic, f) \<Rightarrow> (Panic, s\<lparr>ota_flash := f\<rparr>))"
proof -
  have "off + of_nat (length buf) > slot_size slot \<longleftrightarrow> unat off + length buf > 0x180000"
    using update_offset_sum [OF off len] by (simp add: word_less_nat_alt)
  then show ?thesis
    using st by (auto simp: write_update_def Let_def tryA_def zoom_def modify_def fail_def ret_def
        split: prod.splits outcome.splits)
qed

text \<open>
  The progress of an update, seen from the flash as it was when the update began: the bytes
  \<open>img\<close> received so far are stored from the beginning of the slot on.
\<close>

definition update_progress ::
  "('f \<Rightarrow> memory) \<Rightarrow> memory \<Rightarrow> slot \<Rightarrow> u8 list \<Rightarrow> 'f ota \<Rightarrow> bool" where
  "update_progress view m0 slot img s \<longleftrightarrow>
     (\<exists>off. update_state s = Some (slot, off) \<and> unat off = length img) \<and>
     length img \<le> 0x180000 \<and>
     view (ota_flash s) = poke m0 (unat (slot_offset slot)) img"

lemma write_update_progress:
  assumes ok: "ota_ok d view good s" and p: "update_progress view m0 slot img s"
    and len: "length buf < 2 ^ 31" and run: "write_update d buf s = (Ok (), t)"
  shows "ota_ok d view good t \<and> update_progress view m0 slot (img @ buf) t"
proof -
  from p obtain off where st: "update_state s = Some (slot, off)" and off: "unat off = length img"
    and le: "unat off \<le> 0x180000" and v: "view (ota_flash s) = poke m0 (unat (slot_offset slot)) img"
    by (auto simp: update_progress_def)
  note step = write_update_step [OF st le len, of d]
  show ?thesis
  proof (cases "buf = []")
    case True
    with step run le ok p show ?thesis by (simp split: if_splits)
  next
    case False
    with step run obtain f where fit: "unat off + length buf \<le> 0x180000"
      and fw: "flash_write OtaStorage d (slot_offset slot + off) buf (ota_flash s) = (Ok (), f)"
      and t: "t = s\<lparr>ota_flash := f, update_state := Some (slot, off + of_nat (length buf))\<rparr>"
      by (auto split: if_splits prod.splits outcome.splits)
    from fls.wr_law [OF _ TrueI fw, of view good] ok
    have f: "flash_ok d view good f"
      "view f = poke (view (ota_flash s)) (unat (slot_offset slot + off)) buf"
      by (simp_all add: ota_ok_def)
    have "view f = poke m0 (unat (slot_offset slot)) (img @ buf)"
      using f(2) v off by (simp add: update_address [OF le] poke_poke_append)
    with f(1) t fit off show ?thesis
      by (simp add: update_progress_def ota_ok_def update_offset_sum [OF le len])
  qed
qed

lemma write_chunks_progress:
  "ota_ok d view good s \<Longrightarrow> update_progress view m0 slot img s \<Longrightarrow>
     list_all (\<lambda>c. length c < 2 ^ 31) cs \<Longrightarrow> write_chunks d cs s = (Ok (), t) \<Longrightarrow>
     ota_ok d view good t \<and> update_progress view m0 slot (img @ concat cs) t"
proof (induction cs arbitrary: s img)
  case Nil
  then show ?case by (simp add: ret_def)
next
  case (Cons c cs)
  from Cons.prems obtain u where u: "write_update d c s = (Ok (), u)"
    and rest: "write_chunks d cs u = (Ok (), t)"
    by (auto simp: action_simps)
  from Cons.prems have "length c < 2 ^ 31" by simp
  with write_update_progress [OF Cons.prems(1,2) _ u]
  have "ota_ok d view good u" "update_progress view m0 slot (img @ c) u" by simp_all
  with Cons.IH rest Cons.prems(3) show ?case by fastforce
qed

text \<open>
  Whatever the flash does, and however the call ends, nothing outside the slot changes and
  the offset stays inside the slot.
\<close>

definition offset_in_slot :: "'f ota \<Rightarrow> slot \<Rightarrow> bool" where
  "offset_in_slot s slot \<longleftrightarrow> (\<exists>off. update_state s = Some (slot, off) \<and> unat off \<le> 0x180000)"

lemma write_update_confined:
  assumes ok: "ota_ok d view good s" and inv: "offset_in_slot s slot"
    and len: "length buf < 2 ^ 31" and run: "write_update d buf s = (r, t)"
  shows "ota_ok d view good t \<and> offset_in_slot t slot \<and> r \<noteq> Panic \<and>
    (\<forall>x. \<not> in_partition (slot_partition slot) x \<longrightarrow> view (ota_flash t) x = view (ota_flash s) x)"
proof -
  from inv obtain off where st: "update_state s = Some (slot, off)" and le: "unat off \<le> 0x180000"
    by (auto simp: offset_in_slot_def)
  note step = write_update_step [OF st le len, of d]
  show ?thesis
  proof (cases "unat off + length buf > 0x180000 \<or> buf = []")
    case True
    with step run have "t = s" "r \<noteq> Panic" by (auto split: if_splits)
    with ok inv show ?thesis by simp
  next
    case False
    obtain r' f where fw: "flash_write OtaStorage d (slot_offset slot + off) buf (ota_flash s) = (r', f)"
      by fastforce
    note np = fls.wr_no_panic [of OtaStorage d "slot_offset slot + off" buf "ota_flash s" f]
    have fok: "flash_ok d view good f" and
      frame: "\<not> in_partition (slot_partition slot) x \<Longrightarrow> view f x = view (ota_flash s) x" for x
      using ok fls.wr_invar [OF _ fw]
        fls.wr_region_frame [OF _ fw TrueI, of view good "unat (slot_offset slot)"
          "unat (slot_offset slot) + 0x180000" x]
        False unat_slot_offset [of slot]
      by (auto simp: ota_ok_def in_partition_def update_address [OF le])
    from step run False fw np
    have "ota_flash t = f" "r \<noteq> Panic"
      and "update_state t = Some (slot, off) \<or> update_state t = Some (slot, off + of_nat (length buf))"
      using st by (auto split: outcome.splits if_splits)
    with fok frame False le update_offset_sum [OF le len] show ?thesis
      by (auto simp: ota_ok_def offset_in_slot_def)
  qed
qed

lemma write_chunks_confined:
  "ota_ok d view good s \<Longrightarrow> offset_in_slot s slot \<Longrightarrow> list_all (\<lambda>c. length c < 2 ^ 31) cs \<Longrightarrow>
   write_chunks d cs s = (r, t) \<Longrightarrow>
   ota_ok d view good t \<and> offset_in_slot t slot \<and> r \<noteq> Panic \<and>
   (\<forall>x. \<not> in_partition (slot_partition slot) x \<longrightarrow> view (ota_flash t) x = view (ota_flash s) x)"
proof (induction cs arbitrary: s)
  case Nil
  then show ?case by (auto simp: ret_def)
next
  case (Cons c cs)
  obtain r0 u where u: "write_update d c s = (r0, u)" by fastforce
  from Cons.prems have len: "length c < 2 ^ 31" and cs: "list_all (\<lambda>c. length c < 2 ^ 31) cs"
    by simp_all
  note w = write_update_confined [OF Cons.prems(1,2) len u]
  show ?case
  proof (cases r0)
    case (Ok a)
    with u Cons.prems(4) have "write_chunks d cs u = (r, t)" by simp
    with Cons.IH [of u] w cs show ?thesis by auto
  qed (use w u Cons.prems(4) in auto)
qed

section \<open>The commit\<close>

abbreviation entry_of :: "slot \<Rightarrow> select_entry_slot" where
  "entry_of slot \<equiv> (case slot of Slot0 \<Rightarrow> SlotZero | _ \<Rightarrow> SlotOne)"

text \<open>The entry a commit stores: a new sequence number, the state \<open>New\<close>, a checksum that holds.\<close>

definition committed_entry ::
  "(u8 list \<Rightarrow> u32) \<Rightarrow> (select_entry_slot \<Rightarrow> ota_select_entry) \<Rightarrow> slot \<Rightarrow> ota_select_entry" where
  "committed_entry crcf es slot =
     refresh_crc crcf
       ((checked_entry crcf (es (entry_of slot)))
          \<lparr>ota_seq := fst (choose_commit crcf (es SlotZero) (es SlotOne)), ota_state := New\<rparr>)"

lemma committed_entry_simps [simp]:
  "ota_state (committed_entry crcf es slot) = New"
  "ota_seq (committed_entry crcf es slot) = fst (choose_commit crcf (es SlotZero) (es SlotOne))"
  "checksum_ok crcf (committed_entry crcf es slot)"
  unfolding committed_entry_def by (simp_all del: checksum_ok_refresh add: refresh_crc_def)
    (simp add: checksum_ok_def calculate_checksum_def)

text \<open>\<open>set_current_slot\<close> after its two reads.\<close>

lemma set_current_slot_decision:
  assumes "get_ota_entries d s = (Ok (e0, e1), u)"
  shows "set_current_slot crcf d expected s =
    (if snd (choose_commit crcf e0 e1) \<noteq> expected then (Panic, u)
     else on_flash (entry_write crcf d
       ((checked_entry crcf (if expected = Slot0 then e0 else e1))
          \<lparr>ota_seq := fst (choose_commit crcf e0 e1), ota_state := New\<rparr>)
       (entry_of expected) True) u)"
  using assms
  by (auto simp: set_current_slot_def choose_commit_def Let_def panic_def split: prod.splits slot.splits)

lemma set_current_slot_reads_fail:
  "get_ota_entries d s = (Err e, u) \<Longrightarrow> set_current_slot crcf d expected s = (Err e, u)"
  "get_ota_entries d s = (Panic, u) \<Longrightarrow> set_current_slot crcf d expected s = (Panic, u)"
  by (simp_all add: set_current_slot_def)

lemma set_current_slot_Ok:
  assumes ok: "ota_ok d view good s" and run: "set_current_slot crcf d expected s = (Ok (), t)"
  defines "es \<equiv> ota_entries view s"
  shows "snd (choose_commit crcf (es SlotZero) (es SlotOne)) = expected"
    and "ota_entries view t = es (entry_of expected := committed_entry crcf es expected)"
    and "ota_ok d view good t"
proof -
  from run obtain e0 e1 u where rd: "get_ota_entries d s = (Ok (e0, e1), u)"
    unfolding set_current_slot_def by (auto simp: action_simps)
  note e = get_ota_entries_Ok [OF ok rd]
  note dec = set_current_slot_decision [OF rd, of crcf expected]
  from dec run show agree: "snd (choose_commit crcf (es SlotZero) (es SlotOne)) = expected"
    using e by (auto simp: es_def split: if_splits)
  let ?e = "(checked_entry crcf (if expected = Slot0 then e0 else e1))
          \<lparr>ota_seq := fst (choose_commit crcf e0 e1), ota_state := New\<rparr>"
  have wf: "wf_entry ?e"
    using e by (simp add: wf_entry_def [of "_\<lparr>ota_state := New\<rparr>"] ota_entries_def
        wf_checked_entry [unfolded wf_entry_def] wf_stored_entry [unfolded wf_entry_def])
  from dec run e agree have wr: "on_flash (entry_write crcf d ?e (entry_of expected) True) u = (Ok (), t)"
    by (auto simp: es_def split: if_splits)
  from os.part.store_updates [OF _ wf wr, of view good] os.part.store_invar [OF _ wr, of view good] e
  show "ota_entries view t = es (entry_of expected := committed_entry crcf es expected)"
    and "ota_ok d view good t"
    by (auto simp: es_def ota_entries_def ota_ok_def committed_entry_def fun_eq_iff split: slot.splits)
qed

lemma set_current_slot_Panic:
  assumes ok: "ota_ok d view good s" and run: "set_current_slot crcf d expected s = (Panic, t)"
  shows "snd (choose_commit crcf (ota_entries view s SlotZero) (ota_entries view s SlotOne)) \<noteq> expected"
proof -
  from run get_ota_entries_frame [OF ok] obtain e0 e1 u where rd: "get_ota_entries d s = (Ok (e0, e1), u)"
    unfolding set_current_slot_def by (fastforce simp: action_simps)
  note e = get_ota_entries_Ok [OF ok rd]
  show ?thesis
  proof
    assume "snd (choose_commit crcf (ota_entries view s SlotZero) (ota_entries view s SlotOne)) = expected"
    with set_current_slot_decision [OF rd, of crcf expected] e
    obtain e' where "set_current_slot crcf d expected s = on_flash (entry_write crcf d e' (entry_of expected) True) u"
      by auto
    with run have "on_flash (entry_write crcf d e' (entry_of expected) True) u = (Panic, t)" by simp
    then show False by (simp add: action_simps es.store_no_panic)
  qed
qed

section \<open>A whole update\<close>

lemma commit_update_Ok:
  assumes ok: "ota_ok d view good s" and run: "commit_update crcf d s = (Ok (), t)"
  defines "es \<equiv> ota_entries view s"
  obtains slot off where "update_state s = Some (slot, off)"
    "snd (choose_commit crcf (es SlotZero) (es SlotOne)) = slot"
    "ota_entries view t = es (entry_of slot := committed_entry crcf es slot)"
    "ota_ok d view good t"
proof -
  from run obtain slot off where st: "update_state s = Some (slot, off)"
    and sc: "set_current_slot crcf d slot (s\<lparr>update_state := None\<rparr>) = (Ok (), t)"
    by (auto simp: commit_update_def panic_def split: option.splits)
  have "ota_ok d view good (s\<lparr>update_state := None\<rparr>)" using ok by (simp add: ota_ok_def)
  from set_current_slot_Ok [OF this sc] st show ?thesis
    by (intro that) (auto simp: es_def ota_entries_def)
qed

lemma prepare_for_update_Ok:
  assumes ok: "ota_ok d view good s" and run: "prepare_for_update crcf d s = (Ok (), t)"
  defines "slot \<equiv> choose_update_slot crcf (ota_entries view s SlotZero) (ota_entries view s SlotOne)"
  shows "ota_ok d view good t" "view (ota_flash t) = view (ota_flash s)"
    "update_state t = Some (slot, 0)"
proof -
  from run obtain u sl where us: "update_slot crcf d s = (Ok sl, u)"
    and t: "t = u\<lparr>update_state := Some (sl, 0)\<rparr>"
    by (auto simp: prepare_for_update_def action_simps)
  note u = reads_onlyD [OF reads_only_update_slot ok us]
  from update_slot_value [OF ok us] have "sl = slot" by (simp add: slot_def)
  with u t show "ota_ok d view good t" "view (ota_flash t) = view (ota_flash s)"
    "update_state t = Some (slot, 0)"
    by (simp_all add: ota_ok_def)
qed

lemma prepare_for_update_frame:
  assumes "ota_ok d view good s" "prepare_for_update crcf d s = (r, t)"
  shows "ota_ok d view good t \<and> view (ota_flash t) = view (ota_flash s) \<and> r \<noteq> Panic"
proof (cases "update_slot crcf d s")
  case (Pair r0 u)
  note u = reads_onlyD [OF reads_only_update_slot assms(1) Pair]
  with Pair assms(2) show ?thesis
    by (cases r0) (auto simp: prepare_for_update_def modify_def ota_ok_def)
qed

lemma update_progress_start:
  "update_state s = Some (slot, 0) \<Longrightarrow> update_progress view (view (ota_flash s)) slot [] s"
  by (simp add: update_progress_def)

lemma write_chunks_entries:
  assumes "ota_ok d view good s" "offset_in_slot s slot" "list_all (\<lambda>c. length c < 2 ^ 31) cs"
    "write_chunks d cs s = (r, t)"
  shows "ota_entries view t = ota_entries view s"
  using write_chunks_confined [OF assms]
  by (intro ext) (auto simp: ota_entries_def slot_partition_def intro!: stored_entry_cong)

text \<open>A commit touches the sector of the entry of its slot only, also when it fails.\<close>

lemma entry_write_confined:
  assumes ok: "flash_ok d view good f" and wf: "wf_entry e"
    and run: "entry_write crcf d e slot upd f = (r, f')" and out: "\<not> entry_sector slot x"
  shows "view f' x = view f x"
proof (cases "upd \<or> checksum_ok crcf e")
  case False
  with run show ?thesis by (simp add: entry_write_def action_simps)
next
  case True
  define e' where "e' = (if upd then refresh_crc crcf e else e)"
  from True run have fw: "flash_write OtaStorage d
      (p_offset OTA_DATA_PARTITION + select_slot_offset d slot) (entry_to_bytes e') f = (r, f')"
    by (auto simp: entry_write_def e'_def split: if_splits)
  have len: "length (entry_to_bytes e') = 32"
    using wf by (simp add: e'_def entry_size_def)
  show ?thesis
    by (rule fls.wr_region_frame [OF ok fw TrueI, where lo = "entry_addr slot" and hi = "entry_addr slot + 0x1000"])
      (use len out entry_address [OF flash_ok_sector_size [OF ok], of slot] in
        \<open>cases slot; auto simp: entry_addr_def entry_sector_def\<close>)+
qed

lemma set_current_slot_confined:
  assumes ok: "ota_ok d view good s" and run: "set_current_slot crcf d expected s = (r, t)"
    and out: "\<not> entry_sector (entry_of expected) x"
  shows "view (ota_flash t) x = view (ota_flash s) x" and "ota_ok d view good t"
proof -
  obtain r0 u where rd: "get_ota_entries d s = (r0, u)" by fastforce
  note u = reads_onlyD [OF reads_only_get_ota_entries ok rd]
  have "view (ota_flash t) x = view (ota_flash s) x \<and> ota_ok d view good t"
  proof (cases "\<exists>e0 e1. r0 = Ok (e0, e1) \<and> snd (choose_commit crcf e0 e1) = expected")
    case False
    with rd run have "t = u"
      by (cases r0) (auto simp: set_current_slot_decision set_current_slot_reads_fail split: if_splits)
    with u show ?thesis by simp
  next
    case True
    then obtain e0 e1 where r0: "r0 = Ok (e0, e1)"
      and eq: "snd (choose_commit crcf e0 e1) = expected" by blast
    with rd have rd': "get_ota_entries d s = (Ok (e0, e1), u)" by simp
    note e = get_ota_entries_Ok [OF ok rd']
    let ?e = "(checked_entry crcf (if expected = Slot0 then e0 else e1))
          \<lparr>ota_seq := fst (choose_commit crcf e0 e1), ota_state := New\<rparr>"
    have wf: "wf_entry ?e"
      using e by (simp add: wf_entry_def [of "_\<lparr>ota_state := New\<rparr>"] ota_entries_def
          wf_checked_entry [unfolded wf_entry_def] wf_stored_entry [unfolded wf_entry_def])
    from set_current_slot_decision [OF rd', of crcf expected] eq run
    obtain f where ew: "entry_write crcf d ?e (entry_of expected) True (ota_flash u) = (r, f)"
      and t: "t = u\<lparr>ota_flash := f\<rparr>"
      by (auto simp: zoom_def split: prod.splits)
    from u(1) have uok: "flash_ok d view good (ota_flash u)" by (simp add: ota_ok_def)
    from entry_write_confined [OF uok wf ew out] es.store_invar [OF uok ew] t u show ?thesis
      by (simp add: ota_ok_def)
  qed
  then show "view (ota_flash t) x = view (ota_flash s) x" "ota_ok d view good t" by simp_all
qed

lemma perform_update_split:
  assumes "perform_update crcf d chunks s = (r, t)"
  obtains (at_prepare) e where "prepare_for_update crcf d s = (r, t)" "r = Err e \<or> r = Panic"
  | (at_chunks) u e where "prepare_for_update crcf d s = (Ok (), u)" "write_chunks d chunks u = (r, t)"
      "r = Err e \<or> r = Panic"
  | (at_commit) u v where "prepare_for_update crcf d s = (Ok (), u)" "write_chunks d chunks u = (Ok (), v)"
      "commit_update crcf d v = (r, t)"
  using assms
  by (cases r) (auto simp: perform_update_def action_simps)

text \<open>What holds between the prepared state and the end of the writing of the chunks.\<close>

lemma chunks_after_prepare:
  assumes ok: "ota_ok d view good s" and prep: "prepare_for_update crcf d s = (Ok (), u)"
    and cs: "list_all (\<lambda>c. length c < 2 ^ 31) chunks" and w: "write_chunks d chunks u = (r, v)"
  defines "slot \<equiv> choose_update_slot crcf (ota_entries view s SlotZero) (ota_entries view s SlotOne)"
  shows "ota_ok d view good v" "offset_in_slot v slot" "r \<noteq> Panic"
    "ota_entries view v = ota_entries view s"
    "\<not> in_partition (slot_partition slot) x \<Longrightarrow> view (ota_flash v) x = view (ota_flash s) x"
    "r = Ok () \<Longrightarrow> update_progress view (view (ota_flash s)) slot (concat chunks) v"
proof -
  note p = prepare_for_update_Ok [OF ok prep]
  have off: "offset_in_slot u slot" using p(3) by (simp add: offset_in_slot_def slot_def)
  have prog: "update_progress view (view (ota_flash s)) slot [] u"
    using update_progress_start [OF p(3), of view] p(2) by (simp add: slot_def)
  note c = write_chunks_confined [OF p(1) off cs w]
  show "ota_ok d view good v" "offset_in_slot v slot" "r \<noteq> Panic"
    "\<not> in_partition (slot_partition slot) x \<Longrightarrow> view (ota_flash v) x = view (ota_flash s) x"
    using c p(2) by auto
  show "ota_entries view v = ota_entries view s"
    using write_chunks_entries [OF p(1) off cs w] p(2) by (simp add: ota_entries_def)
  show "r = Ok () \<Longrightarrow> update_progress view (view (ota_flash s)) slot (concat chunks) v"
    using write_chunks_progress [OF p(1) prog cs] w by simp
qed

lemma commit_update_confined:
  assumes ok: "ota_ok d view good s" and slot: "offset_in_slot s slot" and run: "commit_update crcf d s = (r, t)"
    and out: "\<not> entry_sector (entry_of slot) x"
  shows "view (ota_flash t) x = view (ota_flash s) x"
proof -
  from slot run have "set_current_slot crcf d slot (s\<lparr>update_state := None\<rparr>) = (r, t)"
    by (auto simp: commit_update_def offset_in_slot_def)
  from set_current_slot_confined(1) [OF _ this out] ok show ?thesis by (simp add: ota_ok_def)
qed

lemma commit_update_keeps_ok:
  assumes "ota_ok d view good s" "commit_update crcf d s = (r, t)"
  shows "ota_ok d view good t"
proof (cases "update_state s")
  case None
  with assms show ?thesis by (simp add: commit_update_def panic_def)
next
  case (Some p)
  obtain slot off where "p = (slot, off)" by fastforce
  with Some assms(2) have run: "set_current_slot crcf d slot (s\<lparr>update_state := None\<rparr>) = (r, t)"
    by (simp add: commit_update_def)
  have out: "\<not> entry_sector (entry_of slot) 0" by (cases slot) (simp_all add: entry_sector_def entry_addr_def)
  from set_current_slot_confined(2) [OF _ run out] assms(1) show ?thesis by (simp add: ota_ok_def)
qed

text \<open>What an update that returns has done.\<close>

lemma perform_update_installs:
  assumes ok: "ota_ok d view good s" and cs: "list_all (\<lambda>c. length c < 2 ^ 31) chunks"
    and run: "perform_update crcf d chunks s = (Ok (), t)"
    and slot: "slot = choose_update_slot crcf (ota_entries view s SlotZero) (ota_entries view s SlotOne)"
  shows "peek (view (ota_flash t)) (unat (slot_offset slot)) (length (concat chunks)) = concat chunks \<and>
    length (concat chunks) \<le> unat (slot_size slot) \<and>
    ota_entries view t =
      (ota_entries view s)(entry_of slot := committed_entry crcf (ota_entries view s) slot) \<and>
    (\<forall>x. \<not> in_partition (slot_partition slot) x \<and> \<not> in_partition OTA_DATA_PARTITION x \<longrightarrow>
      view (ota_flash t) x = view (ota_flash s) x)"
proof (intro conjI)
  from run obtain u v where p: "prepare_for_update crcf d s = (Ok (), u)"
    and w: "write_chunks d chunks u = (Ok (), v)" and c: "commit_update crcf d v = (Ok (), t)"
    by (cases rule: perform_update_split) auto
  note a = chunks_after_prepare [OF ok p cs w, folded slot]
  note prog = a(6) [OF refl]
  from prog show "length (concat chunks) \<le> unat (slot_size slot)" by (simp add: update_progress_def)
  from prog obtain off where st: "update_state v = Some (slot, off)" by (auto simp: update_progress_def)
  show "ota_entries view t =
      (ota_entries view s)(entry_of slot := committed_entry crcf (ota_entries view s) slot)"
    using commit_update_Ok [OF a(1) c] st a(4) by (metis option.inject prod.inject)
  have frame: "view (ota_flash t) x = view (ota_flash v) x" if "\<not> in_partition OTA_DATA_PARTITION x" for x
    using commit_update_confined [OF a(1,2) c] entry_sector_ota_data that by blast
  show "\<forall>x. \<not> in_partition (slot_partition slot) x \<and> \<not> in_partition OTA_DATA_PARTITION x \<longrightarrow>
      view (ota_flash t) x = view (ota_flash s) x"
    using frame a(5) by simp
  have "peek (view (ota_flash t)) (unat (slot_offset slot)) (length (concat chunks)) =
      peek (view (ota_flash v)) (unat (slot_offset slot)) (length (concat chunks))"
    using frame unat_slot_offset [of slot] by (intro peek_cong) auto
  with prog show "peek (view (ota_flash t)) (unat (slot_offset slot)) (length (concat chunks)) = concat chunks"
    by (simp add: update_progress_def)
qed

end
