(* ===== verification/Boot_Correct.thy ===== *)
theory Boot_Correct
  imports Boot Ota_Correct
begin

text \<open>
  What the start of the firmware does to the flash: the installation over the network refines
  the update of chunks that src/ota.rs is proved correct for, and whatever happens the flash
  outside the NVS, the updated slot and the OTA entries is left alone.
\<close>

section \<open>The installation\<close>

lemma callbacks_write_update: "callbacks (write_update d) cs = write_chunks d cs"
  by (induction cs) simp_all

text \<open>Chunks of a 32-bit device are shorter than half its address space.\<close>

definition small_chunks :: "('w, 'h) http_ops \<Rightarrow> bool" where
  "small_chunks h \<longleftrightarrow> (\<forall>w b w'. hc_fill_buf h w = Some (Inr b, w') \<longrightarrow> length b < 2 ^ 31)"

lemma small_chunks_all:
  "small_chunks h \<Longrightarrow> \<forall>c\<in>set cs. \<exists>w w'. hc_fill_buf h w = Some (Inr c, w') \<Longrightarrow>
     list_all (\<lambda>c. length c < 2 ^ 31) cs"
  unfolding small_chunks_def list_all_iff by blast

lemma install_update_split:
  fixes r :: "(unit, ('y, 'n, 'h, 'i, 'x) blind_error) outcome"
  assumes "install_update crcf d h random url (c, o') = Some (r, c', o'')"
  obtains (at_prepare) q where "prepare_for_update crcf d o' = (q, o'')" "q \<noteq> Ok ()"
  | (at_download) o1 q where "prepare_for_update crcf d o' = (Ok (), o1)"
      "req_buffered h random url (write_update d) (c, o1) = Some (q, c', o'')" "q \<noteq> Ok ()" "r \<noteq> Ok ()"
  | (at_commit) o1 o2 q where "prepare_for_update crcf d o' = (Ok (), o1)"
      "req_buffered h random url (write_update d) (c, o1) = Some (Ok (), c', o2)"
      "commit_update crcf d o2 = (q, o'')" "r = Ok () \<longleftrightarrow> q = Ok ()"
  using assms unfolding install_update_def
proof (cases rule: tryP_Some)
  case stops
  then obtain q where "prepare_for_update crcf d o' = (q, o'')" "q \<noteq> Ok ()"
    by (auto simp: returning_def zoom_def map_err_def split: prod.splits outcome.splits)
  then show ?thesis by (rule at_prepare)
next
  case (continues a t)
  then obtain o1 where p: "prepare_for_update crcf d o' = (Ok (), o1)" and t: "t = (c, o1)"
    by (auto simp: returning_def zoom_eq map_err_Ok_iff)
  from continues(2) show ?thesis
  proof (cases rule: tryP_Some)
    case stops
    with t obtain q where "req_buffered h random url (write_update d) (c, o1) = Some (q, c', o'')"
      "\<forall>a. convert_error from_callback_error q \<noteq> (Ok a :: (unit, ('y, 'n, 'h, 'i, 'x) blind_error) outcome)"
      by (auto simp: errP_iff)
    with p stops(3) show ?thesis by (intro at_download) auto
  next
    case (continues b u)
    with t obtain o2 c2 where d: "req_buffered h random url (write_update d) (c, o1) = Some (Ok (), c2, o2)"
      and u: "u = (c2, o2)"
      by (cases u) (auto simp: errP_Ok)
    from continues(2) u obtain q where "commit_update crcf d o2 = (q, o'')" "c2 = c'" "r = Ok () \<longleftrightarrow> q = Ok ()"
      by (auto simp: returning_def zoom_def map_err_def split: prod.splits outcome.splits)
    with p d show ?thesis by (intro at_commit) auto
  qed
qed

text \<open>A successful installation is an update with the chunks of the body of the final response.\<close>

lemma install_update_performs:
  assumes "install_update crcf d h random url (c, o') = Some (Ok (), c', o'')"
  obtains cl w cs where "final_response h url (http_stack (http_connect h random c)) cl w"
    "chunk_read h w cs (http_stack c')" "perform_update crcf d cs o' = (Ok (), o'')"
  using assms
proof (cases rule: install_update_split)
  case (at_prepare q)
  from assms show ?thesis
    using at_prepare by (auto simp: install_update_def tryP_Ok returning_def zoom_eq map_err_Ok_iff)
next
  case (at_commit o1 o2 q)
  from req_buffered_delivers [OF at_commit(2)] obtain cl w cs where
    cs: "final_response h url (http_stack (http_connect h random c)) cl w" "chunk_read h w cs (http_stack c')"
      "write_chunks d cs o1 = (Ok (), o2)"
    unfolding callbacks_write_update fst_conv snd_conv .
  from at_commit cs(3) have "perform_update crcf d cs o' = (Ok (), o'')"
    by (simp add: perform_update_def)
  with cs(1,2) show ?thesis by (rule that)
qed simp

text \<open>The download writes to the slot chosen by the preparation, however it ends.\<close>

lemma download_confined:
  assumes ok: "ota_ok d view good s" and small: "small_chunks h"
    and p: "prepare_for_update crcf d s = (Ok (), o1)"
    and b: "req_buffered h random url (write_update d) (c, o1) = Some (q, c', o2)"
  defines "slot \<equiv> choose_update_slot crcf (ota_entries view s SlotZero) (ota_entries view s SlotOne)"
  shows "ota_ok d view good o2 \<and> offset_in_slot o2 slot \<and> ota_entries view o2 = ota_entries view s \<and>
    (\<forall>x. \<not> in_partition (slot_partition slot) x \<longrightarrow> view (ota_flash o2) x = view (ota_flash s) x)"
proof -
  from req_buffered_called_on [OF b] obtain cs q' where "write_chunks d cs o1 = (q', o2)"
    "\<forall>c\<in>set cs. \<exists>w w'. hc_fill_buf h w = Some (Inr c, w')"
    by (auto simp: called_on_def callbacks_write_update)
  with chunks_after_prepare [OF ok p small_chunks_all [OF small], of cs] show ?thesis unfolding slot_def by blast
qed

text \<open>An installation, however it ends, is confined to the slot it updates and the entries.\<close>

lemma install_update_confined:
  assumes ok: "ota_ok d view good s" and small: "small_chunks h"
    and run: "install_update crcf d h random url (c, s) = Some (r, c', t)"
    and slot: "slot = choose_update_slot crcf (ota_entries view s SlotZero) (ota_entries view s SlotOne)"
    and out: "\<not> in_partition (slot_partition slot) x" "\<not> entry_sector (entry_of slot) x"
  shows "view (ota_flash t) x = view (ota_flash s) x"
proof -
  have written: "ota_ok d view good o2 \<and> offset_in_slot o2 slot \<and> view (ota_flash o2) x = view (ota_flash s) x"
    if p: "prepare_for_update crcf d s = (Ok (), o1)"
      and b: "req_buffered h random url (write_update d) (c, o1) = Some (q, c', o2)" for o1 o2 q
    using download_confined [OF ok small p b] slot out(1) by blast
  from run show ?thesis
  proof (cases rule: install_update_split)
    case (at_prepare q)
    with prepare_for_update_frame [OF ok] show ?thesis by auto
  next
    case (at_download o1 q)
    with written show ?thesis by blast
  next
    case (at_commit o1 o2 q)
    from written [OF at_commit(1,2)] have ok2: "ota_ok d view good o2" and st: "offset_in_slot o2 slot" and v: "view (ota_flash o2) x = view (ota_flash s) x"
      by simp_all
    from commit_update_confined [OF ok2 st at_commit(3) out(2)] v show ?thesis by simp
  qed
qed

section \<open>The look for an update\<close>

lemma fetch_build_date_Ok:
  assumes "fetch_build_date timestamp h random url c = Some (Ok v, c')"
  obtains body where "req h random 20 url c = Some (Ok body, c')" "utf8_valid body" "parse_i64 body = Inr v"
    "timestamp v \<noteq> None"
  using assms
  by (auto simp: fetch_build_date_def tryP_Ok errP_Ok returning_iff parse_build_date_def action_simps
      split: if_splits sum.splits)

text \<open>The published date a start acted on.\<close>

definition published ::
  "('f, 'y, 'w, 'am, 'cfg, 'i, 'x, 'r, 'h, 'n, 'o, 'dt, 'd, 't, 'bd, 'c) boot_env \<Rightarrow> int \<Rightarrow> bool" where
  "published env v \<longleftrightarrow>
     (\<exists>c body c'. req (be_http env) (be_random env) 20 (BUILD_DATE_URL (be_target env)) c = Some (Ok body, c') \<and>
       utf8_valid body \<and> parse_i64 body = Inr v)"

text \<open>A server that publishes one date only: every answer to the request for it is that date.\<close>

definition publishes ::
  "('f, 'y, 'w, 'am, 'cfg, 'i, 'x, 'r, 'h, 'n, 'o, 'dt, 'd, 't, 'bd, 'c) boot_env \<Rightarrow> int \<Rightarrow> bool" where
  "publishes env v \<longleftrightarrow>
     (\<forall>c body c'. req (be_http env) (be_random env) 20 (BUILD_DATE_URL (be_target env)) c = Some (Ok body, c') \<longrightarrow>
       parse_i64 body = Inr v)"

lemma publishes_unique: "publishes env v \<Longrightarrow> published env u \<Longrightarrow> u = v"
  unfolding publishes_def published_def by fastforce

lemma http_to_simps [simp]:
  "dv_flash (http_to c s) = dv_flash s" "dv_clock (http_to c s) = dv_clock s"
  "dv_update_pending (http_to c s) = dv_update_pending s"
  by (simp_all add: http_to_def)

lemma check_for_update_cases:
  fixes env :: "('f, 'y, 'w, 'am, 'cfg, 'i, 'x, 'r, 'h, 'n, 'o, 'dt, 'd, 't, 'bd, 'c) boot_env"
  assumes "check_for_update env s = Some (r, t)"
  obtains (unchanged) "dv_flash t = dv_flash s" "dv_update_pending t = dv_update_pending s" "dv_clock t = dv_clock s"
      "r = Ok () \<Longrightarrow> \<exists>v. published env v \<and> v \<le> be_build_date env"
  | (installs) v c c' o' and q :: "(unit, ('y, 'n, 'h, 'i, 'x) blind_error) outcome" where "published env v" "be_build_date env < v"
      "install_update (be_crc env) (be_flash env) (be_http env) (be_random env) (FIRMWARE_URL (be_target env))
         (c, ota_new (dv_flash s)) = Some (q, c', o')"
      "dv_flash t = ota_flash o'" "dv_clock t = dv_clock s" "r = Ok () \<longleftrightarrow> q = Ok ()"
      "dv_update_pending t = (if q = Ok () then True else dv_update_pending s)"
  using assms unfolding check_for_update_def
proof (cases rule: tryP_Some)
  case stops
  then show ?thesis by (intro unchanged) (auto simp: zoomP_iff)
next
  case (continues v u)
  then obtain c where f: "fetch_build_date (be_timestamp env) (be_http env) (be_random env)
      (BUILD_DATE_URL (be_target env)) (http_of s) =
        Some (Ok v :: (int, ('y, 'n, 'h, 'i, 'x) blind_error) outcome, c)" and u: "u = http_to c s"
    by (auto simp: zoomP_iff)
  from fetch_build_date_Ok [OF f] have v: "published env v" unfolding published_def by metis
  show ?thesis
  proof (cases "v > be_build_date env")
    case False
    with continues(2) u v show ?thesis by (intro unchanged) (auto simp: returning_iff ret_eq)
  next
    case True
    with continues(2) have
      "tryP (zoomP (\<lambda>s. (http_of s, ota_new (dv_flash s))) (\<lambda>(c, o') s. http_to c (s\<lparr>dv_flash := ota_flash o'\<rparr>))
         (install_update (be_crc env) (be_flash env) (be_http env) (be_random env) (FIRMWARE_URL (be_target env)))) (\<lambda>_.
       returning (modify (\<lambda>s. s\<lparr>dv_update_pending := True\<rparr>))) u = Some (r, t)" by simp
    then show ?thesis
    proof (cases rule: tryP_Some)
      case stops
      then obtain c' o' and q :: "(unit, ('y, 'n, 'h, 'i, 'x) blind_error) outcome" where i: "install_update (be_crc env) (be_flash env) (be_http env) (be_random env)
          (FIRMWARE_URL (be_target env)) (http_of u, ota_new (dv_flash u)) = Some (q, c', o')"
        and t: "t = http_to c' (u\<lparr>dv_flash := ota_flash o'\<rparr>)" and q: "q \<noteq> Ok ()"
        by (auto simp: zoomP_iff)
      from u have "dv_flash u = dv_flash s" by simp
      note i' = i [unfolded this]
      show ?thesis by (rule installs [OF v True i']) (use stops(3) q u t in auto)
    next
      case (continues a w)
      then obtain c' o' where i: "install_update (be_crc env) (be_flash env) (be_http env) (be_random env)
          (FIRMWARE_URL (be_target env)) (http_of u, ota_new (dv_flash u)) =
            Some (Ok () :: (unit, ('y, 'n, 'h, 'i, 'x) blind_error) outcome, c', o')"
        and w: "w = http_to c' (u\<lparr>dv_flash := ota_flash o'\<rparr>)"
        by (auto simp: zoomP_iff)
      from continues(2) w have "r = Ok ()" "t = w\<lparr>dv_update_pending := True\<rparr>"
        by (simp_all add: returning_iff modify_eq)
      with i u w v True show ?thesis by (intro installs) auto
    qed
  qed
qed

section \<open>The whole start\<close>

text \<open>Everything of the device but its network side.\<close>

definition same_storage :: "('f, 'w, 'am, 'cfg, 'r) device \<Rightarrow> ('f, 'w, 'am, 'cfg, 'r) device \<Rightarrow> bool" where
  "same_storage s t \<longleftrightarrow>
     dv_flash t = dv_flash s \<and> dv_update_pending t = dv_update_pending s \<and> dv_clock t = dv_clock s"

lemma same_storage_refl [simp]: "same_storage s s"
  by (simp add: same_storage_def)

lemma same_storage_trans: "same_storage s t \<Longrightarrow> same_storage t u \<Longrightarrow> same_storage s u"
  by (simp add: same_storage_def)

lemma expect_same_storage: "returning (expect x) s = Some (r, t) \<Longrightarrow> same_storage s t"
  by (simp add: returning_iff expect_iff)

lemma on_wifi_same_storage: "returning (on_wifi m) s = Some (r, t) \<Longrightarrow> same_storage s t"
  by (auto simp: returning_iff zoom_eq same_storage_def)

lemma resolve_same_storage: "resolve_server env s = Some (r, t) \<Longrightarrow> same_storage s t"
  by (auto simp: resolve_server_def zoomP_iff same_storage_def)

lemma await_same_storage: "await_connection dev s = Some (r, t) \<Longrightarrow> same_storage s t"
  by (auto simp: await_connection_def same_storage_def)

text \<open>The part of the start before the look for an update, without and with the credentials, and the part after it.\<close>

lemma tail_cases:
  assumes "tryP (returning (modify (\<lambda>s. s\<lparr>dv_clock := configure_once api (dv_clock s)\<rparr>))) (\<lambda>_.
     tryP (resolve_server env) (\<lambda>client. returning (ret (client, coordinates)))) s = Some (r, t)"
  shows "same_storage (s\<lparr>dv_clock := configure_once api (dv_clock s)\<rparr>) t"
  using assms
proof (cases rule: tryP_Some)
  case (continues a u)
  then have u: "u = s\<lparr>dv_clock := configure_once api (dv_clock s)\<rparr>" by (simp add: returning_iff modify_eq)
  from continues(2) show ?thesis
  proof (cases rule: tryP_Some)
    case (stops q)
    from resolve_same_storage [OF stops(1)] u show ?thesis by simp
  next
    case (continues b v)
    from resolve_same_storage [OF continues(1)] continues(2) u show ?thesis
      by (simp add: returning_iff ret_eq)
  qed
qed (simp add: returning_iff modify_eq)

lemma configured_once: "configured (configure_once api c)"
  by (simp add: configure_once_def configure_def Let_def)

lemma start_after_credentials_cases:
  fixes env :: "('f, 'y, 'w, 'am, 'cfg, 'i, 'x, 'r, 'h, 'n, 'o, 'dt, 'd, 't, 'bd, 'c) boot_env"
  assumes "start_after_credentials env ssid password coordinates s = Some (r, t)"
  obtains (offline) "same_storage s t" "\<And>x. r \<noteq> Ok x"
  | (checked) s1 s2 and q :: "(unit, ('y, 'n, 'h, 'i, 'x) blind_error) outcome"
    where "same_storage s s1" "check_for_update env s1 = Some (q, s2)" "dv_flash t = dv_flash s2"
      "dv_update_pending t = dv_update_pending s2"
      "\<And>x. r = Ok x \<Longrightarrow> q = Ok () \<and> configured (dv_clock t)"
      "dv_clock t = dv_clock s2 \<or> dv_clock t = configure_once (be_time env) (dv_clock s2)"
  using assms unfolding start_after_credentials_def
proof (cases rule: tryP_Some)
  case (stops q)
  from on_wifi_same_storage [OF stops(1)] stops(3) show ?thesis by (rule offline)
next
  case (continues a u)
  note su = on_wifi_same_storage [OF continues(1)]
  from continues(2) show ?thesis
  proof (cases rule: tryP_Some)
    case (stops q)
    from same_storage_trans [OF su await_same_storage [OF stops(1)]] stops(3) show ?thesis by (rule offline)
  next
    case (continues b v)
    note sv = same_storage_trans [OF su await_same_storage [OF continues(1)]]
    from continues(2) show ?thesis
    proof (cases rule: tryP_Some)
      case (stops q)
      show ?thesis by (rule checked [OF sv stops(1) refl refl]) (use stops(3) in blast, simp)
    next
      case (continues c w)
      from tail_cases [OF continues(2)] show ?thesis
        by (intro checked [OF sv continues(1)]) (simp_all add: same_storage_def configured_once)
    qed
  qed
qed

lemma main_fallible_cases:
  fixes env :: "('f, 'y, 'w, 'am, 'cfg, 'i, 'x, 'r, 'h, 'n, 'o, 'dt, 'd, 't, 'bd, 'c) boot_env"
  assumes "main_fallible env s = Some (r, t)"
  obtains (constants) "t = s" "\<And>x. r \<noteq> Ok x"
  | (credentials) n and q :: "(bytes \<times> bytes, ('y, 'n, 'h, 'i, 'x) blind_error) outcome"
    where "get_credentials (be_flash env) (be_ssid env) (be_password env) (nvs_new (dv_flash s)) = (q, n)"
      "t = s\<lparr>dv_flash := nvs_flash n\<rparr>" "\<And>x. r \<noteq> Ok x"
  | (online) ssid password coordinates n
    where "get_credentials (be_flash env) (be_ssid env) (be_password env) (nvs_new (dv_flash s)) =
        (Ok (ssid, password) :: (bytes \<times> bytes, ('y, 'n, 'h, 'i, 'x) blind_error) outcome, n)"
      "start_after_credentials env ssid password coordinates (s\<lparr>dv_flash := nvs_flash n\<rparr>) = Some (r, t)"
  using assms unfolding main_fallible_def
proof (cases rule: tryP_Some)
  case (stops q)
  then show ?thesis by (intro constants) (simp_all add: returning_iff expect_iff)
next
  case (continues a u)
  then have u: "u = s" by (simp add: returning_iff expect_iff)
  from continues(2) show ?thesis
  proof (cases rule: tryP_Some)
    case (stops q)
    with u show ?thesis by (intro constants) (simp_all add: returning_iff expect_iff)
  next
    case (continues coordinates v)
    then have v: "v = s" using u by (simp add: returning_iff expect_iff)
    from continues(2) show ?thesis
    proof (cases rule: tryP_Some)
      case (stops q)
      with v obtain n where "get_credentials (be_flash env) (be_ssid env) (be_password env) (nvs_new (dv_flash s)) = (q, n)"
        "t = s\<lparr>dv_flash := nvs_flash n\<rparr>"
        by (auto simp: returning_iff zoom_eq)
      then show ?thesis using stops(3) by (rule credentials)
    next
      case (continues sp w)
      obtain ssid password where sp: "sp = (ssid, password)" by (rule prod.exhaust)
      with continues(1) v obtain n where "get_credentials (be_flash env) (be_ssid env) (be_password env)
          (nvs_new (dv_flash s)) = (Ok (ssid, password) :: (bytes \<times> bytes, ('y, 'n, 'h, 'i, 'x) blind_error) outcome, n)"
        "w = s\<lparr>dv_flash := nvs_flash n\<rparr>"
        by (auto simp: returning_iff zoom_eq)
      with continues(2) sp show ?thesis
        by (intro online) simp_all
    qed
  qed
qed

text \<open>The flash at the end of a start: as the credentials left it, or as an installation from there left it.\<close>

definition nvs_only :: "memory \<Rightarrow> memory \<Rightarrow> bool" where
  "nvs_only m m' \<longleftrightarrow> (\<forall>x. \<not> in_partition NVS_PARTITION x \<longrightarrow> m' x = m x)"

lemma nvs_only_refl [simp]: "nvs_only m m"
  by (simp add: nvs_only_def)

lemma nvs_only_stored_entry: "nvs_only m m' \<Longrightarrow> stored_entry m' slot = stored_entry m slot"
  by (rule stored_entry_cong) (simp add: nvs_only_def)

lemma get_credentials_flash:
  assumes "flash_ok d view good f" "get_credentials d SSID PASSWORD (nvs_new f) = (q, n)"
  shows "flash_ok d view good (nvs_flash n)" "nvs_only (view f) (view (nvs_flash n))"
proof -
  note n = nvs_confinedD [OF nvs_confined_get_credentials nvs_ok_new [OF assms(1)] assms(2)]
  from n(1) show "flash_ok d view good (nvs_flash n)" by (simp add: nvs_ok_def)
  from n(2) show "nvs_only (view f) (view (nvs_flash n))" by (simp add: nvs_only_def nvs_new_def)
qed

lemma main_fallible_flash:
  fixes env :: "('f, 'y, 'w, 'am, 'cfg, 'i, 'x, 'r, 'h, 'n, 'o, 'dt, 'd, 't, 'bd, 'c) boot_env"
  assumes ok: "flash_ok (be_flash env) view good (dv_flash s)" and run: "main_fallible env s = Some (r, t)"
  obtains (no_install) "nvs_only (view (dv_flash s)) (view (dv_flash t))" "dv_update_pending t = dv_update_pending s"
      "\<And>x. r = Ok x \<Longrightarrow> (\<exists>v. published env v \<and> v \<le> be_build_date env) \<and> configured (dv_clock t)"
  | (installs) f v c c' o' and q :: "(unit, ('y, 'n, 'h, 'i, 'x) blind_error) outcome" where
      "flash_ok (be_flash env) view good f" "nvs_only (view (dv_flash s)) (view f)"
      "published env v" "be_build_date env < v"
      "install_update (be_crc env) (be_flash env) (be_http env) (be_random env) (FIRMWARE_URL (be_target env))
         (c, ota_new f) = Some (q, c', o')" "dv_flash t = ota_flash o'"
      "\<And>x. r = Ok x \<Longrightarrow> q = Ok () \<and> dv_update_pending t \<and> configured (dv_clock t)"
  using run
proof (cases rule: main_fallible_cases)
  case constants
  then show ?thesis by (intro no_install) (simp, simp, blast)
next
  case (credentials n q)
  from get_credentials_flash [OF ok credentials(1)] credentials(2,3) show ?thesis
    by (intro no_install) (simp, simp, blast)
next
  case (online ssid password coordinates n)
  note n = get_credentials_flash [OF ok online(1)]
  from online(2) show ?thesis
  proof (cases rule: start_after_credentials_cases)
    case offline
    with n show ?thesis by (intro no_install) (simp add: same_storage_def, simp add: same_storage_def, blast)
  next
    case (checked s1 s2 q)
    then have s1: "dv_flash s1 = nvs_flash n" "dv_update_pending s1 = dv_update_pending s"
      by (simp_all add: same_storage_def)
    from checked(2) show ?thesis
    proof (cases rule: check_for_update_cases)
      case unchanged
      with checked s1 n show ?thesis by (intro no_install) auto
    next
      case (installs v c c' o' q')
      note i = installs(3) [unfolded s1(1)]
      show ?thesis
      proof (rule that(2) [OF n installs(1,2) i])
        show "dv_flash t = ota_flash o'" using checked(3) installs(4) by simp
        show "\<And>x. r = Ok x \<Longrightarrow> q' = Ok () \<and> dv_update_pending t \<and> configured (dv_clock t)"
          using checked(4,5) installs(6,7) by auto
      qed
    qed
  qed
qed

lemma main_fallible_confined:
  assumes ok: "flash_ok (be_flash env) view good (dv_flash s)" and small: "small_chunks (be_http env)"
    and run: "main_fallible env s = Some (r, t)"
    and slot: "slot = choose_update_slot (be_crc env) (stored_entry (view (dv_flash s)) SlotZero)
      (stored_entry (view (dv_flash s)) SlotOne)"
    and out: "\<not> in_partition NVS_PARTITION x" "\<not> in_partition (slot_partition slot) x"
      "\<not> entry_sector (entry_of slot) x"
  shows "view (dv_flash t) x = view (dv_flash s) x"
  using ok run
proof (cases rule: main_fallible_flash)
  case no_install
  with out(1) show ?thesis by (simp add: nvs_only_def)
next
  case (installs f v c c' o' q)
  have "ota_ok (be_flash env) view good (ota_new f)"
    using installs(1) by (simp add: ota_ok_def ota_new_def)
  from install_update_confined [OF this small installs(5) _ out(2,3)] slot
  have "view (ota_flash o') x = view f x"
    using nvs_only_stored_entry [OF installs(2)] by (simp add: ota_entries_def ota_new_def)
  with installs(2,6) out(1) show ?thesis by (simp add: nvs_only_def)
qed

section \<open>The clock\<close>

lemma main_fallible_clock:
  assumes "main_fallible env s = Some (r, t)"
  shows "dv_clock t = dv_clock s \<or> dv_clock t = configure_once (be_time env) (dv_clock s)"
  using assms
proof (cases rule: main_fallible_cases)
  case (online ssid password coordinates n)
  from online(2) show ?thesis
  proof (cases rule: start_after_credentials_cases)
    case (checked s1 s2 q)
    from checked(2) have "dv_clock s2 = dv_clock s1" by (cases rule: check_for_update_cases) simp_all
    with checked(1,6) show ?thesis by (simp add: same_storage_def)
  qed (simp add: same_storage_def)
qed simp_all

lemma main_fallible_configured:
  "main_fallible env s = Some (Ok x, t) \<Longrightarrow> configured (dv_clock t)"
  by (auto simp: main_fallible_def start_after_credentials_def tryP_Ok returning_iff action_simps configured_once same_storage_def
      dest!: resolve_same_storage)

end
