(* ===== verification/Controller_Invariants.thy ===== *)
theory Controller_Invariants
  imports Controller
begin

text \<open>
  The invariants of the running controller over \<open>controller_reach\<close>: where the blind ends up, that it
  is wanted there by the schedule, that it never leaves its range on the way, and that the
  motor carries out the commands in the order received. They are about the \<open>settled\<close> driver, after
  the command in progress.
\<close>

section \<open>Invariants\<close>

definition positioning :: "step_command \<Rightarrow> bool" where
  "positioning c \<longleftrightarrow> c = Raise \<or> c = Lower"

definition pending :: "('q \<Rightarrow> step_command list) \<Rightarrow> ('q, 'dt) controller \<Rightarrow> step_command list" where
  "pending contents s =
     contents (ct_queue s) @ (case sch_send (ct_schedule s) of None \<Rightarrow> [] | Some c \<Rightarrow> [c])"

text \<open>A turn of the schedule as the invariants see it.\<close>

definition records_decision :: "'dt schedule \<Rightarrow> 'dt schedule \<Rightarrow> bool" where
  "records_decision s t \<longleftrightarrow>
     (sch_state t = sch_state s \<and> sch_send t = sch_send s) \<or>
     (\<exists>a. positioning a \<and> sch_state s \<noteq> Some a \<and> sch_state t = Some a \<and> sch_send t = Some a)"

lemma schedule_turn_records:
  assumes "schedule_turn api sol coords raise c s = (r, t)"
  shows "records_decision s t"
  using assms
  by (cases rule: schedule_turn_cases) (auto simp: records_decision_def positioning_def)

text \<open>The driver once the command being carried out is done.\<close>

definition settled :: "('q, 'dt) controller \<Rightarrow> driver" where
  "settled s = drive (ct_moves s) (ct_driver s)"

lemma settled_simps [simp]:
  "settled (s\<lparr>ct_schedule := sch\<rparr>) = settled s" "settled (s\<lparr>ct_queue := q\<rparr>) = settled s"
  "settled (s\<lparr>ct_raised := r\<rparr>) = settled s" "settled (controller_init q) = driver_init"
  "settled (s\<lparr>ct_moves := es\<rparr>) = drive es (ct_driver s)"
  "ct_moves s = e # es \<Longrightarrow> settled (s\<lparr>ct_moves := es, ct_driver := driver_event e (ct_driver s)\<rparr>) = settled s"
  by (simp_all add: settled_def controller_init_def drive_def)

lemma settled_idle: "ct_moves s = [] \<Longrightarrow> settled s = ct_driver s"
  by (simp add: settled_def)

text \<open>With positioning commands only, the blind ends up where the flag says.\<close>

definition position_inv :: "('q \<Rightarrow> step_command list) \<Rightarrow> ('q, 'dt) controller \<Rightarrow> bool" where
  "position_inv contents s \<longleftrightarrow>
     list_all positioning (pending contents s) \<and> at_rest (settled s) \<and>
     travel (settled s) = raised_travel (ct_raised s)"

lemma manual_travel_positioning: "positioning c \<Longrightarrow> manual_travel [c] = 0"
  by (auto simp: positioning_def)

lemma position_inv_step:
  assumes ch: "channel_contract ch contents" and web: "\<And>c. web c \<Longrightarrow> positioning c"
    and step: "controller_step api sol coords raise ch web s t" and inv: "position_inv contents s"
  shows "position_inv contents t"
  using step
proof (cases rule: controller_step_cases)
  case (schedule_turns clock r sch)
  from schedule_turn_records [OF schedule_turns(3)] schedule_turns(1,2) inv show ?thesis
    by (auto simp: records_decision_def position_inv_def pending_def)
next
  case (schedule_sends c q)
  with channel_sendD [OF ch schedule_sends(3)] inv show ?thesis
    by (auto simp: position_inv_def pending_def)
next
  case (web_sends c q)
  with channel_sendD [OF ch web_sends(3)] web inv show ?thesis
    by (auto simp: position_inv_def pending_def)
next
  case (motor_receives c q raised es)
  have "contents (ct_queue s) = c # contents q" by (rule channel_receiveD(1) [OF ch motor_receives(3)])
  moreover from this inv have c: "manual_travel [c] = 0"
    by (auto simp: position_inv_def pending_def intro: manual_travel_positioning)
  moreover have "at_rest (ct_driver s)" using inv motor_receives(2) by (simp add: position_inv_def settled_idle)
  from motor_command_position [OF this, of c "ct_raised s"] motor_receives(4) c
  have "travel (drive es (ct_driver s)) - travel (ct_driver s) = raised_travel raised - raised_travel (ct_raised s)"
    "at_rest (drive es (ct_driver s))" by simp_all
  ultimately show ?thesis
    using inv motor_receives(1,2) by (auto simp: position_inv_def pending_def settled_idle)
next
  case (motor_moves e es)
  with inv show ?thesis by (simp add: position_inv_def pending_def)
qed

lemma position_inv_reach:
  assumes "channel_contract ch contents" "\<And>c. web c \<Longrightarrow> positioning c"
  shows "controller_reach api sol coords raise ch contents web s \<Longrightarrow> position_inv contents s"
proof (induction rule: controller_reach.induct)
  case (start q)
  then show ?case
    by (simp add: position_inv_def pending_def at_rest_def driver_init_def raised_travel_def)
      (simp add: controller_init_def schedule_init_def)
next
  case (steps s t)
  show ?case by (rule position_inv_step [OF assms steps(2) steps.IH])
qed

text \<open>Without web commands, carrying out what is pending brings the blind where the schedule wants it.\<close>

definition follows_schedule :: "('q \<Rightarrow> step_command list) \<Rightarrow> ('q, 'dt) controller \<Rightarrow> bool" where
  "follows_schedule contents s \<longleftrightarrow>
     (case sch_state (ct_schedule s) of
        None \<Rightarrow> pending contents s = [] \<and> ct_raised s
      | Some a \<Rightarrow> positioning a \<and> last_position (ct_raised s) (pending contents s) = (a = Raise))"

lemma last_position_append:
  "last_position raised (xs @ ys) = last_position (last_position raised xs) ys"
  by (induction raised xs rule: last_position.induct) simp_all

lemma follows_schedule_step:
  assumes ch: "channel_contract ch contents"
    and step: "controller_step api sol coords raise ch (\<lambda>_. False) s t" and inv: "follows_schedule contents s"
  shows "follows_schedule contents t"
  using step
proof (cases rule: controller_step_cases)
  case (schedule_turns clock r sch)
  from schedule_turn_records [OF schedule_turns(3)] schedule_turns(1,2) inv show ?thesis
    by (auto simp: records_decision_def follows_schedule_def pending_def positioning_def last_position_append
        split: option.splits)
next
  case (schedule_sends c q)
  with channel_sendD [OF ch schedule_sends(3)] have "pending contents t = pending contents s"
    by (simp add: pending_def)
  with inv schedule_sends(1) show ?thesis by (simp add: follows_schedule_def split: option.splits)
next
  case (motor_receives c q raised es)
  have "contents (ct_queue s) = c # contents q" by (rule channel_receiveD(1) [OF ch motor_receives(3)])
  then have p: "pending contents s = c # pending contents t" using motor_receives(1) by (simp add: pending_def)
  have "raised = last_position (ct_raised s) [c]"
    using fst_motor_command [of MICROSTEPS c "ct_raised s"] motor_receives(4) by simp
  with inv p motor_receives(1) last_position_Cons [of "ct_raised s" c "pending contents t"] show ?thesis
    by (auto simp: follows_schedule_def split: option.splits)
next
  case (motor_moves e es)
  then have "pending contents t = pending contents s" by (simp add: pending_def)
  with inv motor_moves(1) show ?thesis by (simp add: follows_schedule_def split: option.splits)
qed simp

lemma follows_schedule_reach:
  assumes "channel_contract ch contents"
  shows "controller_reach api sol coords raise ch contents (\<lambda>_. False) s \<Longrightarrow> follows_schedule contents s"
proof (induction rule: controller_reach.induct)
  case (start q)
  then show ?case by (simp add: follows_schedule_def pending_def controller_init_def schedule_init_def)
next
  case (steps s t)
  show ?case by (rule follows_schedule_step [OF assms steps(2) steps.IH])
qed

text \<open>Where the blind is when the motor has nothing more to do.\<close>

definition controller_idle :: "('q \<Rightarrow> step_command list) \<Rightarrow> ('q, 'dt) controller \<Rightarrow> bool" where
  "controller_idle contents s \<longleftrightarrow> contents (ct_queue s) = [] \<and> sch_send (ct_schedule s) = None \<and> ct_moves s = []"

lemma idle_pending: "controller_idle contents s \<longleftrightarrow> pending contents s = [] \<and> ct_moves s = []"
  by (auto simp: controller_idle_def pending_def split: option.splits)

lemma idle_position:
  assumes "channel_contract ch contents" "controller_reach api sol coords raise ch contents (\<lambda>_. False) s"
    and "controller_idle contents s"
  shows "travel (ct_driver s) = (if sch_state (ct_schedule s) = Some Lower then - full_travel else 0)"
proof -
  have "position_inv contents s" by (rule position_inv_reach [OF assms(1) _ assms(2)]) simp
  moreover have "follows_schedule contents s" by (rule follows_schedule_reach [OF assms(1,2)])
  ultimately show ?thesis
    using assms(3)
    by (auto simp: position_inv_def follows_schedule_def idle_pending raised_travel_def positioning_def settled_idle
        split: option.splits)
qed

lemma controller_reach_rtranclp:
  "(controller_step api sol coords raise ch web)\<^sup>*\<^sup>* s t \<Longrightarrow>
    controller_reach api sol coords raise ch contents web s \<Longrightarrow>
    controller_reach api sol coords raise ch contents web t"
  by (induction rule: rtranclp_induct) (auto intro: steps)

section \<open>The blind on its way\<close>

text \<open>Without a change of direction the motor moves one way, so that the blind stays between where
  a command found it and where it leaves it.\<close>

lemma drive_one_way:
  "\<forall>l. Set_Dir l \<notin> set es \<Longrightarrow> pin_dir (drive es p) = pin_dir p \<and>
     (if pin_dir p = High then travel p \<le> travel (drive es p) else travel (drive es p) \<le> travel p)"
proof (induction es arbitrary: p)
  case Nil
  then show ?case by simp
next
  case (Cons e es)
  have "drive (e # es) p = drive es (driver_event e p)" by (simp add: drive_def)
  moreover have "pin_dir (driver_event e p) = pin_dir p"
    "if pin_dir p = High then travel p \<le> travel (driver_event e p) else travel (driver_event e p) \<le> travel p"
    using Cons.prems by (cases e; auto simp: driver_event_def)+
  moreover have "\<forall>l. Set_Dir l \<notin> set es" using Cons.prems by simp
  ultimately show ?case using Cons.IH [of "driver_event e p"] by (auto split: if_splits)
qed

lemma step_events_no_dir: "Set_Dir l \<notin> set (step_events n)"
  by (simp add: step_events_def)

lemma drive_between:
  assumes "motor_command m msg raised = (raised1, es1 @ es2)"
  shows "min (travel p) (travel (drive (es1 @ es2) p)) \<le> travel (drive es1 p) \<and>
    travel (drive es1 p) \<le> max (travel p) (travel (drive (es1 @ es2) p))"
proof (cases es1)
  case (Cons e es)
  with assms have e: "e = Set_Dir (fst (dir_and_steps msg))"
    and rest: "es @ es2 = Set_En Low # step_events (snd (dir_and_steps msg) * m) @ [Set_En High]"
    by (simp_all add: motor_command_def split_beta Let_def split: if_splits)
  have no_dir: "\<forall>l. Set_Dir l \<notin> set (es @ es2)"
    unfolding rest by (simp add: step_events_no_dir)
  define q where "q = driver_event e p"
  have q: "travel q = travel p" "drive (e # xs) p = drive xs q" for xs
    by (simp_all add: q_def drive_def e driver_event_def)
  from drive_one_way [of es q] drive_one_way [of es2 "drive es q"] no_dir show ?thesis
    by (auto simp: Cons q split: if_splits)
qed simp

text \<open>The whole way of the command in progress lies in the range of the blind.\<close>

definition way_in_range :: "('q, 'dt) controller \<Rightarrow> bool" where
  "way_in_range s \<longleftrightarrow>
     (\<forall>es1 es2. ct_moves s = es1 @ es2 \<longrightarrow>
        - full_travel \<le> travel (drive es1 (ct_driver s)) \<and> travel (drive es1 (ct_driver s)) \<le> 0)"

lemma way_in_rangeD:
  assumes "way_in_range s" "ct_moves s = es1 @ es2"
  shows "- full_travel \<le> travel (drive es1 (ct_driver s)) \<and> travel (drive es1 (ct_driver s)) \<le> 0"
  using assms unfolding way_in_range_def by blast

lemma raised_travel_range: "- full_travel \<le> raised_travel r \<and> raised_travel r \<le> 0"
  by (simp add: raised_travel_def)

lemma way_in_range_step:
  assumes "channel_contract ch contents" "\<And>c. web c \<Longrightarrow> positioning c"
    and step: "controller_step api sol coords raise ch web s t"
    and inv: "position_inv contents s" "way_in_range s"
  shows "way_in_range t"
  using step
proof (cases rule: controller_step_cases)
  case (motor_receives c q raised es)
  have "position_inv contents t" by (rule position_inv_step [OF assms(1-4)])
  then have there: "travel (drive es (ct_driver s)) = raised_travel raised"
    using motor_receives(1) by (simp add: position_inv_def settled_def)
  have here: "travel (ct_driver s) = raised_travel (ct_raised s)"
    using inv(1) motor_receives(2) by (simp add: position_inv_def settled_idle)
  show ?thesis
    unfolding way_in_range_def
  proof (intro allI impI)
    fix es1 es2
    assume "ct_moves t = es1 @ es2"
    then have es: "es = es1 @ es2" using motor_receives(1) by simp
    have "min (raised_travel (ct_raised s)) (raised_travel raised) \<le> travel (drive es1 (ct_driver s)) \<and>
        travel (drive es1 (ct_driver s)) \<le> max (raised_travel (ct_raised s)) (raised_travel raised)"
      using drive_between [OF motor_receives(4) [unfolded es], of "ct_driver s"] there here by (simp add: es)
    with raised_travel_range [of raised] raised_travel_range [of "ct_raised s"]
    show "- full_travel \<le> travel (drive es1 (ct_driver t)) \<and> travel (drive es1 (ct_driver t)) \<le> 0"
      using motor_receives(1) by (auto simp: min_def max_def split: if_splits)
  qed
next
  case (motor_moves e es)
  show ?thesis
    unfolding way_in_range_def
  proof (intro allI impI)
    fix es1 es2
    assume "ct_moves t = es1 @ es2"
    then have "ct_moves s = (e # es1) @ es2" using motor_moves by simp
    with inv(2) have "- full_travel \<le> travel (drive (e # es1) (ct_driver s)) \<and>
        travel (drive (e # es1) (ct_driver s)) \<le> 0"
      by (rule way_in_rangeD)
    then show "- full_travel \<le> travel (drive es1 (ct_driver t)) \<and> travel (drive es1 (ct_driver t)) \<le> 0"
      using motor_moves(1) by (simp add: drive_def)
  qed
qed (use inv(2) in \<open>simp_all add: way_in_range_def\<close>)

lemma way_in_range_reach:
  assumes "channel_contract ch contents" "\<And>c. web c \<Longrightarrow> positioning c"
  shows "controller_reach api sol coords raise ch contents web s \<Longrightarrow> way_in_range s"
proof (induction rule: controller_reach.induct)
  case (start q)
  then show ?case by (simp add: way_in_range_def controller_init_def driver_init_def)
next
  case (steps s t)
  show ?case
    by (rule way_in_range_step [OF assms steps(2) position_inv_reach [OF assms steps(1)] steps.IH])
qed

section \<open>The commands carried out\<close>

lemma motor_run_append:
  "motor_run m raised (xs @ ys) =
     (fst (motor_run m (fst (motor_run m raised xs)) ys),
      snd (motor_run m raised xs) @ snd (motor_run m (fst (motor_run m raised xs)) ys))"
  by (induction xs arbitrary: raised) (simp_all add: split_beta)

text \<open>
  The refinement of the motor task alone: the controller has made a part of the trace of pin
  changes and waits that the task makes for the commands received so far, and has the rest to do.
\<close>

definition motor_history :: "step_command list \<Rightarrow> ('q, 'dt) controller \<Rightarrow> bool" where
  "motor_history rcvd s \<longleftrightarrow>
     (\<exists>past. motor_task MICROSTEPS rcvd = (ct_raised s, past @ ct_moves s) \<and> ct_driver s = drive past driver_init)"

text \<open>The commands asked for, received or pending, come from the web or the schedule.\<close>

definition asked_for :: "(step_command \<Rightarrow> bool) \<Rightarrow> step_command list \<Rightarrow> ('q, 'dt) controller \<Rightarrow> bool" where
  "asked_for web cs s \<longleftrightarrow>
     list_all (\<lambda>c. web c \<or> positioning c) cs \<and>
     ((\<forall>c. \<not> web c) \<longrightarrow>
        distinct_adj cs \<and> sch_state (ct_schedule s) = (if cs = [] then None else Some (last cs)))"

lemma asked_for_snoc:
  assumes "asked_for web cs s" "positioning a" "sch_state (ct_schedule s) \<noteq> Some a"
    "sch_state (ct_schedule t) = Some a"
  shows "asked_for web (cs @ [a]) t"
  using assms by (auto simp: asked_for_def distinct_adj_append_iff split: if_splits)

lemma asked_for_same: "sch_state (ct_schedule t) = sch_state (ct_schedule s) \<Longrightarrow> asked_for web cs s \<Longrightarrow> asked_for web cs t"
  by (simp add: asked_for_def)

lemma history_step:
  assumes ch: "channel_contract ch contents"
    and step: "controller_step api sol coords raise ch web s t"
    and inv: "motor_history rcvd s" "asked_for web (rcvd @ pending contents s) s"
  shows "\<exists>rcvd. motor_history rcvd t \<and> asked_for web (rcvd @ pending contents t) t"
  using step
proof (cases rule: controller_step_cases)
  case (schedule_turns clock r sch)
  have "motor_history rcvd t" using inv(1) schedule_turns(1) by (simp add: motor_history_def)
  moreover have "asked_for web (rcvd @ pending contents t) t"
    using schedule_turn_records [OF schedule_turns(3)]
  proof (unfold records_decision_def, elim disjE exE conjE)
    assume "sch_state sch = sch_state (ct_schedule s)" "sch_send sch = sch_send (ct_schedule s)"
    with inv(2) schedule_turns(1) show ?thesis by (auto simp: pending_def elim!: asked_for_same [rotated])
  next
    fix a
    assume a: "positioning a" "sch_state (ct_schedule s) \<noteq> Some a" "sch_state sch = Some a" "sch_send sch = Some a"
    have "pending contents t = pending contents s @ [a]"
      using schedule_turns(1,2) a(4) by (simp add: pending_def)
    with asked_for_snoc [OF inv(2) a(1,2), of t] a(3) schedule_turns(1) show ?thesis by simp
  qed
  ultimately show ?thesis by blast
next
  case (schedule_sends c q)
  with channel_sendD [OF ch schedule_sends(3)] have "pending contents t = pending contents s"
    by (simp add: pending_def)
  with inv schedule_sends(1) show ?thesis
    by (intro exI [of _ rcvd]) (simp add: motor_history_def asked_for_def)
next
  case (web_sends c q)
  with channel_sendD [OF ch web_sends(3)] inv show ?thesis
    by (intro exI [of _ rcvd]) (auto simp: motor_history_def asked_for_def pending_def)
next
  case (motor_receives c q raised es)
  have "contents (ct_queue s) = c # contents q" by (rule channel_receiveD(1) [OF ch motor_receives(3)])
  then have p: "rcvd @ pending contents s = (rcvd @ [c]) @ pending contents t"
    using motor_receives(1) by (simp add: pending_def)
  have "motor_task MICROSTEPS (rcvd @ [c]) = (raised, snd (motor_task MICROSTEPS rcvd) @ es)"
    using inv(1) motor_receives(4) by (auto simp: motor_history_def motor_task_def motor_run_append)
  then have "motor_history (rcvd @ [c]) t"
    using inv(1) motor_receives(1,2) by (auto simp: motor_history_def)
  moreover have "asked_for web ((rcvd @ [c]) @ pending contents t) t"
    using inv(2) motor_receives(1) unfolding p by (simp add: asked_for_def)
  ultimately show ?thesis by blast
next
  case (motor_moves e es)
  have "motor_history rcvd t"
  proof -
    obtain past where "motor_task MICROSTEPS rcvd = (ct_raised s, past @ ct_moves s)"
      "ct_driver s = drive past driver_init"
      using inv(1) unfolding motor_history_def by blast
    with motor_moves show ?thesis
      unfolding motor_history_def by (intro exI [of _ "past @ [e]"]) (simp add: drive_def)
  qed
  moreover have "asked_for web (rcvd @ pending contents t) t"
    using inv(2) motor_moves(1) by (simp add: asked_for_def pending_def)
  ultimately show ?thesis by blast
qed

lemma history_reach:
  assumes "channel_contract ch contents"
  shows "controller_reach api sol coords raise ch contents web s \<Longrightarrow>
    \<exists>rcvd. motor_history rcvd s \<and> asked_for web (rcvd @ pending contents s) s"
proof (induction rule: controller_reach.induct)
  case (start q)
  then show ?case
    by (intro exI [of _ "[]"])
      (simp add: motor_history_def asked_for_def pending_def controller_init_def schedule_init_def motor_task_def)
next
  case (steps s t)
  from steps.IH obtain rcvd where "motor_history rcvd s" "asked_for web (rcvd @ pending contents s) s" by blast
  then show ?case by (rule history_step [OF assms steps(2)])
qed

section \<open>Progress\<close>

text \<open>The commands \<open>cs\<close> are carried out between \<open>s\<close> and \<open>t\<close>, after the one in progress.\<close>

definition carried_out :: "step_command list \<Rightarrow> ('q, 'dt) controller \<Rightarrow> ('q, 'dt) controller \<Rightarrow> bool" where
  "carried_out cs s t \<longleftrightarrow>
     ct_moves t = [] \<and> ct_raised t = fst (motor_run MICROSTEPS (ct_raised s) cs) \<and>
     ct_driver t = drive (snd (motor_run MICROSTEPS (ct_raised s) cs)) (settled s)"

lemma carried_out_append: "carried_out xs s t \<Longrightarrow> carried_out ys t u \<Longrightarrow> carried_out (xs @ ys) s u"
  by (simp add: carried_out_def motor_run_append settled_idle)

lemma moves_drain:
  "(task_step ch web)\<^sup>*\<^sup>* s (s\<lparr>ct_moves := [], ct_driver := settled s\<rparr>)"
proof (induction "ct_moves s" arbitrary: s)
  case Nil
  have "s\<lparr>ct_moves := [], ct_driver := settled s\<rparr> = s"
    using Nil [symmetric] by (cases s) (simp add: settled_def)
  then show ?case by simp
next
  case (Cons e es)
  let ?t = "s\<lparr>ct_moves := es, ct_driver := driver_event e (ct_driver s)\<rparr>"
  have "task_step ch web s ?t"
    by (rule task_pins) (simp add: Cons.hyps(2) [symmetric])
  moreover have "settled ?t = settled s" by (simp add: Cons.hyps(2) [symmetric])
  ultimately show ?case
    using Cons.hyps(1) [of ?t] by (auto intro: converse_rtranclp_into_rtranclp)
qed

lemma queue_drain:
  assumes "channel_contract ch contents"
  shows "\<exists>t. (task_step ch web)\<^sup>*\<^sup>* s t \<and> contents (ct_queue t) = [] \<and>
    ct_schedule t = ct_schedule s \<and> carried_out (contents (ct_queue s)) s t"
proof (induction "contents (ct_queue s)" arbitrary: s)
  case Nil
  show ?case
    by (rule exI, intro conjI, rule moves_drain) (simp_all add: Nil [symmetric] carried_out_def)
next
  case (Cons c cs)
  let ?s = "s\<lparr>ct_moves := [], ct_driver := settled s\<rparr>"
  obtain raised es where m: "motor_command MICROSTEPS c (ct_raised s) = (raised, es)" by (rule prod.exhaust)
  obtain q where q: "ch_try_receive ch (ct_queue ?s) = Some (c, q)" "contents q = cs"
    using channel_receiveD [OF assms, of "ct_queue s"] Cons.hyps(2)
    by (cases "ch_try_receive ch (ct_queue s)") auto
  let ?t = "?s\<lparr>ct_queue := q, ct_raised := raised, ct_moves := es\<rparr>"
  have "(task_step ch web)\<^sup>*\<^sup>* s ?s" by (rule moves_drain)
  also have "task_step ch web ?s ?t"
    by (rule task_motor [OF _ q(1)]) (simp_all add: m)
  finally have st: "(task_step ch web)\<^sup>*\<^sup>* s ?t" .
  obtain u where u: "(task_step ch web)\<^sup>*\<^sup>* ?t u"
    "contents (ct_queue u) = []" "ct_schedule u = ct_schedule ?t" "carried_out cs ?t u"
    using Cons.hyps(1) [of ?t] q(2) by auto
  have "carried_out (c # cs) s u"
    using u(4) m by (simp add: carried_out_def settled_def split_beta)
  with u(2,3) rtranclp_trans [OF st u(1)] Cons.hyps(2) show ?case by auto
qed

lemma pending_drain:
  fixes s :: "('q, 'dt) controller"
  assumes ch: "channel_contract ch contents"
  shows "\<exists>t. (task_step ch web)\<^sup>*\<^sup>* s t \<and> pending contents t = [] \<and>
    sch_state (ct_schedule t) = sch_state (ct_schedule s) \<and> carried_out (pending contents s) s t"
proof -
  obtain t where t: "(task_step ch web)\<^sup>*\<^sup>* s t" "contents (ct_queue t) = []"
    "ct_schedule t = ct_schedule s" "carried_out (contents (ct_queue s)) s t"
    using queue_drain [OF ch, of web s] by blast
  show ?thesis
  proof (cases "sch_send (ct_schedule s)")
    case None
    with t show ?thesis by (auto simp: pending_def)
  next
    case (Some c)
    have "ch_try_send ch c (ct_queue t) \<noteq> None"
      using channel_fullD [OF ch, of c "ct_queue t"] t(2) by (auto simp: channel_capacity_def)
    then obtain q where q: "ch_try_send ch c (ct_queue t) = Some q" by blast
    let ?t = "t\<lparr>ct_queue := q, ct_schedule := (ct_schedule t)\<lparr>sch_send := None\<rparr>\<rparr>"
    have tt: "task_step ch web t ?t"
      by (rule task_schedule [OF _ q]) (simp add: t(3) Some)
    have cq: "contents (ct_queue ?t) = [c]" using channel_sendD [OF ch q] t(2) by simp
    obtain u where u: "(task_step ch web)\<^sup>*\<^sup>* ?t u" "contents (ct_queue u) = []"
      "ct_schedule u = ct_schedule ?t" "carried_out (contents (ct_queue ?t)) ?t u"
      using queue_drain [OF ch, of web ?t] by blast
    have "carried_out [c] t u"
      using u(4) unfolding cq by (simp add: carried_out_def settled_def)
    with carried_out_append [OF t(4)] have "carried_out (pending contents s) s u"
      by (simp add: pending_def Some)
    moreover have "(task_step ch web)\<^sup>*\<^sup>* s u"
      using t(1) tt u(1) by (meson rtranclp.rtrancl_into_rtrancl rtranclp_trans)
    moreover have "pending contents u = []" "sch_state (ct_schedule u) = sch_state (ct_schedule s)"
      using u(2,3) t(3) by (simp_all add: pending_def)
    ultimately show ?thesis by blast
  qed
qed

lemma task_steps_act:
  "(task_step ch web)\<^sup>*\<^sup>* s t \<Longrightarrow> (controller_step api sol coords raise ch web)\<^sup>*\<^sup>* s t"
  by (rule predicate2D [OF rtranclp_mono], rule predicate2I, rule tasks_act)

lemma controller_drain:
  fixes s :: "('q, 'dt) controller"
  assumes "channel_contract ch contents"
  shows "\<exists>t. (controller_step api sol coords raise ch web)\<^sup>*\<^sup>* s t \<and> pending contents t = [] \<and>
    sch_state (ct_schedule t) = sch_state (ct_schedule s) \<and> carried_out (pending contents s) s t"
  using pending_drain [OF assms, of web s] by (blast intro: task_steps_act)

end
