(* ===== verification/System.thy ===== *)
theory System
  imports Controller_Invariants Ntp_Task
begin

text \<open>
  The running firmware: the tasks that src/bin/blind.rs spawns at the end of \<open>main_fallible\<close>, on one
  clock. The NTP task sets the clock and its offset once an hour; the schedule task waits for the
  first synchronisation and then decides from the same clock once a minute; the other tasks act as in
  \<open>Controller\<close>, whose schedule may turn at any clock. How long a task sleeps between two turns is not
  modelled: time passes between any two steps.

  The flag that the schedule waits for is in retained memory, so that after a deep sleep it may be set
  from the beginning. A panic of the NTP task ends the run, since the panic handler does not return.
\<close>

record ('q, 'dt, 'w) system =
  sy_waiting :: bool
  sy_ntp :: "'w ntp_task"
  sy_controller :: "('q, 'dt) controller"

definition sy_clock :: "('q, 'dt, 'w) system \<Rightarrow> clock" where
  "sy_clock s = clk (nt_ntp (sy_ntp s))"

definition system_init :: "'q \<Rightarrow> 'w ntp_state \<Rightarrow> ('q, 'dt, 'w) system" where
  "system_init q n = \<lparr>sy_waiting = True, sy_ntp = ntp_task_init n, sy_controller = controller_init q\<rparr>"

inductive system_step ::
  "('o, 'dt, 'd, 't) time_api \<Rightarrow> bool \<Rightarrow> ('w, 'n) ntp_net \<Rightarrow> ntp_client \<Rightarrow> ('c, 'nd, 'sd) solar_api \<Rightarrow> 'c \<Rightarrow> 't \<Rightarrow>
   'q channel_ops \<Rightarrow> (step_command \<Rightarrow> bool) \<Rightarrow> ('q, 'dt, 'w) system \<Rightarrow> ('q, 'dt, 'w) system \<Rightarrow> bool"
  for api debug_on nw client sol coords raise ch web where
  time_passes: "later d (sy_clock s) c \<Longrightarrow>
    system_step api debug_on nw client sol coords raise ch web s (s\<lparr>sy_ntp := (sy_ntp s)\<lparr>nt_ntp := \<lparr>net = w, clk = c\<rparr>\<rparr>\<rparr>)"
| ntp_turns: "ntp_task_turn api debug_on nw client (sy_ntp s) =
      Some (r :: (unit, (unit, 'n, unit, unit, unit) blind_error) outcome, n) \<Longrightarrow> r \<noteq> Panic \<Longrightarrow>
    system_step api debug_on nw client sol coords raise ch web s (s\<lparr>sy_ntp := n\<rparr>)"
| schedule_starts: "sy_waiting s \<Longrightarrow> schedule_ready (sy_clock s) \<Longrightarrow>
    system_step api debug_on nw client sol coords raise ch web s (s\<lparr>sy_waiting := False\<rparr>)"
| schedule_looks: "\<not> sy_waiting s \<Longrightarrow> sch_send (ct_schedule (sy_controller s)) = None \<Longrightarrow>
    schedule_turn api sol coords raise (sy_clock s) (ct_schedule (sy_controller s)) =
      (r :: (unit, (unit, unit, unit, unit, unit) blind_error) outcome, sch) \<Longrightarrow>
    system_step api debug_on nw client sol coords raise ch web s
      (s\<lparr>sy_controller := (sy_controller s)\<lparr>ct_schedule := sch\<rparr>\<rparr>)"
| others_act: "task_step ch web (sy_controller s) c \<Longrightarrow>
    system_step api debug_on nw client sol coords raise ch web s (s\<lparr>sy_controller := c\<rparr>)"

inductive_cases system_stepE: "system_step api debug_on nw client sol coords raise ch web s t"

text \<open>A run starts with the clock and the network as the start-up leaves them.\<close>

inductive system_reach ::
  "('o, 'dt, 'd, 't) time_api \<Rightarrow> bool \<Rightarrow> ('w, 'n) ntp_net \<Rightarrow> ntp_client \<Rightarrow> ('c, 'nd, 'sd) solar_api \<Rightarrow> 'c \<Rightarrow> 't \<Rightarrow>
   'q channel_ops \<Rightarrow> ('q \<Rightarrow> step_command list) \<Rightarrow> (step_command \<Rightarrow> bool) \<Rightarrow> 'w ntp_state \<Rightarrow> ('q, 'dt, 'w) system \<Rightarrow> bool"
  for api debug_on nw client sol coords raise ch contents web n where
  spawned: "contents q = [] \<Longrightarrow>
    system_reach api debug_on nw client sol coords raise ch contents web n (system_init q n)"
| runs: "system_reach api debug_on nw client sol coords raise ch contents web n s \<Longrightarrow>
    system_step api debug_on nw client sol coords raise ch web s t \<Longrightarrow>
    system_reach api debug_on nw client sol coords raise ch contents web n t"

lemma sy_clock_simps [simp]:
  "sy_clock (s\<lparr>sy_waiting := b\<rparr>) = sy_clock s" "sy_clock (s\<lparr>sy_controller := c\<rparr>) = sy_clock s"
  "sy_clock (s\<lparr>sy_ntp := n\<rparr>) = clk (nt_ntp n)" "sy_clock (system_init q ns) = clk ns"
  by (simp_all add: sy_clock_def system_init_def ntp_task_init_def)

lemma system_init_schedule [simp]: "ct_schedule (sy_controller (system_init q n)) = schedule_init"
  by (simp add: system_init_def controller_init_def)

section \<open>The system refines the controller\<close>

text \<open>
  Forgetting the clock, the system takes a step of the controller or none; so what holds of the
  controller under every schedule of clocks holds of the system.
\<close>

lemma system_step_refines:
  assumes "system_step api debug_on nw client sol coords raise ch web s t"
  shows "sy_controller t = sy_controller s \<or>
    controller_step api sol coords raise ch web (sy_controller s) (sy_controller t)"
  using assms
proof (cases rule: system_step.cases)
  case (schedule_looks r sch)
  from schedule_turns [OF schedule_looks(3,4)] schedule_looks(1) show ?thesis by simp
next
  case (others_act c)
  then show ?thesis by (simp add: tasks_act)
qed simp_all

lemma system_reach_refines:
  "system_reach api debug_on nw client sol coords raise ch contents web n s \<Longrightarrow>
    controller_reach api sol coords raise ch contents web (sy_controller s)"
proof (induction rule: system_reach.induct)
  case (spawned q)
  then show ?case by (simp add: system_init_def start)
next
  case (runs s t)
  from system_step_refines [OF runs(2)] runs.IH show ?case by (auto intro: steps)
qed

section \<open>The clock of the system\<close>

text \<open>
  What the schedule relies on: it has only stopped waiting when the clock was synchronised, it has decided
  nothing while it waits, and the offset is that of winter or of summer.
\<close>

definition uk_offset :: "i32 \<Rightarrow> bool" where
  "uk_offset secs \<longleftrightarrow> secs = 0 \<or> secs = 3600"

lemma uk_offset_read:
  assumes api: "time_contract api" and uk: "uk_offset (offset_seconds c)"
  shows "\<exists>o'. offset api c = Ok o' \<and> whole_seconds api o' = offset_seconds c"
proof -
  obtain one where "whole_seconds api one = 3600" using time_contractD(6) [OF api] by blast
  then have "\<exists>o'. from_whole_seconds api (offset_seconds c) = Some o'"
    using uk time_contractD(1) [OF api, of one] time_contractD(1) [OF api, of "utc_offset api"] time_contractD(3) [OF api]
    by (auto simp: uk_offset_def)
  then show ?thesis using time_contractD(2) [OF api] by (auto simp: offset_def)
qed

definition waits_for_sync :: "('q, 'dt, 'w) system \<Rightarrow> bool" where
  "waits_for_sync s \<longleftrightarrow>
     (\<not> sy_waiting s \<longrightarrow> ntp_synchronized (sy_clock s)) \<and>
     (sy_waiting s \<longrightarrow> sch_state (ct_schedule (sy_controller s)) = None \<and> sch_send (ct_schedule (sy_controller s)) = None)"

text \<open>A turn of the NTP task never takes the synchronisation back and moves between the two offsets.\<close>

lemma ntp_task_turn_keeps:
  assumes api: "time_contract api" and net: "net_contract nw"
    and run: "ntp_task_turn api debug_on nw client s = Some (r, t)" and ok: "r \<noteq> Panic"
  shows "ntp_synchronized (clk (nt_ntp s)) \<longrightarrow> ntp_synchronized (clk (nt_ntp t))"
    and "uk_offset (offset_seconds (clk (nt_ntp s))) \<longrightarrow> uk_offset (offset_seconds (clk (nt_ntp t)))"
proof -
  have "(ntp_synchronized (clk (nt_ntp s)) \<longrightarrow> ntp_synchronized (clk (nt_ntp t))) \<and>
    (uk_offset (offset_seconds (clk (nt_ntp s))) \<longrightarrow> uk_offset (offset_seconds (clk (nt_ntp t))))"
  proof (cases r)
    case (Ok u)
    show ?thesis
      by (rule ntp_task_turn_offset [OF api net run [unfolded Ok]]) (simp add: dst_offset_def uk_offset_def)
  next
    case (Err e)
    from ntp_task_turn_Err [OF net run [unfolded Err]] show ?thesis by (simp add: same_settings_def)
  qed (use ok in simp)
  then show "ntp_synchronized (clk (nt_ntp s)) \<longrightarrow> ntp_synchronized (clk (nt_ntp t))"
    "uk_offset (offset_seconds (clk (nt_ntp s))) \<longrightarrow> uk_offset (offset_seconds (clk (nt_ntp t)))" by simp_all
qed

lemma task_step_decision:
  assumes "task_step ch web s t"
  shows "sch_state (ct_schedule t) = sch_state (ct_schedule s)"
    and "sch_send (ct_schedule s) = None \<Longrightarrow> sch_send (ct_schedule t) = None"
  using assms by (auto elim: task_step.cases)

lemma waits_for_sync_step:
  assumes api: "time_contract api" and net: "net_contract nw"
    and step: "system_step api debug_on nw client sol coords raise ch web s t" and inv: "waits_for_sync s"
  shows "waits_for_sync t"
  using step
proof (cases rule: system_step.cases)
  case (time_passes d c w)
  with inv show ?thesis by (simp add: waits_for_sync_def later_def)
next
  case (ntp_turns r n)
  from ntp_task_turn_keeps(1) [OF api net ntp_turns(2,3)] inv ntp_turns(1) show ?thesis
    by (simp add: waits_for_sync_def sy_clock_def)
next
  case (others_act c)
  from task_step_decision [OF others_act(2)] inv others_act(1) show ?thesis by (simp add: waits_for_sync_def)
qed (use inv in \<open>simp_all add: waits_for_sync_def\<close>)

lemma waits_for_sync_reach:
  assumes "time_contract api" "net_contract nw"
  shows "system_reach api debug_on nw client sol coords raise ch contents web n s \<Longrightarrow> waits_for_sync s"
proof (induction rule: system_reach.induct)
  case (spawned q)
  then show ?case by (simp add: waits_for_sync_def system_init_def controller_init_def schedule_init_def)
next
  case (runs s t)
  show ?case by (rule waits_for_sync_step [OF assms runs(2) runs.IH])
qed

text \<open>Once a clock is synchronised it stays so, and its offset is that of the United Kingdom if it started so.\<close>

lemma system_step_clock:
  assumes api: "time_contract api" and net: "net_contract nw"
    and step: "system_step api debug_on nw client sol coords raise ch web s t"
  shows "(ntp_synchronized (sy_clock s) \<longrightarrow> ntp_synchronized (sy_clock t)) \<and>
    (uk_offset (offset_seconds (sy_clock s)) \<longrightarrow> uk_offset (offset_seconds (sy_clock t)))"
  using step
proof (cases rule: system_step.cases)
  case (time_passes d c w)
  then show ?thesis by (simp add: later_def)
next
  case (ntp_turns r n)
  from ntp_task_turn_keeps [OF api net ntp_turns(2,3)] ntp_turns(1) show ?thesis by (simp add: sy_clock_def)
qed simp_all

lemma system_run_clock:
  assumes "time_contract api" "net_contract nw"
  shows "(system_step api debug_on nw client sol coords raise ch web)\<^sup>*\<^sup>* s t \<Longrightarrow>
    (ntp_synchronized (sy_clock s) \<longrightarrow> ntp_synchronized (sy_clock t)) \<and>
    (uk_offset (offset_seconds (sy_clock s)) \<longrightarrow> uk_offset (offset_seconds (sy_clock t)))"
proof (induction rule: rtranclp_induct)
  case (step t u)
  from system_step_clock [OF assms step.hyps(2)] step.IH show ?case by blast
qed simp

lemma system_reach_clock:
  assumes "time_contract api" "net_contract nw"
  shows "system_reach api debug_on nw client sol coords raise ch contents web n s \<Longrightarrow>
    (ntp_synchronized (clk n) \<longrightarrow> ntp_synchronized (sy_clock s)) \<and>
    (uk_offset (offset_seconds (clk n)) \<longrightarrow> uk_offset (offset_seconds (sy_clock s)))"
proof (induction rule: system_reach.induct)
  case (runs s t)
  from system_step_clock [OF assms runs(2)] runs.IH show ?case by blast
qed simp

section \<open>Runs of the tasks within the system\<close>

lemma system_tasks_run:
  "(task_step ch web)\<^sup>*\<^sup>* c c' \<Longrightarrow> sy_controller s = c \<Longrightarrow>
    (system_step api debug_on nw client sol coords raise ch web)\<^sup>*\<^sup>* s (s\<lparr>sy_controller := c'\<rparr>)"
proof (induction rule: rtranclp_induct)
  case base
  then have "s\<lparr>sy_controller := c\<rparr> = s" by (cases s) simp
  then show ?case by simp
next
  case (step c1 c2)
  have "system_step api debug_on nw client sol coords raise ch web (s\<lparr>sy_controller := c1\<rparr>)
      (s\<lparr>sy_controller := c1\<rparr>\<lparr>sy_controller := c2\<rparr>)"
    by (rule others_act) (simp add: step.hyps(2))
  with step.IH [OF step.prems] show ?case by (simp add: rtranclp.rtrancl_into_rtrancl)
qed

lemma system_reach_rtranclp:
  "(system_step api debug_on nw client sol coords raise ch web)\<^sup>*\<^sup>* s t \<Longrightarrow>
    system_reach api debug_on nw client sol coords raise ch contents web n s \<Longrightarrow>
    system_reach api debug_on nw client sol coords raise ch contents web n t"
  by (induction rule: rtranclp_induct) (auto intro: runs)

text \<open>From any state the tasks can go on, without any time passing, until what is pending is carried out.\<close>

lemma system_drain:
  fixes s :: "('q, 'dt, 'w) system"
  assumes "channel_contract ch contents"
  obtains u where "(system_step api debug_on nw client sol coords raise ch web)\<^sup>*\<^sup>* s u" "sy_clock u = sy_clock s"
    "controller_idle contents (sy_controller u)"
    "sch_state (ct_schedule (sy_controller u)) = sch_state (ct_schedule (sy_controller s))"
proof -
  obtain c where c: "(task_step ch web)\<^sup>*\<^sup>* (sy_controller s) c" "pending contents c = []"
    "sch_state (ct_schedule c) = sch_state (ct_schedule (sy_controller s))"
    "carried_out (pending contents (sy_controller s)) (sy_controller s) c"
    using pending_drain [OF assms, of web "sy_controller s"] by blast
  show ?thesis
    by (rule that [of "s\<lparr>sy_controller := c\<rparr>"], rule system_tasks_run [OF c(1)])
      (use c(2-4) in \<open>simp_all add: idle_pending carried_out_def\<close>)
qed

text \<open>A firmware that finds its clock synchronised and decides to lower the blind can do so at that clock.\<close>

lemma lowers_when_spawned:
  assumes ch: "channel_contract ch contents" and q: "contents q = []" and sync: "ntp_synchronized (clk n)"
    and turn: "schedule_turn api sol coords raise (clk n) schedule_init =
      (Ok () :: (unit, (unit, unit, unit, unit, unit) blind_error) outcome, sch)" "sch_state sch = Some Lower"
  obtains u where "system_reach api debug_on nw client sol coords raise ch contents (\<lambda>_. False) n u"
    "sy_clock u = clk n" "controller_idle contents (sy_controller u)" "travel (ct_driver (sy_controller u)) = - full_travel"
proof -
  let ?R = "system_reach api debug_on nw client sol coords raise ch contents (\<lambda>_. False) n"
  let ?awake = "(system_init q n)\<lparr>sy_waiting := False\<rparr>"
  let ?s = "?awake\<lparr>sy_controller := (sy_controller ?awake)\<lparr>ct_schedule := sch\<rparr>\<rparr>"
  have awake: "?R ?awake"
    by (rule runs, rule spawned, rule q, rule schedule_starts) (simp add: system_init_def, simp add: sync)
  have "?R ?s"
    by (rule runs [OF awake], rule schedule_looks [where r = "Ok ()"])
      (simp_all add: turn(1), simp add: schedule_init_def)
  obtain u where u: "(system_step api debug_on nw client sol coords raise ch (\<lambda>_. False))\<^sup>*\<^sup>* ?s u"
    "sy_clock u = sy_clock ?s" "controller_idle contents (sy_controller u)"
    "sch_state (ct_schedule (sy_controller u)) = sch_state (ct_schedule (sy_controller ?s))"
    by (rule system_drain [OF ch])
  note r = system_reach_rtranclp [OF u(1) \<open>?R ?s\<close>]
  show ?thesis
  proof (rule that [OF r])
    show "sy_clock u = clk n" using u(2) by simp
    show "controller_idle contents (sy_controller u)" by (rule u(3))
    have "sch_state (ct_schedule (sy_controller u)) = Some Lower" using u(4) turn(2) by simp
    with idle_position [OF ch system_reach_refines [OF r] u(3)]
    show "travel (ct_driver (sy_controller u)) = - full_travel" by simp
  qed
qed

end
