(* ===== verification/Life.thy ===== *)
theory Life
  imports Boot_Correct System
begin

text \<open>
  The life of a device over any number of starts. Each start (\<open>firmware_main\<close>, Boot) ends in an error, which
  \<open>main\<close> in src/bin/blind.rs answers with a deep sleep, in a panic, or in the running tasks (System), which
  go on until the device is restarted: by the reboot page, which also sleeps, or by a loss of power.

  A restart keeps the flash. Through a deep sleep (\<open>enter_deep\<close> in src/rtc.rs) the clock and what the sources mark
  \<open>ram(rtc_fast)\<close> are kept; \<open>UPDATE_PENDING\<close>, the channel, the flag of the motor task and the
  levels of the pins are not. After a loss of power the clock is that of a cold start. The state of the radio and of the
  network is any at a new start. The blind itself stays where it is: \<open>lf_position\<close> is the sum of the travel of all
  runs, which no run can read.

  Different starts may run different firmwares and meet different networks and flash devices; \<open>fws\<close> says which. As a
  write that fails may leave anything in the sectors it spans, a start that loses power is among those that end
  with an error of the flash or of the network. A start that never returns is not modelled.
\<close>

record ('f, 'w, 'am, 'cfg, 'r) life =
  lf_device :: "('f, 'w, 'am, 'cfg, 'r) device"
  lf_position :: int
  lf_runs :: nat

definition cold :: "clock \<Rightarrow> bool" where
  "cold c \<longleftrightarrow> (\<exists>s1 s2 s3 l h. c = clock_config_new s1 s2 s3 l h)"

definition restarted ::
  "clock \<Rightarrow> ('f, 'w, 'am, 'cfg, 'r) device \<Rightarrow> ('f, 'w, 'am, 'cfg, 'r) device \<Rightarrow> bool" where
  "restarted c s t \<longleftrightarrow>
     dv_flash t = dv_flash s \<and> \<not> dv_update_pending t \<and> ((\<exists>d. later d c (dv_clock t)) \<or> cold (dv_clock t))"

definition spawn_net :: "('f, 'w, 'am, 'cfg, 'r) device \<Rightarrow> 'w ntp_state" where
  "spawn_net s = \<lparr>net = wf_world (dv_wifi s), clk = dv_clock s\<rparr>"

inductive life_step ::
  "(('f, 'y, 'w, 'am, 'cfg, 'i, 'x, 'r, 'h, 'n, 'o, 'dt, 'd, 't, 'bd, 'c) boot_env \<Rightarrow> bool) \<Rightarrow> bool \<Rightarrow>
   ('c, 'nd, 'sd) solar_api \<Rightarrow> 't \<Rightarrow> 'q channel_ops \<Rightarrow> ('q \<Rightarrow> step_command list) \<Rightarrow> (step_command \<Rightarrow> bool) \<Rightarrow>
   ('f, 'w, 'am, 'cfg, 'r) life \<Rightarrow> ('f, 'w, 'am, 'cfg, 'r) life \<Rightarrow> bool"
  for fws debug_on sol raise ch contents web where
  start_fails: "fws env \<Longrightarrow> firmware_main env (lf_device l) = Some (r, t) \<Longrightarrow> r = Deep_Sleep us \<or> r = Panicked \<Longrightarrow>
    restarted (dv_clock t) t d \<Longrightarrow>
    life_step fws debug_on sol raise ch contents web l (l\<lparr>lf_device := d\<rparr>)"
| start_runs: "fws env \<Longrightarrow> firmware_main env (lf_device l) = Some (Running (client, coords), t) \<Longrightarrow>
    system_reach (be_time env) debug_on (be_ntp env) client sol coords raise ch contents web (spawn_net t) u \<Longrightarrow>
    restarted (sy_clock u) t d \<Longrightarrow>
    life_step fws debug_on sol raise ch contents web l
      (l\<lparr>lf_device := d, lf_position := lf_position l + travel (ct_driver (sy_controller u)), lf_runs := Suc (lf_runs l)\<rparr>)"

definition life_init :: "('f, 'w, 'am, 'cfg, 'r) device \<Rightarrow> ('f, 'w, 'am, 'cfg, 'r) life" where
  "life_init s = \<lparr>lf_device = s, lf_position = 0, lf_runs = 0\<rparr>"

inductive life_reach ::
  "(('f, 'y, 'w, 'am, 'cfg, 'i, 'x, 'r, 'h, 'n, 'o, 'dt, 'd, 't, 'bd, 'c) boot_env \<Rightarrow> bool) \<Rightarrow> bool \<Rightarrow>
   ('c, 'nd, 'sd) solar_api \<Rightarrow> 't \<Rightarrow> 'q channel_ops \<Rightarrow> ('q \<Rightarrow> step_command list) \<Rightarrow> (step_command \<Rightarrow> bool) \<Rightarrow>
   ('f, 'w, 'am, 'cfg, 'r) device \<Rightarrow> ('f, 'w, 'am, 'cfg, 'r) life \<Rightarrow> bool"
  for fws debug_on sol raise ch contents web s where
  installed: "life_reach fws debug_on sol raise ch contents web s (life_init s)"
| restarts: "life_reach fws debug_on sol raise ch contents web s l \<Longrightarrow>
    life_step fws debug_on sol raise ch contents web l m \<Longrightarrow>
    life_reach fws debug_on sol raise ch contents web s m"

lemma life_init_simps [simp]:
  "lf_device (life_init s) = s" "lf_position (life_init s) = 0" "lf_runs (life_init s) = 0"
  by (simp_all add: life_init_def)

section \<open>What \<open>main\<close> makes of the result of a start\<close>

lemma firmware_main_fallible:
  fixes env :: "('f, 'y, 'w, 'am, 'cfg, 'i, 'x, 'r, 'h, 'n, 'o, 'dt, 'd, 't, 'bd, 'c) boot_env"
  assumes "firmware_main env s = Some (r, t)"
  obtains q :: "(ntp_client \<times> 'c, ('y, 'n, 'h, 'i, 'x) blind_error) outcome"
    where "main_fallible env s = Some (q, t)" "\<And>x. r = Running x \<longleftrightarrow> q = Ok x"
proof -
  from assms obtain q :: "(ntp_client \<times> 'c, ('y, 'n, 'h, 'i, 'x) blind_error) outcome"
    where q: "main_fallible env s = Some (q, t)"
      "r = (case q of Ok x \<Rightarrow> Running x | Err e \<Rightarrow> Deep_Sleep (10 * 1000000) | Panic \<Rightarrow> Panicked)"
    unfolding firmware_main_def enter_deep_def map_option_eq_Some by auto
  from q(2) have "\<And>x. r = Running x \<longleftrightarrow> q = Ok x" by (cases q) simp_all
  with q(1) show ?thesis by (rule that)
qed

lemma firmware_main_Running:
  fixes env :: "('f, 'y, 'w, 'am, 'cfg, 'i, 'x, 'r, 'h, 'n, 'o, 'dt, 'd, 't, 'bd, 'c) boot_env"
  shows "firmware_main env s = Some (Running x, t) \<longleftrightarrow>
    main_fallible env s = Some (Ok x :: (ntp_client \<times> 'c, ('y, 'n, 'h, 'i, 'x) blind_error) outcome, t)"
    (is "?L = ?R")
proof
  assume ?L
  then obtain q :: "(ntp_client \<times> 'c, ('y, 'n, 'h, 'i, 'x) blind_error) outcome"
    where q: "main_fallible env s = Some (q, t)" "\<And>y. Running x = Running y \<longleftrightarrow> q = Ok y"
    by (rule firmware_main_fallible) blast
  from q(2) [of x] q(1) show ?R by simp
next
  assume ?R
  then show ?L by (simp add: firmware_main_def)
qed

text \<open>Every step of a life has a start, and the flash of that start.\<close>

lemma life_step_start:
  fixes fws :: "('f, 'y, 'w, 'am, 'cfg, 'i, 'x, 'r, 'h, 'n, 'o, 'dt, 'd, 't, 'bd, 'c) boot_env \<Rightarrow> bool"
  assumes "life_step fws debug_on sol raise ch contents web l m"
  obtains env t and r :: "(ntp_client \<times> 'c, ('y, 'n, 'h, 'i, 'x) blind_error) outcome"
  where "fws env" "main_fallible env (lf_device l) = Some (r, t)" "dv_flash (lf_device m) = dv_flash t"
  using assms
proof (cases rule: life_step.cases)
  case (start_fails env r t us d)
  from firmware_main_fallible [OF start_fails(3)] obtain
    q :: "(ntp_client \<times> 'c, ('y, 'n, 'h, 'i, 'x) blind_error) outcome"
    where "main_fallible env (lf_device l) = Some (q, t)" by blast
  with start_fails that show ?thesis by (simp add: restarted_def)
next
  case (start_runs env client coords t u d)
  with that show ?thesis by (simp add: restarted_def firmware_main_Running)
qed

text \<open>A run that is cut short by a restart right away.\<close>

lemma later_refl: "later 0 c c"
  by (simp add: later_def)

lemma run_and_restart:
  assumes "fws env" "firmware_main env (lf_device l) = Some (Running (client, coords), t)"
    and "system_reach (be_time env) debug_on (be_ntp env) client sol coords raise ch contents web (spawn_net t) u"
  shows "life_step fws debug_on sol raise ch contents web l
    (l\<lparr>lf_device := t\<lparr>dv_clock := sy_clock u, dv_update_pending := False\<rparr>,
       lf_position := lf_position l + travel (ct_driver (sy_controller u)), lf_runs := Suc (lf_runs l)\<rparr>)"
proof (rule start_runs, rule assms(1), rule assms(2), rule assms(3))
  show "restarted (sy_clock u) t (t\<lparr>dv_clock := sy_clock u, dv_update_pending := False\<rparr>)"
    using later_refl [of "sy_clock u"] by (auto simp: restarted_def)
qed

section \<open>The flash\<close>

text \<open>A start leaves the flash usable.\<close>

lemma install_update_keeps_ok:
  assumes ok: "ota_ok d view good s" and small: "small_chunks h"
    and run: "install_update crcf d h random url (c, s) = Some (r, c', t)"
  shows "ota_ok d view good t"
proof -
  have written: "ota_ok d view good o2"
    if p: "prepare_for_update crcf d s = (Ok (), o1)"
      and b: "req_buffered h random url (write_update d) (c, o1) = Some (q, c', o2)" for o1 o2 q
    using download_confined [OF ok small p b] by blast
  from run show ?thesis
  proof (cases rule: install_update_split)
    case (at_prepare q)
    with prepare_for_update_frame [OF ok] show ?thesis by blast
  next
    case (at_download o1 q)
    with written show ?thesis by blast
  next
    case (at_commit o1 o2 q)
    from commit_update_keeps_ok [OF written [OF at_commit(1,2)] at_commit(3)] show ?thesis .
  qed
qed

lemma main_fallible_flash_ok:
  assumes ok: "flash_ok (be_flash env) view good (dv_flash s)" and small: "small_chunks (be_http env)"
    and run: "main_fallible env s = Some (r, t)"
  shows "flash_ok (be_flash env) view good (dv_flash t)"
  using run
proof (cases rule: main_fallible_cases)
  case constants
  with ok show ?thesis by simp
next
  case (credentials n q)
  with get_credentials_flash(1) [OF ok credentials(1)] show ?thesis by simp
next
  case (online ssid password coordinates n)
  note n = get_credentials_flash(1) [OF ok online(1)]
  from online(2) show ?thesis
  proof (cases rule: start_after_credentials_cases)
    case offline
    with n show ?thesis by (simp add: same_storage_def)
  next
    case (checked s1 s2 q)
    from checked(1) have s1: "dv_flash s1 = nvs_flash n" by (simp add: same_storage_def)
    from checked(2) show ?thesis
    proof (cases rule: check_for_update_cases)
      case unchanged
      with checked(3) s1 n show ?thesis by simp
    next
      case (installs v c c' o' q')
      from n s1 have "ota_ok (be_flash env) view good (ota_new (dv_flash s1))"
        by (simp add: ota_ok_def ota_new_def)
      from install_update_keeps_ok [OF this small installs(3)] installs(4) checked(3) show ?thesis
        by (simp add: ota_ok_def)
    qed
  qed
qed

text \<open>What holds of the flash of every start holds over a life.\<close>

definition safe_firmware ::
  "('f \<Rightarrow> memory) \<Rightarrow> ('f \<Rightarrow> bool) \<Rightarrow>
   ('f, 'y, 'w, 'am, 'cfg, 'i, 'x, 'r, 'h, 'n, 'o, 'dt, 'd, 't, 'bd, 'c) boot_env \<Rightarrow> bool" where
  "safe_firmware view good env \<longleftrightarrow> flash_contract (be_flash env) view good \<and> small_chunks (be_http env)"

lemma life_flash:
  assumes fw: "\<And>env. fws env \<Longrightarrow> safe_firmware view good env" and good: "good (dv_flash s)"
    and refl: "\<And>a. R a a"
    and start: "\<And>env d r t. fws env \<Longrightarrow> flash_ok (be_flash env) view good (dv_flash d) \<Longrightarrow>
      main_fallible env d = Some (r, t) \<Longrightarrow> R (view (dv_flash s)) (view (dv_flash d)) \<Longrightarrow>
      R (view (dv_flash s)) (view (dv_flash t))"
  shows "life_reach fws debug_on sol raise ch contents web s l \<Longrightarrow>
    good (dv_flash (lf_device l)) \<and> R (view (dv_flash s)) (view (dv_flash (lf_device l)))"
proof (induction rule: life_reach.induct)
  case installed
  from good refl show ?case by simp
next
  case (restarts l m)
  from restarts(2) show ?case
  proof (cases rule: life_step_start)
    case (1 env t r)
    from fw [OF 1(1)] restarts.IH have ok: "flash_ok (be_flash env) view good (dv_flash (lf_device l))"
      "small_chunks (be_http env)"
      by (simp_all add: safe_firmware_def flash_ok_def)
    from main_fallible_flash_ok [OF ok 1(2)] start [OF 1(1) ok(1) 1(2)] restarts.IH 1(3) show ?thesis
      by (simp add: flash_ok_def)
  qed
qed

section \<open>The clock\<close>

lemma life_clock_start:
  assumes "time_contract (be_time env)" "main_fallible env s = Some (r, t)" "uk_offset (offset_seconds (dv_clock s))"
  shows "uk_offset (offset_seconds (dv_clock t))"
  using main_fallible_clock [OF assms(2)] assms(3) time_contractD(3) [OF assms(1)]
  by (auto simp: configure_once_def configure_def set_offset_def uk_offset_def Let_def)

lemma restarted_offset:
  "restarted c s t \<Longrightarrow> uk_offset (offset_seconds c) \<Longrightarrow> uk_offset (offset_seconds (dv_clock t))"
  by (auto simp: restarted_def later_def cold_def clock_config_new_def uk_offset_def)

lemma life_offset:
  assumes fw: "\<And>env. fws env \<Longrightarrow> time_contract (be_time env) \<and> net_contract (be_ntp env)"
    and "uk_offset (offset_seconds (dv_clock s))"
  shows "life_reach fws debug_on sol raise ch contents web s l \<Longrightarrow>
    uk_offset (offset_seconds (dv_clock (lf_device l)))"
proof (induction rule: life_reach.induct)
  case installed
  from assms(2) show ?case by simp
next
  case (restarts l m)
  from restarts(2) show ?case
  proof (cases rule: life_step.cases)
    case (start_fails env r t us d)
    from firmware_main_fallible [OF start_fails(3)] obtain q where "main_fallible env (lf_device l) = Some (q, t)" by blast
    from life_clock_start [OF _ this restarts.IH] fw [OF start_fails(2)] restarted_offset [OF start_fails(5)] start_fails(1)
    show ?thesis by simp
  next
    case (start_runs env client coords t u d)
    from life_clock_start [OF _ start_runs(3) [unfolded firmware_main_Running] restarts.IH] fw [OF start_runs(2)]
    have t: "uk_offset (offset_seconds (dv_clock t))" by blast
    from fw [OF start_runs(2)] have api: "time_contract (be_time env)" "net_contract (be_ntp env)" by simp_all
    from system_reach_clock [OF api start_runs(4)] t have "uk_offset (offset_seconds (sy_clock u))"
      by (simp add: spawn_net_def)
    from restarted_offset [OF start_runs(5) this] start_runs(1) show ?thesis by simp
  qed
qed

section \<open>The position of the blind\<close>

lemma run_in_range:
  assumes "channel_contract ch contents" "\<And>c. web c \<Longrightarrow> positioning c"
    and "system_reach api debug_on nw client sol coords raise ch contents web n u"
  shows "- full_travel \<le> travel (ct_driver (sy_controller u)) \<and> travel (ct_driver (sy_controller u)) \<le> 0"
proof -
  have "way_in_range (sy_controller u)"
    by (rule way_in_range_reach [OF assms(1,2) system_reach_refines [OF assms(3)]])
  from way_in_rangeD [OF this, of "[]" "ct_moves (sy_controller u)"] show ?thesis by (simp add: drive_def)
qed

text \<open>Every run adds at most one blind height.\<close>

lemma life_position:
  assumes ch: "channel_contract ch contents" and web: "\<And>c. web c \<Longrightarrow> positioning c"
  shows "life_reach fws debug_on sol raise ch contents web s l \<Longrightarrow>
    - (full_travel * int (lf_runs l)) \<le> lf_position l \<and> lf_position l \<le> 0"
proof (induction rule: life_reach.induct)
  case (restarts l m)
  from restarts(2) show ?case
  proof (cases rule: life_step.cases)
    case (start_runs env client coords t u d)
    from run_in_range [OF ch web start_runs(4)] restarts.IH start_runs(1) show ?thesis
      by (simp add: algebra_simps)
  qed (use restarts.IH in simp)
qed simp

end
