(* ===== verification/Controller_Properties.thy ===== *)
theory Controller_Properties
  imports Controller_Invariants
begin

text \<open>
  The properties of the schedule task and of the running controller, with instances on the
  reference calendar and a list as the channel. In the examples the sun sets at 20:21:00 UTC.
\<close>

section \<open>Examples\<close>

record example_sun_time =
  ex_hour :: u32
  ex_minute :: u32
  ex_second :: u32

definition example_sun :: "(unit, unit, example_sun_time) solar_api" where
  "example_sun =
     \<lparr>from_ymd_opt = (\<lambda>_ _ _. Some ()),
      sunset_event = (\<lambda>_ _. \<lparr>ex_hour = 20, ex_minute = 21, ex_second = 0\<rparr>),
      sun_hour = ex_hour, sun_minute = ex_minute, sun_second = ex_second\<rparr>"

definition half_past_noon :: int where "half_past_noon = 45000 * 1000000000"

lemma reference_raise_time: "raise_time reference_time = Some half_past_noon"
  by (simp add: raise_time_def reference_time_simps half_past_noon_def)

section \<open>The clock digits of a date-time\<close>

lemma div_mult_add: "0 \<le> b \<Longrightarrow> b < c \<Longrightarrow> (a * c + b) div c = (a :: int)"
  by (simp add: div_add1_eq [of "a * c"] )

text \<open>Replacing hour, minute and second keeps the day and the part below a second.\<close>

lemma replace_part_value:
  assumes "uint v < n" "local_nanos dt = (a * n + old) * (unit * 1000000000) + low"
    "0 \<le> old" "old < n" "0 \<le> low" "low < unit * 1000000000"
  shows "\<exists>d. replace_part unit n v dt = Some d \<and> snd d = snd dt \<and>
    local_nanos d = (a * n + uint v) * (unit * 1000000000) + low"
proof -
  have "local_nanos dt div (unit * 1000000000) mod n = old"
    using assms(2-6) div_mult_add [OF assms(5,6), of "a * n + old"] by simp
  then show ?thesis
    using assms(1,2) by (auto simp: replace_part_def local_nanos_def algebra_simps)
qed

lemma clock_digits:
  fixes l :: int
  obtains day h m sec low where "l = (((day * 24 + h) * 60 + m) * 60 + sec) * 1000000000 + low"
    "0 \<le> h" "h < 24" "0 \<le> m" "m < 60" "0 \<le> sec" "sec < 60" "low = l mod 1000000000"
    "day = l div day_nanos"
proof -
  define s where "s = l div 1000000000"
  define m where "m = s div 60"
  define h where "h = m div 60"
  have parts: "l = s * 1000000000 + l mod 1000000000" "s = m * 60 + s mod 60" "m = h * 60 + m mod 60"
    "h = h div 24 * 24 + h mod 24"
    unfolding s_def m_def h_def by simp_all
  have day: "h div 24 = l div day_nanos"
    unfolding s_def m_def h_def day_nanos_def by (simp add: zdiv_zmult2_eq [symmetric])
  show ?thesis
  proof (rule that [of "h div 24" "h mod 24" "m mod 60" "s mod 60" "l mod 1000000000"])
    show "l = (((h div 24 * 24 + h mod 24) * 60 + m mod 60) * 60 + s mod 60) * 1000000000 + l mod 1000000000"
      using parts(1) unfolding parts(4) [symmetric] parts(3) [symmetric] parts(2) [symmetric] .
  qed (simp_all add: day)
qed

lemma uint_small_ucast: "v < 0x100 \<Longrightarrow> uint (ucast (v :: u32) :: u8) = uint v"
proof -
  assume "v < 0x100"
  then have "uint v < 2 ^ 8" by (simp add: word_less_def)
  then show ?thesis by (simp add: unsigned_ucast_eq take_bit_int_eq_self_iff)
qed

lemma sunset_of_reference:
  fixes sol :: "('c, 'nd, 'sd) solar_api"
  assumes "from_ymd_opt sol (dt_year reference_time dt) (dt_month reference_time dt) (dt_day reference_time dt) = Some date"
    and "sd = sunset_event sol coords date"
    and "sun_hour sol sd < 24" "sun_minute sol sd < 60" "sun_second sol sd < 60"
  obtains d where "sunset_of reference_time sol coords dt = Some d" "snd d = snd dt"
    "local_nanos d = local_nanos dt div day_nanos * day_nanos +
       (uint (sun_hour sol sd) * 3600 + uint (sun_minute sol sd) * 60 + uint (sun_second sol sd)) * 1000000000 +
       local_nanos dt mod 1000000000"
proof -
  let ?H = "uint (sun_hour sol sd)" and ?M = "uint (sun_minute sol sd)" and ?S = "uint (sun_second sol sd)"
  have u: "uint (ucast (sun_hour sol sd) :: u8) = ?H" "uint (ucast (sun_minute sol sd) :: u8) = ?M"
    "uint (ucast (sun_second sol sd) :: u8) = ?S"
    using assms(3-5) by (auto intro!: uint_small_ucast elim: order.strict_trans)
  have r: "?H < 24" "?M < 60" "?S < 60" using assms(3-5) by (simp_all add: word_less_def)
  obtain day h m sec low where l: "local_nanos dt = (((day * 24 + h) * 60 + m) * 60 + sec) * 1000000000 + low"
    and b: "0 \<le> h" "h < 24" "0 \<le> m" "m < 60" "0 \<le> sec" "sec < 60"
    and low: "low = local_nanos dt mod 1000000000" and day: "day = local_nanos dt div day_nanos"
    by (rule clock_digits)
  have low0: "0 \<le> low" "low < 1000000000" using low by simp_all
  obtain d1 where d1: "replace_part 3600 24 (ucast (sun_hour sol sd)) dt = Some d1" "snd d1 = snd dt"
    "local_nanos d1 = (day * 24 + ?H) * (3600 * 1000000000) + ((m * 60 + sec) * 1000000000 + low)"
    using replace_part_value [of "ucast (sun_hour sol sd)" 24 dt day h 3600 "(m * 60 + sec) * 1000000000 + low"]
      u r l b low0 by (auto simp: algebra_simps)
  obtain d2 where d2: "replace_part 60 60 (ucast (sun_minute sol sd)) d1 = Some d2" "snd d2 = snd d1"
    "local_nanos d2 = ((day * 24 + ?H) * 60 + ?M) * (60 * 1000000000) + (sec * 1000000000 + low)"
    using replace_part_value [of "ucast (sun_minute sol sd)" 60 d1 "day * 24 + ?H" m 60 "sec * 1000000000 + low"]
      u r d1(3) b low0 by (auto simp: algebra_simps)
  obtain d3 where d3: "replace_part 1 60 (ucast (sun_second sol sd)) d2 = Some d3" "snd d3 = snd d2"
    "local_nanos d3 = (((day * 24 + ?H) * 60 + ?M) * 60 + ?S) * (1 * 1000000000) + low"
    using replace_part_value [of "ucast (sun_second sol sd)" 60 d2 "(day * 24 + ?H) * 60 + ?M" sec 1 low]
      u r d2(3) b low0 by (auto simp: algebra_simps)
  have "sunset_of reference_time sol coords dt = Some d3"
    using assms(1,2) d1(1) d2(1) d3(1) by (simp add: sunset_of_def Let_def reference_time_simps(20-22))
  moreover have "local_nanos d3 = day * day_nanos + (?H * 3600 + ?M * 60 + ?S) * 1000000000 + low"
    using d3(3) by (simp add: day_nanos_def algebra_simps)
  ultimately show ?thesis using that d1(2) d2(2) d3(2) day low by simp
qed

section \<open>Properties of the schedule\<close>

text \<open>C20: A turn of the schedule that succeeds decides by daylight: with the sunset of the current day,
  cached or computed now, the recorded action is to raise the blind from the raise time until the
  sunset and to lower it otherwise, and a command is made pending exactly when the action is not the
  one recorded before. A turn that fails changes nothing, and the arm the code calls unreachable is never taken.\<close>

theorem schedule_decides:
  assumes "schedule_turn api sol coords raise c s = (r, t)"
  shows "(\<forall>u. r = Ok u \<longrightarrow>
      (\<exists>now sunset action. datetime api c = Ok now \<and> sch_sunset t = Some sunset \<and>
        (if \<exists>v. sch_sunset s = Some v \<and> dt_date api v = dt_date api now then sch_sunset s = Some sunset
         else sunset_of api sol coords now = Some sunset) \<and>
        action = (if time_le api raise (dt_time api now) \<and> \<not> time_le api (dt_time api sunset) (dt_time api now)
                  then Raise else Lower) \<and>
        sch_state t = Some action \<and>
        sch_send t = (if sch_state s = Some action then sch_send s else Some action))) \<and>
    (\<forall>e. r = Err e \<longrightarrow> t = s) \<and> (r = Panic \<longrightarrow> datetime api c = Panic)"
  using assms
  by (cases rule: schedule_turn_cases) (auto simp: sunset_used_def daylight_def)

definition summer_clock :: clock where
  "summer_clock =
     set_time_us 1751367600000000
       (clock_config_new 0 0 0 0 0)\<lparr>calibration := 0x80000, configured := True, offset_seconds := 3600\<rparr>"

text \<open>The clock of the example shows 2025-07-01 12:00:00 at the summer offset: before the raise time.\<close>

abbreviation summer_noon :: "int \<times> i32" where "summer_noon \<equiv> (1751367600000000000, 3600)"

lemma summer_time: "get_time_us summer_clock = 1751367600000000"
  unfolding summer_clock_def
  by (simp add: set_time_us_def set_boot_time_us_def get_time_us_def get_boot_time_us_def get_rtc_time_us_def
      get_rtc_time_cal_us_def get_rtc_time_raw_def clock_config_new_def CAL_FRACT_def)

lemma summer_datetime: "datetime reference_time summer_clock = Ok summer_noon"
proof -
  have "(1751367600000000000 :: int) < year_start 10000 * day_nanos"
    by (simp add: year_start_def leap_days_def day_nanos_def)
  moreover have "uint (1751367600000000 :: u64) * 1000 = 1751367600000000000" by simp
  ultimately show ?thesis
    using summer_time by (simp add: datetime_def offset_def reference_time_simps(3,7,8)) (simp add: summer_clock_def)
qed

lemma example_sun_simps:
  "from_ymd_opt example_sun y m d = Some ()"
  "sun_hour example_sun (sunset_event example_sun c n) = 20"
  "sun_minute example_sun (sunset_event example_sun c n) = 21"
  "sun_second example_sun (sunset_event example_sun c n) = 0"
  by (simp_all add: example_sun_def)

lemma summer_sunset:
  "sunset_of reference_time example_sun () summer_noon = Some (1751397660000000000, 3600)"
proof -
  obtain d where d: "sunset_of reference_time example_sun () summer_noon = Some d" "snd d = 3600"
    "local_nanos d = local_nanos summer_noon div day_nanos * day_nanos +
       (uint (20 :: u32) * 3600 + uint (21 :: u32) * 60 + uint (0 :: u32)) * 1000000000 + local_nanos summer_noon mod 1000000000"
    by (rule sunset_of_reference [of example_sun summer_noon "()" "sunset_event example_sun () ()" "()"])
      (simp_all add: example_sun_simps)
  have "local_nanos summer_noon = 1751371200000000000" by (simp add: local_nanos_def)
  then have "local_nanos d = 1751401260000000000" using d(3) by (simp add: day_nanos_def)
  then have "fst d = 1751397660000000000" using d(2) by (simp add: local_nanos_def)
  with d(1,2) show ?thesis by (cases d) simp
qed

abbreviation summer_turn ::
  "(int \<times> i32) schedule \<Rightarrow> (unit, (unit, unit, unit, unit, unit) blind_error) outcome \<times> (int \<times> i32) schedule" where
  "summer_turn \<equiv> schedule_turn reference_time example_sun () half_past_noon summer_clock"

lemma summer_turn_run:
  "summer_turn schedule_init =
     (Ok (), \<lparr>sch_sunset = Some (1751397660000000000, 3600), sch_state = Some Lower, sch_send = Some Lower\<rparr>)"
proof -
  obtain r t where run: "summer_turn schedule_init = (r, t)" by (rule prod.exhaust)
  have calc: "(calculate_sunset reference_time example_sun summer_noon () schedule_init ::
      (int \<times> i32, (unit, unit, unit, unit, unit) blind_error) outcome \<times> (int \<times> i32) schedule) =
      (Ok (1751397660000000000, 3600), schedule_init)"
  proof -
    obtain q :: "(int \<times> i32, (unit, unit, unit, unit, unit) blind_error) outcome" and s1 where
      q: "calculate_sunset reference_time example_sun summer_noon () (schedule_init :: (int \<times> i32) schedule) = (q, s1)"
      by (rule prod.exhaust)
    from calculate_sunset_cases [OF q] q show ?thesis by (simp add: summer_sunset)
  qed
  have "local_nanos summer_noon mod day_nanos < half_past_noon"
    by (simp add: local_nanos_def day_nanos_def half_past_noon_def)
  then have decide: "choose_action x (time_le reference_time half_past_noon (dt_time reference_time summer_noon)) =
      map_option (\<lambda>_. Lower) x" for x
    by (cases x) (simp_all add: choose_action_def reference_time_simps split: bool.splits)
  show ?thesis
    using calc
    by (simp add: schedule_turn_def refresh_sunset_def schedule_decide_def tryA_def from_outcome_def ret_def
        modify_def summer_datetime decide) (simp add: schedule_init_def)
qed

theorem schedule_decides_witness:
  "\<exists>t. summer_turn schedule_init = (Ok (), t) \<and> sch_state t = Some Lower \<and> sch_send t = Some Lower"
  using schedule_decides [OF summer_turn_run] summer_turn_run by auto

text \<open>The sunset of the library, which is in UTC, is used as a local time of day: on the reference
  calendar, whatever the offset of the clock, the sunset calculated has the local date of the clock and the UTC clock
  reading of the sunset as its local time of day, so that at the summer offset it is an hour early.\<close>

theorem sunset_read_as_local_time:
  assumes "from_ymd_opt sol (dt_year reference_time (i, off)) (dt_month reference_time (i, off))
      (dt_day reference_time (i, off)) = Some date"
    and "sd = sunset_event sol coords date"
    and "sun_hour sol sd < 24" "sun_minute sol sd < 60" "sun_second sol sd < 60"
  shows "\<exists>j. calculate_sunset reference_time sol (i, off) coords s =
      (Ok (j, off) :: (int \<times> i32, ('f, 'n, 'h, 'i, 'x) blind_error) outcome, s) \<and>
    j + sint off * 1000000000 = dt_date reference_time (i, off) * day_nanos +
      (uint (sun_hour sol sd) * 3600 + uint (sun_minute sol sd) * 60 + uint (sun_second sol sd)) * 1000000000 +
      i mod 1000000000"
proof -
  obtain d where d: "sunset_of reference_time sol coords (i, off) = Some d" "snd d = off"
    "local_nanos d = local_nanos (i, off) div day_nanos * day_nanos +
       (uint (sun_hour sol sd) * 3600 + uint (sun_minute sol sd) * 60 + uint (sun_second sol sd)) * 1000000000 +
       local_nanos (i, off) mod 1000000000"
    by (rule sunset_of_reference [OF assms]) simp
  obtain q :: "(int \<times> i32, ('f, 'n, 'h, 'i, 'x) blind_error) outcome" and s1 where
    q: "calculate_sunset reference_time sol (i, off) coords s = (q, s1)" by (rule prod.exhaust)
  from calculate_sunset_cases [OF q] d(1) have "q = Ok d" "s1 = s" by simp_all
  with q d(2) have "calculate_sunset reference_time sol (i, off) coords s =
      (Ok (fst d, off) :: (int \<times> i32, ('f, 'n, 'h, 'i, 'x) blind_error) outcome, s)" by (cases d) simp
  moreover have "local_nanos (i, off) mod 1000000000 = i mod 1000000000"
    by (simp add: local_nanos_def)
  then have "fst d + sint off * 1000000000 = dt_date reference_time (i, off) * day_nanos +
      (uint (sun_hour sol sd) * 3600 + uint (sun_minute sol sd) * 60 + uint (sun_second sol sd)) * 1000000000 +
      i mod 1000000000"
    using d(2,3) by (cases d) (simp add: local_nanos_def reference_time_simps)
  ultimately show ?thesis by blast
qed

theorem sunset_read_as_local_time_witness:
  "\<exists>j. calculate_sunset reference_time example_sun summer_noon () () =
      (Ok (j, 3600) :: (int \<times> i32, (unit, unit, unit, unit, unit) blind_error) outcome, ()) \<and>
    j = 1751401260000000000 - 3600 * 1000000000"
proof -
  have "dt_date reference_time summer_noon = 20270"
    by (simp add: reference_time_simps local_nanos_def day_nanos_def)
  with sunset_read_as_local_time [of example_sun 1751367600000000000 3600 "()" "sunset_event example_sun () ()" "()" "()"]
  show ?thesis by (simp add: example_sun_simps day_nanos_def)
qed

section \<open>Properties of the running controller\<close>

text \<open>C16: As long as no web handler sends a command, and whatever the order in which the schedule, the channel and the motor take their
  steps, the blind is where the schedule last wanted it whenever no command is pending or being carried out: one blind height down after a decision to lower, up otherwise.\<close>

theorem blind_follows_schedule:
  assumes "channel_contract ch contents"
    and "controller_reach api sol coords raise ch contents (\<lambda>_. False) s"
    and "contents (ct_queue s) = []" "sch_send (ct_schedule s) = None" "ct_moves s = []"
  shows "travel (ct_driver s) = (if sch_state (ct_schedule s) = Some Lower then - 8900 else 0)"
  using idle_position [OF assms(1,2)] assms(3-5) by (simp add: controller_idle_def)

lemma list_reach:
  "controller_reach reference_time example_sun () half_past_noon list_channel id web (controller_init [])"
  by (rule start) simp

lemma summer_reach:
  "\<exists>s :: (step_command list, int \<times> i32) controller.
     controller_reach reference_time example_sun () half_past_noon list_channel id (\<lambda>_. False) s \<and>
     ct_queue s = [] \<and> sch_send (ct_schedule s) = None \<and> ct_moves s = [] \<and> sch_state (ct_schedule s) = Some Lower"
proof -
  let ?sch = "\<lparr>sch_sunset = Some (1751397660000000000, 3600), sch_state = Some Lower, sch_send = Some Lower\<rparr>"
  let ?s = "(controller_init [])\<lparr>ct_schedule := ?sch\<rparr> :: (step_command list, int \<times> i32) controller"
  have r: "controller_reach reference_time example_sun () half_past_noon list_channel id (\<lambda>_. False) ?s"
    by (rule steps [OF list_reach]) (rule schedule_turns [where clock = summer_clock],
        simp_all add: controller_init_def summer_turn_run, simp add: schedule_init_def)
  obtain t where
    t: "(controller_step reference_time example_sun () half_past_noon list_channel (\<lambda>_. False))\<^sup>*\<^sup>* ?s t"
    "pending id t = []" "sch_state (ct_schedule t) = sch_state (ct_schedule ?s)" "carried_out (pending id ?s) ?s t"
    using controller_drain [OF list_channel_contract, of reference_time example_sun "()" half_past_noon "\<lambda>_. False" ?s]
    by blast
  from controller_reach_rtranclp [OF t(1) r] t(2-4) show ?thesis
    by (auto simp: pending_def carried_out_def split: option.splits)
qed

theorem blind_follows_schedule_witness:
  "\<exists>s :: (step_command list, int \<times> i32) controller.
     controller_reach reference_time example_sun () half_past_noon list_channel id (\<lambda>_. False) s \<and>
     travel (ct_driver s) = - 8900"
proof -
  obtain s :: "(step_command list, int \<times> i32) controller" where
    s: "controller_reach reference_time example_sun () half_past_noon list_channel id (\<lambda>_. False) s"
    "ct_queue s = []" "sch_send (ct_schedule s) = None" "ct_moves s = []" "sch_state (ct_schedule s) = Some Lower"
    using summer_reach by blast
  from blind_follows_schedule [OF list_channel_contract s(1)] s show ?thesis by auto
qed

text \<open>The purpose of the firmware, from the clock to the blind: after a turn of the schedule that succeeds, and
  until the schedule records another decision, the blind is up when it is idle exactly if the clock shows a time
  from the raise time to the sunset of its day, and one blind height down otherwise; and the tasks can go on until
  it is idle.\<close>

theorem blind_tracks_daylight:
  assumes "channel_contract ch contents"
    and "controller_reach api sol coords raise ch contents (\<lambda>_. False) s" "sch_send (ct_schedule s) = None"
    and "schedule_turn api sol coords raise clock (ct_schedule s) =
      (Ok () :: (unit, (unit, unit, unit, unit, unit) blind_error) outcome, sch)"
    and "after = (controller_step api sol coords raise ch (\<lambda>_. False))\<^sup>*\<^sup>* (s\<lparr>ct_schedule := sch\<rparr>)"
    and "idle = (\<lambda>u. controller_idle contents u \<and> sch_state (ct_schedule u) = sch_state sch)"
  shows "\<exists>now sunset. datetime api clock = Ok now \<and> sch_sunset sch = Some sunset \<and>
    sunset_used api sol coords now (sch_sunset (ct_schedule s)) sunset \<and>
    (\<forall>u. after u \<and> idle u \<longrightarrow> travel (ct_driver u) = (if daylight api raise sunset now then 0 else - 8900)) \<and>
    (\<exists>u. after u \<and> idle u)"
proof -
  let ?s = "s\<lparr>ct_schedule := sch\<rparr>"
  from assms(4) obtain now sunset where now: "datetime api clock = Ok now" "sch_sunset sch = Some sunset"
    "sunset_used api sol coords now (sch_sunset (ct_schedule s)) sunset"
    "sch_state sch = Some (if daylight api raise sunset now then Raise else Lower)"
    by (cases rule: schedule_turn_cases) auto
  have reach: "controller_reach api sol coords raise ch contents (\<lambda>_. False) ?s"
    by (rule steps [OF assms(2)], rule schedule_turns [OF assms(3,4)])
  have "travel (ct_driver u) = (if daylight api raise sunset now then 0 else - 8900)" if "after u" "idle u" for u
  proof -
    have "controller_reach api sol coords raise ch contents (\<lambda>_. False) u"
      using controller_reach_rtranclp [OF _ reach] that(1) assms(5) by blast
    from idle_position [OF assms(1) this] that(2) now(4) assms(6) show ?thesis by simp
  qed
  moreover obtain t where "(controller_step api sol coords raise ch (\<lambda>_. False))\<^sup>*\<^sup>* ?s t" "pending contents t = []"
    "sch_state (ct_schedule t) = sch_state (ct_schedule ?s)" "carried_out (pending contents ?s) ?s t"
    using controller_drain [OF assms(1), of api sol coords raise "\<lambda>_. False" ?s] by blast
  then have "after t \<and> idle t" using assms(5,6) by (simp add: idle_pending carried_out_def)
  ultimately show ?thesis using now(1-3) by blast
qed

theorem blind_tracks_daylight_witness:
  "\<exists>u :: (step_command list, int \<times> i32) controller.
     controller_idle id u \<and> sch_state (ct_schedule u) = Some Lower \<and> travel (ct_driver u) = - 8900"
proof -
  let ?sch = "\<lparr>sch_sunset = Some (1751397660000000000, 3600), sch_state = Some Lower, sch_send = Some Lower\<rparr>"
  let ?s0 = "controller_init [] :: (step_command list, int \<times> i32) controller"
  have turn: "summer_turn (ct_schedule ?s0) = (Ok (), ?sch)"
    by (simp add: controller_init_def summer_turn_run)
  have quiet: "sch_send (ct_schedule ?s0) = None" by (simp add: controller_init_def schedule_init_def)
  have night: "\<not> daylight reference_time half_past_noon sunset summer_noon" for sunset
    by (simp add: daylight_def reference_time_simps local_nanos_def day_nanos_def half_past_noon_def)
  from blind_tracks_daylight [OF list_channel_contract list_reach quiet turn refl refl] night
  show ?thesis by (auto simp: summer_datetime)
qed

text \<open>Raise and lower requests over the web, interleaved with the schedule in any way, never drive
  the blind beyond its two end positions, not even in the middle of a command, and between commands the blind
  is at the end position of the flag with the driver disabled.\<close>

theorem web_requests_stay_in_range:
  assumes "channel_contract ch contents"
    and "controller_reach api sol coords raise ch contents (\<lambda>c. c = Raise \<or> c = Lower) s"
  shows "- 8900 \<le> travel (ct_driver s) \<and> travel (ct_driver s) \<le> 0 \<and>
    (ct_moves s = [] \<longrightarrow>
       travel (ct_driver s) = (if ct_raised s then 0 else - 8900) \<and> pin_en (ct_driver s) = High)"
proof -
  have "position_inv contents s"
    by (rule position_inv_reach [OF assms(1) _ assms(2)]) (simp add: positioning_def)
  moreover have "way_in_range s"
    by (rule way_in_range_reach [OF assms(1) _ assms(2)]) (simp add: positioning_def)
  then have "- full_travel \<le> travel (drive [] (ct_driver s)) \<and> travel (drive [] (ct_driver s)) \<le> 0"
    by (rule way_in_rangeD) simp
  ultimately show ?thesis using settled_idle [of s] by (auto simp: position_inv_def raised_travel_def at_rest_def)
qed

theorem web_requests_stay_in_range_witness:
  "\<exists>s :: (step_command list, int \<times> i32) controller.
     controller_reach reference_time example_sun () half_past_noon list_channel id (\<lambda>c. c = Raise \<or> c = Lower) s \<and>
     ct_moves s \<noteq> [] \<and> - 8900 \<le> travel (ct_driver s)"
proof -
  let ?R = "controller_reach reference_time example_sun () half_past_noon list_channel id (\<lambda>c. c = Raise \<or> c = Lower)"
  let ?s = "(controller_init [])\<lparr>ct_queue := [Lower]\<rparr> :: (step_command list, int \<times> i32) controller"
  have r: "?R ?s"
    by (rule steps [OF list_reach])
      (rule web_sends [of _ Lower], simp_all add: controller_init_def list_channel_def channel_capacity_def)
  obtain raised es where m: "motor_command MICROSTEPS Lower (ct_raised ?s) = (raised, es)" by (rule prod.exhaust)
  let ?t = "?s\<lparr>ct_queue := [], ct_raised := raised, ct_moves := es\<rparr>"
  have "?R ?t"
    by (rule steps [OF r], rule motor_receives [OF _ _ m]) (simp_all add: list_channel_def controller_init_def)
  moreover have "ct_moves ?t \<noteq> []" using m by (auto simp: motor_command_def skipped_def controller_init_def split_beta)
  moreover have "- 8900 \<le> travel (ct_driver ?t)"
    using web_requests_stay_in_range [OF list_channel_contract calculation(1)] by blast
  ultimately show ?thesis by blast
qed

text \<open>C17: The controller does with the motor what the motor task alone does: in every reachable state the
  driver has seen a part of the pin changes and waits the task makes for the commands received so far, in their order, and
  the rest is still to do. Every command received or pending was asked for by the web or
  the schedule; without the web no command is asked for twice in a row and the last one is the
  decision the schedule has recorded.\<close>

theorem controller_refines_motor:
  assumes "channel_contract ch contents"
    and "controller_reach api sol coords raise ch contents web s"
  shows "\<exists>rcvd past asked.
    asked = rcvd @ contents (ct_queue s) @ (case sch_send (ct_schedule s) of None \<Rightarrow> [] | Some c \<Rightarrow> [c]) \<and>
    motor_task MICROSTEPS rcvd = (ct_raised s, past @ ct_moves s) \<and> ct_driver s = drive past driver_init \<and>
    list_all (\<lambda>c. web c \<or> c = Raise \<or> c = Lower) asked \<and>
    ((\<forall>c. \<not> web c) \<longrightarrow>
      distinct_adj asked \<and> sch_state (ct_schedule s) = (if asked = [] then None else Some (last asked)))"
proof -
  obtain rcvd where "motor_history rcvd s" "asked_for web (rcvd @ pending contents s) s"
    using history_reach [OF assms] by blast
  then show ?thesis
    unfolding motor_history_def asked_for_def pending_def positioning_def by blast
qed

theorem controller_refines_motor_witness:
  "\<exists>(s :: (step_command list, int \<times> i32) controller) rcvd.
     sch_state (ct_schedule s) = Some Lower \<and> last rcvd = Lower \<and> distinct_adj rcvd \<and>
     motor_task MICROSTEPS rcvd = (ct_raised s, snd (motor_task MICROSTEPS rcvd)) \<and>
     ct_driver s = drive (snd (motor_task MICROSTEPS rcvd)) driver_init"
proof -
  obtain s :: "(step_command list, int \<times> i32) controller" where
    s: "controller_reach reference_time example_sun () half_past_noon list_channel id (\<lambda>_. False) s"
    "ct_queue s = []" "sch_send (ct_schedule s) = None" "ct_moves s = []" "sch_state (ct_schedule s) = Some Lower"
    using summer_reach by blast
  from controller_refines_motor [OF list_channel_contract s(1)] s obtain rcvd past where
    "motor_task MICROSTEPS rcvd = (ct_raised s, past)" "ct_driver s = drive past driver_init"
    "distinct_adj rcvd" "Some Lower = (if rcvd = [] then None else Some (last rcvd))"
    by auto
  with s(5) show ?thesis by (intro exI [of _ s] exI [of _ rcvd]) (auto split: if_splits)
qed

text \<open>C33: The controller does not get stuck: from every state, whatever is pending, the tasks can go on to a
  state in which every pending command was carried out, in the order of the channel and after the one
  in progress, and the schedule still wants what it wanted.\<close>

theorem pending_commands_drain:
  assumes "channel_contract ch contents"
    and "asked = contents (ct_queue s) @ (case sch_send (ct_schedule s) of None \<Rightarrow> [] | Some c \<Rightarrow> [c])"
  shows "\<exists>t. (controller_step api sol coords raise ch web)\<^sup>*\<^sup>* s t \<and>
    contents (ct_queue t) = [] \<and> sch_send (ct_schedule t) = None \<and> ct_moves t = [] \<and>
    sch_state (ct_schedule t) = sch_state (ct_schedule s) \<and>
    ct_raised t = last_position (ct_raised s) asked \<and>
    ct_driver t = drive (ct_moves s @ snd (motor_run MICROSTEPS (ct_raised s) asked)) (ct_driver s)"
proof -
  obtain t where "(controller_step api sol coords raise ch web)\<^sup>*\<^sup>* s t" "pending contents t = []"
    "sch_state (ct_schedule t) = sch_state (ct_schedule s)" "carried_out (pending contents s) s t"
    using controller_drain [OF assms(1), of api sol coords raise web s] by blast
  moreover have "pending contents s = asked" using assms(2) by (simp add: pending_def)
  ultimately show ?thesis
    by (intro exI [of _ t])
      (auto simp: carried_out_def settled_def fst_motor_run pending_def split: option.splits)
qed

theorem pending_commands_drain_witness:
  "\<exists>t :: (step_command list, int \<times> i32) controller.
     (controller_step reference_time example_sun () half_past_noon list_channel (\<lambda>_. False))\<^sup>*\<^sup>*
       ((controller_init [])\<lparr>ct_queue := [Lower, Raise]\<rparr>) t \<and> ct_queue t = [] \<and> ct_raised t"
proof -
  let ?s = "(controller_init [])\<lparr>ct_queue := [Lower, Raise]\<rparr> :: (step_command list, int \<times> i32) controller"
  from pending_commands_drain [OF list_channel_contract, of "[Lower, Raise]" ?s reference_time example_sun "()" half_past_noon
      "\<lambda>_. False"]
  show ?thesis by (auto simp: controller_init_def schedule_init_def)
qed

text \<open>The answers to web commands fit the buffer they are written to, whatever number was asked
  for, and each of them belongs to the command that is sent.\<close>

theorem web_replies_fit:
  assumes "web_route parse path = Some (command, reply)"
  shows "length reply \<le> 64 \<and>
    (command = Raise \<and> path = [ascii ''raise''] \<or> command = Lower \<and> path = [ascii ''lower''] \<or>
     (\<exists>seg n. parse seg = Some n \<and>
       (command = Forward n \<and> path = [ascii ''forward'', seg] \<or> command = Backward n \<and> path = [ascii ''backward'', seg])))"
proof -
  have "length (show_nat (unat n)) \<le> 10" for n :: usize
  proof -
    have "unat n < 2 ^ LENGTH(32)" by (rule unsigned_less)
    then show ?thesis by (intro length_show_nat) simp_all
  qed
  then have len: "length (ascii ''Backwards '' @ show_nat (unat n)) \<le> 64" "length (ascii ''Forward '' @ show_nat (unat n)) \<le> 64"
    for n :: usize
    by (simp_all add: ascii_def le_trans [of _ 10])
  have "length (ascii ''Raise'') \<le> 64" "length (ascii ''Lower'') \<le> 64" by (simp_all add: ascii_def)
  with assms len show ?thesis
    unfolding web_route_def by (auto split: list.splits if_splits)
qed

theorem web_replies_fit_witness:
  "web_route (\<lambda>_. Some 7) [ascii ''forward'', [55]] = Some (Forward 7, ascii ''Forward '' @ show_nat 7) \<and>
   length (ascii ''Forward '' @ show_nat 7) \<le> 64"
proof -
  have "web_route (\<lambda>_. Some 7) [ascii ''forward'', [55]] = Some (Forward 7, ascii ''Forward '' @ show_nat 7)"
    by (simp add: web_route_def)
  from web_replies_fit [OF this] this show ?thesis by simp
qed

end
