(* ===== verification/Time_Properties.thy ===== *)
theory Time_Properties
  imports Ntp
begin

text \<open>
  The properties of the system clock (src/system_time.rs) and of the NTP client (src/ntp.rs),
  and their instances. The example clock was calibrated with one microsecond per tick
  (the factor 2 ^ 19), and its counter has reached 5000.
\<close>

definition example_clock :: clock where
  "example_clock =
     \<lparr>store1 = 0x80000, store2 = 0, store3 = 0, rtc_low = 5000, rtc_high = 0,
      configured = True, offset_seconds = 0, calibration = 0x80000, ntp_synchronized = False\<rparr>"

definition wait_us :: "u32 \<Rightarrow> clock \<Rightarrow> clock" where
  "wait_us n c = c\<lparr>rtc_low := rtc_low c + n\<rparr>"

text \<open>A network on which every request is answered with the same result, at once.\<close>

definition example_net :: "ntp_result \<Rightarrow> (unit, unit) ntp_net" where
  "example_net r =
     \<lparr>query_a = (\<lambda>_ w. Some (Inr [Ipv4 0x7f000001], w)),
      bind_any = (\<lambda>w. (Inr (), w)),
      get_time = (\<lambda>_ _. returning (ret r)),
      fraction_to_microseconds = id,
      tick = id\<rparr>"

lemma example_clock_simps [simp]:
  "get_rtc_time_us example_clock = 5000"
  "get_boot_time_us example_clock = 0"
  "get_time_us example_clock = 5000"
  by (simp_all add: example_clock_def get_rtc_time_us_def get_rtc_time_cal_us_def get_rtc_time_raw_def
      CAL_FRACT_def get_boot_time_us_def get_time_us_def)

section \<open>The clock\<close>

text \<open>C27: A clock that was set to \<open>t\<close> reads \<open>t + d\<close> once the counter has moved on by \<open>d\<close> microseconds, for all times that fit 64 bits
  and wherever the counter was, with one exception: set to zero when the counter has moved since the boot, it reads the largest
  64-bit time until it moves again.\<close>

theorem clock_set_then_runs:
  assumes "later d (set_time_us t c) c'" "unat t + unat d < 2 ^ 64"
  shows "get_time_us c' = (if t + d = 0 \<and> 0 < get_rtc_time_us c then 0xFFFFFFFFFFFFFFFF else t + d)"
  using set_time_later [OF assms] by simp

theorem clock_set_then_runs_witness:
  "get_time_us (set_time_us 3 example_clock) = 3 \<and> get_time_us (wait_us 10 (set_time_us 3 example_clock)) = 3 + 10 \<and>
   get_time_us (set_time_us 0 example_clock) = 0xFFFFFFFFFFFFFFFF"
proof -
  have "later 10 (set_time_us 3 example_clock) (wait_us 10 (set_time_us 3 example_clock))"
    by (simp add: later_def wait_us_def set_time_us_def set_boot_time_us_def get_boot_time_us_def
        get_rtc_time_us_def get_rtc_time_cal_us_def get_rtc_time_raw_def CAL_FRACT_def example_clock_def)
  then show ?thesis
    using clock_set_then_runs [of 10 3 example_clock] clock_set_then_runs [OF later_0, of 3 example_clock]
      clock_set_then_runs [OF later_0, of 0 example_clock]
    by simp
qed

text \<open>Setting the clock to zero once the counter has moved makes it read the largest
  64-bit time instead.\<close>

theorem clock_set_to_zero:
  "get_time_us (set_time_us 0 c) = (if get_rtc_time_us c = 0 then 0 else 0xFFFFFFFFFFFFFFFF)"
  using get_set_time_zero [of c] by simp

text \<open>C38: On a configured clock the split multiplication computes the counter times the
  calibration register, scaled down by 2 ^ 19, to the word size, for every counter and register
  value; for the counter and the calibration the source allows for (48 and 24 bits) nothing wraps.\<close>

theorem configured_clock_scales:
  "unat (get_rtc_time_us (configure api o' c)) =
     (unat (get_rtc_time_raw c) * unat (store1 c) div 2 ^ 19) mod 2 ^ 64 \<and>
   (unat (get_rtc_time_raw c) < 2 ^ 48 \<and> unat (store1 c) < 2 ^ 24 \<longrightarrow>
     unat (get_rtc_time_us (configure api o' c)) = unat (get_rtc_time_raw c) * unat (store1 c) div 2 ^ 19)"
proof -
  let ?c = "configure api o' c"
  have raw: "get_rtc_time_raw ?c = get_rtc_time_raw c"
    by (simp add: configure_def Let_def set_offset_def get_rtc_time_raw_def)
  have "unat (store1 c) < 2 ^ LENGTH(32)" by (rule unsigned_less)
  then have cal: "unat (calibration ?c) = unat (store1 c)" and small: "unat (store1 c) < 2 ^ 32"
    by (simp_all add: configure_def Let_def get_cal_val_def set_offset_def unsigned_ucast_eq
        take_bit_nat_eq_self_iff)
  from calibrated_time_nat [of ?c] cal small raw
  have eq: "unat (get_rtc_time_us ?c) = (unat (get_rtc_time_raw c) * unat (store1 c) div 2 ^ 19) mod 2 ^ 64"
    by simp
  have "unat (get_rtc_time_raw c) * unat (store1 c) div 2 ^ 19 < 2 ^ 64"
    if "unat (get_rtc_time_raw c) < 2 ^ 48" "unat (store1 c) < 2 ^ 24"
  proof -
    have "unat (get_rtc_time_raw c) * unat (store1 c) < 2 ^ 48 * 2 ^ 24"
      using that by (intro mult_strict_mono) auto
    then show ?thesis by (simp add: less_mult_imp_div_less)
  qed
  with eq show ?thesis by simp
qed

theorem configured_clock_scales_witness:
  "unat (get_rtc_time_us (configure reference_time 0 example_clock)) = 5000"
  using configured_clock_scales [of reference_time 0 example_clock]
  by (simp add: example_clock_def get_rtc_time_raw_def)

text \<open>An offset that is set is the offset that is read back.\<close>

theorem offset_roundtrip:
  assumes "time_contract api"
  shows "offset api (set_offset api o' c) = Ok o'"
  using time_contractD(1) [OF assms] by (simp add: offset_def set_offset_def)

theorem offset_roundtrip_witness:
  "offset reference_time (set_offset reference_time 3600 example_clock) = Ok 3600"
  using offset_roundtrip [OF reference_time_contract] .

text \<open>A counter latch that becomes valid is waited for, and no longer: the loop ends at
  the first poll that finds it valid.\<close>

theorem latch_is_awaited:
  assumes "valid k" "\<And>j. j < k \<Longrightarrow> \<not> valid j"
  shows "await_time_valid valid 0 = Some k"
  by (rule await_time_valid_first) (use assms in auto)

theorem latch_is_awaited_witness: "await_time_valid (\<lambda>i. 2 \<le> i) 0 = Some 2"
  by (rule latch_is_awaited) simp_all

section \<open>The NTP client\<close>

text \<open>The timestamps handed to the NTP request split the time into whole seconds and the
  microseconds left, with nothing lost.\<close>

theorem timestamp_splits_time:
  assumes "timestamp_init api debug_on c = Ok g"
  shows "unat (tg_seconds g) * 1000000 + unat (tg_sub_seconds g) = unat (get_time_us c) \<and>
    unat (tg_sub_seconds g) < 1000000"
proof -
  let ?us = "get_time_us c"
  have g: "tg_seconds g = ?us div 1000000" "tg_sub_seconds g = ucast (?us - ?us div 1000000 * 1000000)"
    using assms by (auto simp: timestamp_init_def Let_def US_PER_S_def split: if_splits)
  have rest: "?us - ?us div 1000000 * 1000000 = ?us mod 1000000"
    by (metis add_diff_cancel_left' div_mult_mod_eq)
  have "unat (?us mod 1000000) = unat ?us mod 1000000" by (simp add: unat_mod)
  then have "unat (tg_sub_seconds g) = unat ?us mod 1000000"
    unfolding g rest by (simp add: unsigned_ucast_eq take_bit_nat_eq_self_iff)
  then show ?thesis by (simp add: g unat_div)
qed

theorem timestamp_splits_time_witness:
  "\<exists>g. timestamp_init reference_time False example_clock = (Ok g :: (timestamp_gen, unit) outcome) \<and>
     unat (tg_seconds g) * 1000000 + unat (tg_sub_seconds g) = 5000"
proof -
  obtain g where g: "timestamp_init reference_time False example_clock = (Ok g :: (timestamp_gen, unit) outcome)"
    by (simp add: timestamp_init_def Let_def)
  from timestamp_splits_time [OF g] g show ?thesis by auto
qed

text \<open>C28: An answered request corrects the clock, in every case. With \<open>use_offset\<close> the new time is what the clock read when the answer
  arrived plus the signed offset of the answer, without it it is the time of the answer, which does not wrap. With debug logging
  on the request panics if one of the two times is outside the calendar. Otherwise the clock then reads the new time (or, when
  that is zero, the largest 64-bit time), and the adjustment returned is the distance between the new time and the reading
  before the correction.\<close>

theorem ntp_request_corrects_clock:
  assumes ans: "ntp_answered api debug_on nw client s r u"
    and new: "new_time = (if use_offset then get_time_us (clk u) + nr_offset r else ntp_time)"
    and time: "unat ntp_time = unat (nr_sec r) * 1000000 + unat (fraction_to_microseconds nw (nr_sec_fraction r))"
    and now: "now = get_time_us (if use_offset then tick nw (clk u) else clk u)"
  shows "\<exists>q t. ntp_request api debug_on nw client use_offset s = Some (q, t) \<and>
    (if debug_on \<and> (\<not> debug_datetime_ok api new_time \<or> \<not> debug_datetime_ok api ntp_time) then q = Panic
     else (\<exists>adjustment. q = Ok (ntp_time, adjustment) \<and>
       get_time_us (clk t) = (if new_time = 0 \<and> 0 < get_rtc_time_us (clk t) then 0xFFFFFFFFFFFFFFFF else new_time) \<and>
       unat adjustment = nat \<bar>int (unat now) - int (unat new_time)\<bar> \<and>
       offset_seconds (clk t) = offset_seconds (tick nw (if use_offset then tick nw (clk u) else clk u))))"
proof -
  have nt: "ntp_time = ntp_time_us nw r" using time unat_ntp_time [of nw r] by (simp add: word_unat_eq_iff)
  have nn: "ntp_new_time nw use_offset r (clk u) = new_time" using new nt by (cases use_offset) simp_all
  have set: "get_time_us (set_time_us new_time c) =
      (if new_time = 0 \<and> 0 < get_rtc_time_us c then 0xFFFFFFFFFFFFFFFF else new_time)" for c
    using get_set_time [of new_time c] get_set_time_zero [of c] by (cases "new_time = 0") (simp_all add: word_gt_0)
  have "nat \<bar>int a - int b\<bar> = (if b \<le> a then a - b else b - a)" for a b :: nat by auto
  then have "unat (ntp_adjustment now new_time) = nat \<bar>int (unat now) - int (unat new_time)\<bar>"
    by (simp only: ntp_adjustment_nat)
  with ntp_request_answered [OF ans, of use_offset] nn nt set now show ?thesis
    by (simp add: Let_def)
qed

definition example_answer :: ntp_result where
  "example_answer = \<lparr>nr_sec = 1700000000, nr_sec_fraction = 250, nr_offset = 1699999999995250\<rparr>"

theorem ntp_request_corrects_clock_witness:
  "\<exists>adjustment t. ntp_request reference_time True (example_net example_answer) (ntp_client_new 0x7f000001) True
     \<lparr>net = (), clk = example_clock\<rparr> = Some (Ok (1700000000000250, adjustment), t) \<and>
     get_time_us (clk t) = 1700000000000250"
proof -
  let ?s = "\<lparr>net = (), clk = example_clock\<rparr>"
  have ans: "ntp_answered reference_time True (example_net example_answer) (ntp_client_new 0x7f000001)
      ?s example_answer ?s"
    by (simp add: ntp_answered_def example_net_def)
  have dbg: "debug_datetime_ok reference_time 1700000000000250"
    by (simp add: debug_datetime_ok_def reference_time_def year_start_def leap_days_def day_nanos_def)
  have new: "1700000000000250 = (if True then get_time_us (clk ?s) + nr_offset example_answer else 1700000000000250)"
    and time: "unat (1700000000000250 :: u64) = unat (nr_sec example_answer) * 1000000 +
      unat (fraction_to_microseconds (example_net example_answer) (nr_sec_fraction example_answer))"
    by (simp_all add: example_answer_def example_net_def)
  from ntp_request_corrects_clock [OF ans new time refl] dbg show ?thesis by auto
qed

text \<open>A request that fails never sets the clock: the boot time registers hold what they
  held before, whatever the network did.\<close>

theorem ntp_failure_keeps_clock:
  assumes "net_contract nw" "ntp_request api debug_on nw client use_offset s = Some (Err e, t)"
  shows "get_boot_time_us (clk t) = get_boot_time_us (clk s)"
  using ntp_request_not_answered [OF assms(2)] assms(1)
  unfolding net_contract_def later_def by fastforce

definition failing_net :: "(unit, unit) ntp_net" where
  "failing_net = (example_net example_answer)\<lparr>get_time := (\<lambda>_ _. returning (fail ()))\<rparr>"

theorem ntp_failure_keeps_clock_witness:
  "ntp_request reference_time True failing_net (ntp_client_new 0x7f000001) True \<lparr>net = (), clk = example_clock\<rparr>
     = Some (Err (NtpNtp ()), \<lparr>net = (), clk = example_clock\<rparr>) \<and> get_boot_time_us example_clock = 0"
proof -
  let ?s = "\<lparr>net = (), clk = example_clock\<rparr>"
  have c: "net_contract failing_net"
    by (auto simp: net_contract_def failing_net_def example_net_def returning_def fail_def later_def intro!: exI [of _ 0])
  have run: "ntp_request reference_time True failing_net (ntp_client_new 0x7f000001) True ?s
      = Some (Err (NtpNtp ()), ?s)"
    by (simp add: ntp_request_def tryP_def returning_def zoom_def external_def errP_def failing_net_def
        example_net_def fail_def)
  from ntp_failure_keeps_clock [OF c run] run show ?thesis by simp
qed

end
