(* ===== verification/Ntp_Task_Properties.thy ===== *)
theory Ntp_Task_Properties
  imports Ntp_Task Time_Properties
begin

text \<open>
  The properties of the NTP task: how its turns move the UTC offset between winter and summer
  time. The instances are on the reference calendar, on 2025-11-01 at 12:26:40 UTC, after the
  change back of that year.
\<close>

section \<open>An example\<close>

definition november :: u64 where "november = 1762000000000000"

definition on_time :: ntp_result where
  "on_time = \<lparr>nr_sec = 1762000000, nr_sec_fraction = 0, nr_offset = 0\<rparr>"

definition november_state :: "clock \<Rightarrow> unit ntp_task" where
  "november_state c = \<lparr>nt_first_run = False, nt_ntp = \<lparr>net = (), clk = c\<rparr>\<rparr>"

abbreviation november_turn ::
  "(unit ntp_task, unit, (unit, unit, unit, unit, unit) blind_error) process" where
  "november_turn \<equiv> ntp_task_turn reference_time False (example_net on_time) (ntp_client_new 0x7f000001)"

lemma example_net_contract: "net_contract (example_net r)"
  by (auto simp: net_contract_def example_net_def later_def intro!: exI [of _ 0])

text \<open>The changes of 2025 are at days 20177 (March 30) and 20387 (October 26).\<close>

lemma limits_2025:
  "dst_limits reference_time 2025 =
     Some ((20177 * day_nanos + 3600000000000, 0), (20387 * day_nanos + 7200000000000, 0))"
proof -
  have "prev_weekday (year_start 2025 + month_start 2025 4 + int 1 - 1) Sunday 1 = 20177"
    "prev_weekday (year_start 2025 + month_start 2025 11 + int 1 - 1) Sunday 1 = 20387"
    by (simp_all add: prev_weekday_def year_start_def leap_days_def month_start_def is_leap_def weekday_number_def)
  then show ?thesis by (simp add: dst_limits_def reference_time_simps)
qed

lemma year_of_november: "year_of_day 20393 = 2025"
  by (simp add: year_of_day_def year_start_def leap_days_def)

abbreviation november_nanos :: int where "november_nanos \<equiv> 1762000000000000000"

lemma november_year:
  "old = 0 \<or> old = 3600 \<Longrightarrow> dt_year reference_time (november_nanos, old) = 2025"
proof -
  have "local_nanos (november_nanos, 0) div day_nanos = 20393"
    "local_nanos (november_nanos, 3600) div day_nanos = 20393"
    by (simp_all add: local_nanos_def day_nanos_def)
  then show "old = 0 \<or> old = 3600 \<Longrightarrow> dt_year reference_time (november_nanos, old) = 2025"
    using year_of_november by (auto simp: reference_time_simps)
qed

lemma november_instant:
  "from_unix_timestamp_nanos reference_time (uint november * 1000) = Some (november_nanos, 0)"
  "local_of reference_time old (november_nanos, 0) = Some (november_nanos, old)"
proof -
  have "uint november * 1000 = november_nanos" by (simp add: november_def)
  moreover have "november_nanos < year_start 10000 * day_nanos"
    by (simp add: year_start_def leap_days_def day_nanos_def)
  ultimately show "from_unix_timestamp_nanos reference_time (uint november * 1000) = Some (november_nanos, 0)"
    by (simp add: reference_time_simps)
qed (simp add: local_of_def reference_time_simps)

lemma november_turns:
  assumes "get_time_us c = november" "offset_seconds c = 0 \<or> offset_seconds c = 3600"
  shows "\<exists>c'. november_turn (november_state c) = Some (Ok (), november_state c') \<and> get_time_us c' = november"
proof -
  let ?net = "example_net on_time" and ?client = "ntp_client_new 0x7f000001"
  have "ntp_answered reference_time False ?net ?client \<lparr>net = (), clk = c\<rparr> on_time \<lparr>net = (), clk = c\<rparr>"
    by (simp add: ntp_answered_def example_net_def)
  from ntp_request_answered [OF this, of True] assms(1)
  have request: "ntp_request reference_time False ?net ?client True \<lparr>net = (), clk = c\<rparr> =
      Some (Ok (ntp_time_us ?net on_time, ntp_adjustment november november), \<lparr>net = (), clk = set_time_us november c\<rparr>)"
    by (simp add: example_net_def on_time_def)
  have time: "get_time_us (set_time_us november c) = november"
    by (rule get_set_time) (simp add: november_def)
  let ?now = "(november_nanos, offset_seconds c)"
  have "datetime reference_time (set_time_us november c) = Ok ?now"
    using november_instant(1) time by (simp add: datetime_def offset_def reference_time_simps(3,8))
  moreover have "dst_limits reference_time (dt_year reference_time ?now) = dst_limits reference_time 2025"
    using november_year [OF assms(2)] by simp
  moreover have "offset reference_time (set_time_us november c) = Ok (offset_seconds c)"
    by (simp add: offset_def reference_time_simps(3))
  moreover have "\<exists>change. dst_change reference_time ?now limits (offset_seconds c) = Some change" for limits
    by (simp add: dst_change_def split_beta reference_time_simps(2))
  then obtain change where "dst_change reference_time ?now
      ((20177 * day_nanos + 3600000000000, 0), (20387 * day_nanos + 7200000000000, 0)) (offset_seconds c) =
      Some change" by blast
  ultimately have "november_turn (november_state c) =
      Some (Ok (), november_state (apply_change reference_time change (set_time_us november c)))"
    using request
    by (simp add: ntp_task_turn_def november_state_def zoomP_def errP_def returning_def tryA_def modify_def from_outcome_def
        ok_or_def ret_def limits_2025)
  with time show ?thesis by auto
qed

section \<open>Properties\<close>

text \<open>C29: What a successful turn makes of an offset of none or one hour, by the instant the clock then shows. Before the change of
  March it keeps the offset, also one hour left over from the year before; between the changes of March and October it sets one
  hour; and after the change of October it toggles the offset, where the comment in the source has the clocks go back. In each
  case the clock is marked as synchronised.\<close>

theorem dst_turn:
  assumes "time_contract api" "net_contract nw"
    and "ntp_task_turn api debug_on nw client s = Some (Ok u, t)"
    and "old = offset_seconds (clk (nt_ntp s))" "old = 0 \<or> old = 3600"
    and "from_unix_timestamp_nanos api (uint (get_time_us (clk (nt_ntp t))) * 1000) = Some instant"
    and "local_of api old instant = Some local" "dst_limits api (dt_year api local) = Some (forward, backward)"
    and "dt_ge api backward forward"
  shows "offset_seconds (clk (nt_ntp t)) =
      (if \<not> dt_ge api instant forward then old
       else if \<not> dt_ge api instant backward then 3600
       else if old = 0 then 3600 else 0) \<and>
    ntp_synchronized (clk (nt_ntp t))"
proof -
  have "offset_seconds (clk (nt_ntp t)) = dst_offset api instant (forward, backward) old \<and>
      ntp_synchronized (clk (nt_ntp t))"
  proof (rule ntp_task_turn_offset [OF assms(1-3)])
    fix instant' local' limits'
    assume "from_unix_timestamp_nanos api (uint (get_time_us (clk (nt_ntp t))) * 1000) = Some instant'"
      "local_of api (offset_seconds (clk (nt_ntp s))) instant' = Some local'"
      "dst_limits api (dt_year api local') = Some limits'"
      "offset_seconds (clk (nt_ntp t)) = dst_offset api instant' limits' (offset_seconds (clk (nt_ntp s)))"
      "ntp_synchronized (clk (nt_ntp t))"
    with assms(4,6-8) show ?thesis by simp
  qed
  moreover have "dt_ge api instant backward \<Longrightarrow> dt_ge api instant forward"
    using time_contractD(8) [OF assms(1) _ assms(9)] .
  ultimately show ?thesis using assms(5) by (auto simp: dst_offset_def)
qed

definition november_clock :: "i32 \<Rightarrow> clock" where
  "november_clock secs = set_time_us november (example_clock\<lparr>offset_seconds := secs\<rparr>)"

lemma november_clock_simps [simp]:
  "get_time_us (november_clock secs) = november"
  "offset_seconds (november_clock secs) = secs"
proof -
  have "0 < november" by (simp add: november_def)
  then show "get_time_us (november_clock secs) = november" "offset_seconds (november_clock secs) = secs"
    by (simp_all add: november_clock_def get_set_time)
qed

lemma november_past:
  "dt_ge reference_time (20387 * day_nanos + 7200000000000, 0) (20177 * day_nanos + 3600000000000, 0)"
  "dt_ge reference_time (november_nanos, 0) (20177 * day_nanos + 3600000000000, 0)"
  "dt_ge reference_time (november_nanos, 0) (20387 * day_nanos + 7200000000000, 0)"
  by (simp_all add: reference_time_simps day_nanos_def)

text \<open>A turn in November that finds winter time sets summer time.\<close>

theorem dst_turn_witness:
  "\<exists>t. november_turn (november_state (november_clock 0)) = Some (Ok (), t) \<and> offset_seconds (clk (nt_ntp t)) = 3600"
proof -
  obtain c where c: "november_turn (november_state (november_clock 0)) = Some (Ok (), november_state c)"
    "get_time_us c = november"
    using november_turns [of "november_clock 0"] by auto
  have "offset_seconds (clk (nt_ntp (november_state c))) =
      (if \<not> dt_ge reference_time (november_nanos, 0) (20177 * day_nanos + 3600000000000, 0) then 0
       else if \<not> dt_ge reference_time (november_nanos, 0) (20387 * day_nanos + 7200000000000, 0) then 3600
       else if (0 :: i32) = 0 then 3600 else 0) \<and>
      ntp_synchronized (clk (nt_ntp (november_state c)))"
    by (rule dst_turn [OF reference_time_contract example_net_contract c(1),
          where local = "(november_nanos, 0)"])
      (simp_all add: november_state_def c(2) november_instant november_year limits_2025 november_past)
  with november_past c(1) show ?thesis by auto
qed

text \<open>The clock shows an instant after both changes of the year it has at the offset \<open>secs\<close>.\<close>

definition after_change :: "('o, 'dt, 'd, 't) time_api \<Rightarrow> clock \<Rightarrow> i32 \<Rightarrow> bool" where
  "after_change api c secs \<longleftrightarrow>
     (\<exists>instant local limits.
        from_unix_timestamp_nanos api (uint (get_time_us c) * 1000) = Some instant \<and>
        local_of api secs instant = Some local \<and> dst_limits api (dt_year api local) = Some limits \<and>
        dt_ge api instant (fst limits) \<and> dt_ge api instant (snd limits))"

lemma november_after:
  "get_time_us c = november \<Longrightarrow> secs = 0 \<or> secs = 3600 \<Longrightarrow> after_change reference_time c secs"
  unfolding after_change_def
  by (rule exI [of _ "(november_nanos, 0)"], rule exI [of _ "(november_nanos, secs)"],
      rule exI [of _ "the (dst_limits reference_time 2025)"])
    (simp add: november_instant november_year limits_2025 november_past)

text \<open>C39: After the change of October the hourly turns switch the offset back and forth, one hour
  and none, so that the local time is an hour off every other hour.\<close>

theorem autumn_offset_flips:
  assumes "time_contract api" "net_contract nw"
    and "ntp_task_turn api debug_on nw client s = Some (Ok u, t)" "ntp_task_turn api debug_on nw client t = Some (Ok u', v)"
    and "offset_seconds (clk (nt_ntp s)) = 0"
    and "after_change api (clk (nt_ntp t)) 0" "after_change api (clk (nt_ntp v)) 3600"
  shows "offset_seconds (clk (nt_ntp t)) = 3600 \<and> offset_seconds (clk (nt_ntp v)) = 0"
proof -
  have "offset_seconds (clk (nt_ntp t)) = 3600"
    by (rule ntp_task_turn_offset [OF assms(1-3)])
      (use assms(5,6) in \<open>auto simp: after_change_def dst_offset_def\<close>)
  moreover have "offset_seconds (clk (nt_ntp v)) = 0"
    by (rule ntp_task_turn_offset [OF assms(1,2,4)])
      (use calculation assms(7) in \<open>auto simp: after_change_def dst_offset_def\<close>)
  ultimately show ?thesis by blast
qed

theorem autumn_offset_flips_witness:
  "\<exists>t v. november_turn (november_state (november_clock 0)) = Some (Ok (), t) \<and> november_turn t = Some (Ok (), v) \<and>
     offset_seconds (clk (nt_ntp t)) = 3600 \<and> offset_seconds (clk (nt_ntp v)) = 0"
proof -
  obtain c where c: "november_turn (november_state (november_clock 0)) = Some (Ok (), november_state c)"
    "get_time_us c = november"
    using november_turns [of "november_clock 0"] by auto
  have "offset_seconds (clk (nt_ntp (november_state c))) = 0 \<or> offset_seconds (clk (nt_ntp (november_state c))) = 3600"
    by (rule ntp_task_turn_offset [OF reference_time_contract example_net_contract c(1)])
      (simp add: november_state_def dst_offset_def)
  then obtain d where d: "november_turn (november_state c) = Some (Ok (), november_state d)" "get_time_us d = november"
    using november_turns [OF c(2)] by (auto simp: november_state_def)
  have "offset_seconds (clk (nt_ntp (november_state c))) = 3600 \<and> offset_seconds (clk (nt_ntp (november_state d))) = 0"
    by (rule autumn_offset_flips [OF reference_time_contract example_net_contract c(1) d(1)])
      (use c(2) d(2) november_after in \<open>simp_all add: november_state_def\<close>)
  with c(1) d(1) show ?thesis by blast
qed

text \<open>A turn that fails, for whatever reason, keeps the offset, the configuration and the
  synchronisation flag of the clock.\<close>

theorem failed_turn_keeps_settings:
  assumes "net_contract nw" "ntp_task_turn api debug_on nw client s = Some (Err e, t)"
  shows "offset_seconds (clk (nt_ntp t)) = offset_seconds (clk (nt_ntp s)) \<and>
    ntp_synchronized (clk (nt_ntp t)) = ntp_synchronized (clk (nt_ntp s)) \<and>
    configured (clk (nt_ntp t)) = configured (clk (nt_ntp s))"
  using ntp_task_turn_Err [OF assms] by (simp add: same_settings_def)

abbreviation failing_turn ::
  "(unit ntp_task, unit, (unit, unit, unit, unit, unit) blind_error) process" where
  "failing_turn \<equiv> ntp_task_turn reference_time False failing_net (ntp_client_new 0x7f000001)"

theorem failed_turn_keeps_settings_witness:
  "failing_turn (november_state (november_clock 3600)) =
     Some (Err (Ntp_Error (NtpNtp ())), november_state (november_clock 3600)) \<and>
   offset_seconds (clk (nt_ntp (november_state (november_clock 3600)))) = 3600"
proof -
  have net: "net_contract failing_net"
    by (auto simp: net_contract_def failing_net_def example_net_def returning_def fail_def later_def intro!: exI [of _ 0])
  have run: "failing_turn (november_state (november_clock 3600)) =
      Some (Err (Ntp_Error (NtpNtp ())), november_state (november_clock 3600))"
    by (simp add: ntp_task_turn_def ntp_request_def tryP_def returning_def zoom_def zoomP_def external_def errP_def
        failing_net_def example_net_def fail_def november_state_def)
  from failed_turn_keeps_settings [OF net run] run show ?thesis by (simp add: november_state_def)
qed

end
