(* ===== verification/System_Properties.thy ===== *)
theory System_Properties
  imports System Controller_Properties Ntp_Task_Properties
begin

text \<open>
  The properties of the running firmware, with the tasks on one clock, and instances on the
  reference calendar.
\<close>

section \<open>Refinement\<close>

text \<open>The system with its shared clock refines the controller with arbitrary clocks: every reachable state
  of the system is one of the controller, and every step of it is a step of the controller or leaves the
  controller as it is, so that what is shown of the controller holds of the system.\<close>

theorem system_refines_controller:
  assumes "system_reach api debug_on nw client sol coords raise ch contents web n s"
  shows "controller_reach api sol coords raise ch contents web (sy_controller s) \<and>
    (\<forall>t. system_step api debug_on nw client sol coords raise ch web s t \<longrightarrow>
      sy_controller t = sy_controller s \<or>
      controller_step api sol coords raise ch web (sy_controller s) (sy_controller t))"
  using system_reach_refines [OF assms] by (blast dest: system_step_refines)

abbreviation demo_reach ::
  "unit ntp_state \<Rightarrow> (step_command list, int \<times> i32, unit) system \<Rightarrow> bool" where
  "demo_reach \<equiv> system_reach reference_time False (example_net on_time) (ntp_client_new 0x7f000001) example_sun ()
     half_past_noon list_channel id (\<lambda>_. False)"

abbreviation demo_step ::
  "(step_command list, int \<times> i32, unit) system \<Rightarrow> (step_command list, int \<times> i32, unit) system \<Rightarrow> bool" where
  "demo_step \<equiv> system_step reference_time False (example_net on_time) (ntp_client_new 0x7f000001) example_sun ()
     half_past_noon list_channel (\<lambda>_. False)"

lemma demo_spawned: "demo_reach n (system_init [] n)"
  by (rule spawned) simp

definition summer_state :: "bool \<Rightarrow> unit ntp_state" where
  "summer_state synced = \<lparr>net = (), clk = summer_clock\<lparr>ntp_synchronized := synced\<rparr>\<rparr>"

lemma synced_time [simp]: "get_time_us (c\<lparr>ntp_synchronized := synced\<rparr>) = get_time_us c"
  by (simp add: get_time_us_def get_boot_time_us_def get_rtc_time_us_def get_rtc_time_cal_us_def get_rtc_time_raw_def)

lemma summer_state_clock:
  "ntp_synchronized (clk (summer_state synced)) = synced"
  "offset_seconds (clk (summer_state synced)) = 3600"
  "datetime reference_time (clk (summer_state synced)) = Ok summer_noon"
proof -
  have "datetime reference_time (summer_clock\<lparr>ntp_synchronized := synced\<rparr>) = datetime reference_time summer_clock"
    unfolding datetime_def offset_def synced_time by simp
  then show "datetime reference_time (clk (summer_state synced)) = Ok summer_noon"
    by (simp add: summer_state_def summer_datetime)
qed (simp_all add: summer_state_def summer_clock_def)

lemma summer_state_turn:
  "schedule_turn reference_time example_sun () half_past_noon (clk (summer_state synced)) s = summer_turn s"
  by (simp add: schedule_turn_def summer_state_clock(3) summer_datetime)

text \<open>The system that finds its clock synchronised, and has stopped waiting for it.\<close>

abbreviation summer_system :: "(step_command list, int \<times> i32, unit) system" where
  "summer_system \<equiv> (system_init [] (summer_state True))\<lparr>sy_waiting := False\<rparr>"

lemma summer_system_reach: "demo_reach (summer_state True) summer_system"
  by (rule runs [OF demo_spawned], rule schedule_starts)
    (simp_all add: summer_state_clock, simp add: system_init_def)

theorem system_refines_controller_witness:
  "controller_reach reference_time example_sun () half_past_noon list_channel id (\<lambda>_. False)
     (sy_controller summer_system)"
  using system_refines_controller [OF summer_system_reach] by blast

section \<open>Synchronisation\<close>

text \<open>C21: The blind waits for the time: as long as the clock has not been synchronised the schedule has decided nothing, and
  without web commands the motor has been sent nothing and has done nothing, whatever the clock happens to show.\<close>

theorem blind_waits_for_sync:
  assumes "time_contract api" "net_contract nw" "channel_contract ch contents"
    and "system_reach api debug_on nw client sol coords raise ch contents web n s"
    and "\<not> ntp_synchronized (sy_clock s)"
  shows "sch_state (ct_schedule (sy_controller s)) = None \<and> sch_send (ct_schedule (sy_controller s)) = None \<and>
    ((\<forall>c. \<not> web c) \<longrightarrow> contents (ct_queue (sy_controller s)) = [] \<and> ct_moves (sy_controller s) = [] \<and>
      ct_driver (sy_controller s) = driver_init)"
proof -
  let ?c = "sy_controller s"
  have quiet: "sch_state (ct_schedule ?c) = None" "sch_send (ct_schedule ?c) = None"
    using waits_for_sync_reach [OF assms(1,2,4)] assms(5) by (auto simp: waits_for_sync_def)
  obtain rcvd where h: "motor_history rcvd ?c" "asked_for web (rcvd @ pending contents ?c) ?c"
    using history_reach [OF assms(3) system_reach_refines [OF assms(4)]] by blast
  have "contents (ct_queue ?c) = [] \<and> ct_moves ?c = [] \<and> ct_driver ?c = driver_init" if "\<forall>c. \<not> web c"
  proof -
    from h(2) quiet that have "rcvd = []" "contents (ct_queue ?c) = []"
      by (auto simp: asked_for_def pending_def split: if_splits)
    with h(1) show ?thesis by (auto simp: motor_history_def motor_task_def)
  qed
  with quiet show ?thesis by blast
qed

theorem blind_waits_for_sync_witness:
  "ct_driver (sy_controller (system_init [] (summer_state False) :: (step_command list, int \<times> i32, unit) system)) =
     driver_init"
  using blind_waits_for_sync [OF reference_time_contract example_net_contract list_channel_contract
      demo_spawned [of "summer_state False"]] by (simp add: summer_state_clock)

text \<open>The offset of the clock is that of the United Kingdom in winter or in summer in every reachable state, if it was
  at the start, and then it can be read; and a clock that was synchronised stays so.\<close>

theorem offset_stays_uk:
  assumes "time_contract api" "net_contract nw"
    and "system_reach api debug_on nw client sol coords raise ch contents web n s"
    and "offset_seconds (clk n) = 0 \<or> offset_seconds (clk n) = 3600"
  shows "(offset_seconds (sy_clock s) = 0 \<or> offset_seconds (sy_clock s) = 3600) \<and>
    (\<exists>o'. offset api (sy_clock s) = Ok o' \<and> whole_seconds api o' = offset_seconds (sy_clock s)) \<and>
    (ntp_synchronized (clk n) \<longrightarrow> ntp_synchronized (sy_clock s))"
proof -
  from system_reach_clock [OF assms(1-3)] assms(4)
  have uk: "offset_seconds (sy_clock s) = 0 \<or> offset_seconds (sy_clock s) = 3600"
    and sync: "ntp_synchronized (clk n) \<longrightarrow> ntp_synchronized (sy_clock s)"
    by (auto simp: uk_offset_def)
  from uk_offset_read [OF assms(1)] uk
  have "\<exists>o'. offset api (sy_clock s) = Ok o' \<and> whole_seconds api o' = offset_seconds (sy_clock s)"
    by (simp add: uk_offset_def)
  with uk sync show ?thesis by blast
qed

theorem offset_stays_uk_witness:
  "\<exists>s. demo_reach \<lparr>net = (), clk = (november_clock 0)\<lparr>configured := True\<rparr>\<rparr> s \<and> ntp_synchronized (sy_clock s) \<and>
     (offset_seconds (sy_clock s) = 0 \<or> offset_seconds (sy_clock s) = 3600)"
proof -
  let ?c = "(november_clock 0)\<lparr>configured := True\<rparr>"
  let ?s = "system_init [] \<lparr>net = (), clk = ?c\<rparr> :: (step_command list, int \<times> i32, unit) system"
  have now: "get_time_us ?c = get_time_us (november_clock 0)"
    by (simp add: get_time_us_def get_boot_time_us_def get_rtc_time_us_def get_rtc_time_cal_us_def get_rtc_time_raw_def)
  obtain c' where run: "november_turn (november_state ?c) = Some (Ok (), november_state c')"
    using november_turns [of ?c] now by auto
  have n: "sy_ntp ?s = november_state ?c" by (simp add: system_init_def ntp_task_init_def november_state_def)
  have "ntp_synchronized c'"
    by (rule ntp_task_turn_offset [OF reference_time_contract example_net_contract run]) (simp add: november_state_def)
  moreover have r: "demo_reach \<lparr>net = (), clk = ?c\<rparr> (?s\<lparr>sy_ntp := november_state c'\<rparr>)"
    by (rule runs [OF demo_spawned], rule ntp_turns [where r = "Ok ()"]) (simp_all add: n run)
  moreover have "sy_clock (?s\<lparr>sy_ntp := november_state c'\<rparr>) = c'" by (simp add: november_state_def)
  moreover note offset_stays_uk [OF reference_time_contract example_net_contract r]
  ultimately show ?thesis by (intro exI [of _ "?s\<lparr>sy_ntp := november_state c'\<rparr>"]) simp
qed

section \<open>From the clock to the blind\<close>

text \<open>C5: The purpose of the firmware, while nobody moves the blind from the web application: after a successful turn of the schedule at the
  clock of the running system, which by
  then is synchronised, and until the schedule records another decision, the blind is up when it is idle exactly if the
  clock showed a time from the raise time to the sunset of its day, and one blind height down otherwise, whatever the NTP
  task and the passing time do to the clock in between; and the tasks can go on until the blind is idle.\<close>

theorem system_tracks_daylight:
  assumes "time_contract api" "net_contract nw" "channel_contract ch contents"
    and "system_reach api debug_on nw client sol coords raise ch contents (\<lambda>_. False) n s"
    and "\<not> sy_waiting s" "sch_send (ct_schedule (sy_controller s)) = None"
    and "schedule_turn api sol coords raise (sy_clock s) (ct_schedule (sy_controller s)) =
      (Ok () :: (unit, (unit, unit, unit, unit, unit) blind_error) outcome, sch)"
    and "after = (system_step api debug_on nw client sol coords raise ch (\<lambda>_. False))\<^sup>*\<^sup>*
      (s\<lparr>sy_controller := (sy_controller s)\<lparr>ct_schedule := sch\<rparr>\<rparr>)"
    and "idle = (\<lambda>u. controller_idle contents (sy_controller u) \<and>
      sch_state (ct_schedule (sy_controller u)) = sch_state sch)"
  shows "ntp_synchronized (sy_clock s) \<and>
    (\<exists>now sunset. datetime api (sy_clock s) = Ok now \<and> sch_sunset sch = Some sunset \<and>
      sunset_used api sol coords now (sch_sunset (ct_schedule (sy_controller s))) sunset \<and>
      (\<forall>u. after u \<and> idle u \<longrightarrow>
        travel (ct_driver (sy_controller u)) = (if daylight api raise sunset now then 0 else - 8900))) \<and>
    (\<exists>u. after u \<and> idle u)"
proof -
  let ?c = "(sy_controller s)\<lparr>ct_schedule := sch\<rparr>"
  let ?t = "s\<lparr>sy_controller := ?c\<rparr>"
  have sync: "ntp_synchronized (sy_clock s)"
    using waits_for_sync_reach [OF assms(1,2,4)] assms(5) by (simp add: waits_for_sync_def)
  from assms(7) obtain now sunset where now: "datetime api (sy_clock s) = Ok now" "sch_sunset sch = Some sunset"
    "sunset_used api sol coords now (sch_sunset (ct_schedule (sy_controller s))) sunset"
    "sch_state sch = Some (if daylight api raise sunset now then Raise else Lower)"
    by (cases rule: schedule_turn_cases) auto
  have reach: "system_reach api debug_on nw client sol coords raise ch contents (\<lambda>_. False) n ?t"
    by (rule runs [OF assms(4)], rule schedule_looks [OF assms(5-7)])
  have "travel (ct_driver (sy_controller u)) = (if daylight api raise sunset now then 0 else - 8900)"
    if "after u" "idle u" for u
  proof -
    have "system_reach api debug_on nw client sol coords raise ch contents (\<lambda>_. False) n u"
      using system_reach_rtranclp [OF _ reach] that(1) assms(8) by blast
    from idle_position [OF assms(3) system_reach_refines [OF this]] that(2) now(4) assms(9) show ?thesis by simp
  qed
  moreover have "\<exists>u. after u \<and> idle u"
    by (rule system_drain [OF assms(3), of api debug_on nw client sol coords raise "\<lambda>_. False" ?t])
      (auto simp: assms(8,9))
  ultimately show ?thesis using sync now(1-3) by blast
qed

theorem system_tracks_daylight_witness:
  "\<exists>u. demo_step\<^sup>*\<^sup>* summer_system u \<and> controller_idle id (sy_controller u) \<and>
     travel (ct_driver (sy_controller u)) = - 8900"
proof -
  let ?sch = "\<lparr>sch_sunset = Some (1751397660000000000, 3600), sch_state = Some Lower, sch_send = Some Lower\<rparr>"
  let ?t = "summer_system\<lparr>sy_controller := (sy_controller summer_system)\<lparr>ct_schedule := ?sch\<rparr>\<rparr>"
  have sch: "ct_schedule (sy_controller summer_system) = schedule_init"
    by (simp add: system_init_def controller_init_def)
  have awake: "\<not> sy_waiting summer_system" by simp
  have quiet: "sch_send (ct_schedule (sy_controller summer_system)) = None"
    unfolding sch by (simp add: schedule_init_def)
  have turn: "schedule_turn reference_time example_sun () half_past_noon (sy_clock summer_system)
      (ct_schedule (sy_controller summer_system)) =
      (Ok () :: (unit, (unit, unit, unit, unit, unit) blind_error) outcome, ?sch)"
    unfolding sch by (simp add: summer_state_turn summer_turn_run)
  have step: "demo_step summer_system ?t" by (rule schedule_looks [OF awake quiet turn])
  have noon: "datetime reference_time (sy_clock summer_system) = Ok summer_noon" by (simp add: summer_state_clock)
  have night: "\<not> daylight reference_time half_past_noon sunset summer_noon" for sunset
    by (simp add: daylight_def reference_time_simps local_nanos_def day_nanos_def half_past_noon_def)
  from system_tracks_daylight [OF reference_time_contract example_net_contract list_channel_contract
      summer_system_reach awake quiet turn refl refl] noon night
  obtain u where "demo_step\<^sup>*\<^sup>* ?t u" "controller_idle id (sy_controller u)"
    "travel (ct_driver (sy_controller u)) = - 8900" by auto
  with step show ?thesis by (blast intro: converse_rtranclp_into_rtranclp)
qed

end
