(* ===== verification/Ota_Properties.thy ===== *)
theory Ota_Properties
  imports Ota_Correct
begin

text \<open>
  The properties of the over-the-air update (src/ota.rs), and their instances on the
  reference device. The example flash holds two valid entries with sequence numbers 1 and 2,
  so that the first slot is the one to update.
\<close>

section \<open>An example device\<close>

lemma ram_entry_read [simp]: "entry_read ram_flash slot m = (Ok (stored_entry m slot), m)"
proof -
  have "unat (p_offset OTA_DATA_PARTITION + select_slot_offset ram_flash slot) = entry_addr slot"
    by (rule entry_address) (simp add: ram_flash_def)
  then show ?thesis
    by (cases slot) (simp_all add: entry_read_def ret_def stored_entry_def entry_addr_def entry_size_def)
qed

lemma ram_entry_write [simp]:
  assumes "wf_entry e"
  shows "entry_write crcf ram_flash e slot True m =
    (Ok (), poke m (entry_addr slot) (entry_to_bytes (refresh_crc crcf e)))"
proof -
  have "unat (p_offset OTA_DATA_PARTITION + select_slot_offset ram_flash slot) = entry_addr slot"
    by (rule entry_address) (simp add: ram_flash_def)
  with assms show ?thesis
    by (cases slot) (simp_all add: entry_write_def entry_addr_def entry_size_def)
qed

lemma ram_get_ota_entries [simp]:
  "get_ota_entries ram_flash s =
     (Ok (stored_entry (ota_flash s) SlotZero, stored_entry (ota_flash s) SlotOne), s)"
  by (simp add: get_ota_entries_def get_ota_entry_def zoom_def ret_def)

lemma ram_get_slot_seq [simp]:
  "get_slot_seq crcf ram_flash s =
     (Ok (effective_seq crcf (stored_entry (ota_flash s) SlotZero),
          effective_seq crcf (stored_entry (ota_flash s) SlotOne)), s)"
  by (simp add: get_slot_seq_def get_ota_entry_def zoom_def ret_def)

lemma ram_ota_ok [simp]: "ota_ok ram_flash id (\<lambda>_. True) s"
  by (simp add: ota_ok_def)

definition no_crc :: "u8 list \<Rightarrow> u32" where "no_crc bs = 0"

definition example_entry :: "u32 \<Rightarrow> ota_entry_state \<Rightarrow> ota_select_entry" where
  "example_entry seq st = \<lparr>ota_seq = seq, seq_label = replicate 20 0, ota_state = st, entry_crc = 0\<rparr>"

definition example_flash :: memory where
  "example_flash =
     poke (poke (\<lambda>_. 0xFF) (entry_addr SlotZero) (entry_to_bytes (example_entry 1 Valid)))
       (entry_addr SlotOne) (entry_to_bytes (example_entry 2 Valid))"

definition erased_flash :: memory where "erased_flash = (\<lambda>_. 0xFF)"

lemma example_entry_simps [simp]:
  "wf_entry (example_entry seq st)"
  "ota_seq (example_entry seq st) = seq"
  "ota_state (example_entry seq st) = st"
  "checksum_ok no_crc (example_entry seq st)"
  by (simp_all add: example_entry_def wf_entry_def checksum_ok_def calculate_checksum_def no_crc_def)

lemma example_flash_entries [simp]:
  "stored_entry example_flash SlotZero = example_entry 1 Valid"
  "stored_entry example_flash SlotOne = example_entry 2 Valid"
  by (simp_all add: example_flash_def stored_entry_poke)

lemma stored_entry_poke_app:
  "stored_entry (poke m a bs) slot = stored_entry m slot" if "0xf000 \<le> a"
  using that by (intro stored_entry_cong) (auto simp: poke_def)

lemma replicate_4: "replicate 4 x = [x, x, x, x]"
  by (simp add: eval_nat_numeral)

lemma from_le_bytes_erased: "from_le_bytes (replicate 4 0xFF) = (0xFFFFFFFF :: u32)"
  by (simp add: replicate_4)

lemma erased_flash_entry [simp]:
  "ota_seq (stored_entry erased_flash slot) = 0xFFFFFFFF"
  "ota_state (stored_entry erased_flash slot) = Undefined"
proof -
  have "peek erased_flash a n = replicate n 0xFF" for a n
    by (simp add: peek_def erased_flash_def map_replicate_const)
  then show "ota_seq (stored_entry erased_flash slot) = 0xFFFFFFFF"
    "ota_state (stored_entry erased_flash slot) = Undefined"
    by (simp_all add: stored_entry_def entry_from_bytes_def slice_def entry_size_def
        from_le_bytes_erased state_from_u32_def)
qed

section \<open>Commit and prepare agree\<close>

text \<open>C18: A commit of the slot that was prepared returns only when the two decisions on the
  entries agree, and its assertion panics only when they disagree: the predicate
  \<open>decisions_agree\<close> says exactly for which contents of the entries an update can be committed.\<close>

theorem commit_agrees_with_prepare:
  assumes ok: "ota_ok d view good s"
    and prep: "update_state s = Some (choose_update_slot crcf (ota_entries view s SlotZero)
      (ota_entries view s SlotOne), off)"
    and run: "commit_update crcf d s = (r, t)"
  shows "(r = Ok () \<longrightarrow> decisions_agree crcf (ota_entries view s SlotZero) (ota_entries view s SlotOne)) \<and>
    (r = Panic \<longrightarrow> \<not> decisions_agree crcf (ota_entries view s SlotZero) (ota_entries view s SlotOne))"
proof -
  let ?s = "s\<lparr>update_state := None\<rparr>"
  have ok': "ota_ok d view good ?s" and e: "ota_entries view ?s = ota_entries view s"
    using ok by (simp_all add: ota_ok_def ota_entries_def)
  from prep run have "set_current_slot crcf d (choose_update_slot crcf (ota_entries view s SlotZero)
      (ota_entries view s SlotOne)) ?s = (r, t)" by (simp add: commit_update_def)
  then show ?thesis
    using set_current_slot_Ok(1) [OF ok'] set_current_slot_Panic [OF ok'] decisions_agree_iff
    unfolding e by metis
qed

text \<open>An update whose image is empty runs through on the example device.\<close>

lemma example_choice [simp]:
  "choose_update_slot no_crc (example_entry 1 Valid) (example_entry 2 Valid) = Slot0"
  "choose_commit no_crc (example_entry 1 Valid) (example_entry 2 Valid) = (3, Slot0)"
  by (simp_all add: choose_update_slot_def effective_seq_def slot_by_seq_def choose_commit_def
      next_by_seq_def slot_by_state_def)

lemma example_update_slot: "update_slot no_crc ram_flash (ota_new example_flash) = (Ok Slot0, ota_new example_flash)"
  by (simp add: update_slot_def ota_new_def effective_seq_def slot_by_seq_def ret_def)

lemma example_commit:
  assumes "update_state s = Some (Slot0, off)"
    and "stored_entry (ota_flash s) SlotZero = example_entry 1 Valid"
    and "stored_entry (ota_flash s) SlotOne = example_entry 2 Valid"
  shows "\<exists>t. commit_update no_crc ram_flash s = (Ok (), t)"
proof -
  have "wf_entry (example_entry 1 Valid\<lparr>ota_seq := 3, ota_state := New\<rparr>)"
    by (simp add: example_entry_def wf_entry_def)
  with assms show ?thesis
    by (simp add: commit_update_def set_current_slot_decision zoom_def)
qed

theorem commit_agrees_with_prepare_witness:
  "\<exists>t. commit_update no_crc ram_flash \<lparr>ota_flash = example_flash, update_state = Some (Slot0, 0)\<rparr> = (Ok (), t) \<and>
     decisions_agree no_crc (example_entry 1 Valid) (example_entry 2 Valid)"
proof -
  let ?s = "\<lparr>ota_flash = example_flash, update_state = Some (Slot0, 0)\<rparr>"
  obtain t where run: "commit_update no_crc ram_flash ?s = (Ok (), t)"
    using example_commit [of ?s] by auto
  have "update_state ?s = Some (choose_update_slot no_crc (ota_entries id ?s SlotZero)
      (ota_entries id ?s SlotOne), 0)"
    by (simp add: ota_entries_def)
  from commit_agrees_with_prepare [OF ram_ota_ok this run] run show ?thesis
    by (auto simp: ota_entries_def)
qed

section \<open>A whole update\<close>

text \<open>C3: An update (preparation, the chunks of the image as they are received, commit) that returns has installed the image in the slot that \<open>update_slot\<close> chooses for the entries found: the first slot whose
  entry is not valid, and with two valid ones the slot that their sequence numbers give. The received bytes, in order, are
  the beginning of that slot, the image fits it, its entry is the committed one, the other entry is the one from before, and
  nothing outside the slot and the entries' partition has changed. The slot can be the one installed and selected last
  (\<open>next_update_chooses_same_slot\<close>).\<close>

theorem update_installs_image:
  assumes ok: "ota_ok d view good s" and cs: "list_all (\<lambda>c. length c < 2 ^ 31) chunks"
    and run: "perform_update crcf d chunks s = (Ok (), t)"
    and slot: "slot = choose_update_slot crcf (ota_entries view s SlotZero) (ota_entries view s SlotOne)"
  shows "peek (view (ota_flash t)) (unat (slot_offset slot)) (length (concat chunks)) = concat chunks \<and>
    length (concat chunks) \<le> unat (slot_size slot) \<and>
    ota_entries view t =
      (ota_entries view s)(entry_of slot := committed_entry crcf (ota_entries view s) slot) \<and>
    (\<forall>x. \<not> in_partition (slot_partition slot) x \<and> \<not> in_partition OTA_DATA_PARTITION x \<longrightarrow>
      view (ota_flash t) x = view (ota_flash s) x)"
  by (rule perform_update_installs [OF assms])

text \<open>The update runs through on the example device.\<close>

lemma example_write_update:
  assumes "update_state s = Some (Slot0, off)" "unat off + length buf \<le> 16" "buf \<noteq> []"
  shows "write_update ram_flash buf s =
    (Ok (), s\<lparr>ota_flash := poke (ota_flash s) (0x10000 + unat off) buf,
               update_state := Some (Slot0, off + of_nat (length buf))\<rparr>)"
proof -
  have le: "unat off \<le> 0x180000" "length buf < 2 ^ 31" using assms(2) by simp_all
  have addr: "unat (slot_offset Slot0 + off) = 0x10000 + unat off"
    using update_address [OF le(1), of Slot0] by simp
  show ?thesis
    using write_update_step [OF assms(1) le, of ram_flash] assms(2,3) by (simp add: addr)
qed

lemma example_update:
  "\<exists>t. perform_update no_crc ram_flash [[1, 2], [3]] (ota_new example_flash) = (Ok (), t)"
proof -
  let ?s = "\<lparr>ota_flash = poke example_flash 0x10000 [1, 2, 3], update_state = Some (Slot0, 3)\<rparr>"
  have p: "prepare_for_update no_crc ram_flash (ota_new example_flash) =
      (Ok (), \<lparr>ota_flash = example_flash, update_state = Some (Slot0, 0)\<rparr>)"
    by (simp add: prepare_for_update_def example_update_slot modify_def) (simp add: ota_new_def)
  have w: "write_chunks ram_flash [[1, 2], [3]] \<lparr>ota_flash = example_flash, update_state = Some (Slot0, 0)\<rparr>
      = (Ok (), ?s)"
    using poke_poke_append [where m = example_flash and a = "0x10000" and bs = "[1, 2]" and cs = "[3]"]
    by (simp add: tryA_def example_write_update ret_def)
  obtain t where "commit_update no_crc ram_flash ?s = (Ok (), t)"
    using example_commit [of ?s 3] by (auto simp: stored_entry_poke_app)
  with p w show ?thesis by (auto simp: perform_update_def)
qed

theorem update_installs_image_witness:
  "\<exists>t. perform_update no_crc ram_flash [[1, 2], [3]] (ota_new example_flash) = (Ok (), t) \<and>
     peek (ota_flash t) 0x10000 3 = [1, 2, 3]"
proof -
  obtain t where run: "perform_update no_crc ram_flash [[1, 2], [3]] (ota_new example_flash) = (Ok (), t)"
    using example_update by blast
  have "Slot0 = choose_update_slot no_crc (ota_entries id (ota_new example_flash) SlotZero)
      (ota_entries id (ota_new example_flash) SlotOne)"
    by (simp add: ota_entries_def ota_new_def)
  from update_installs_image [OF ram_ota_ok _ run this] run show ?thesis
    by (simp add: numeral_3_eq_3)
qed

text \<open>C4: However an update ends (success, a flash error, an image that is too large, a panic),
  nothing outside the slot being updated and the sector of its entry has changed: the NVS, the
  PHY data and the firmware in the other slot with its entry are as they were. The writing itself never
  panics, and the commit panics only when the two decisions disagree.\<close>

theorem update_confined:
  assumes ok: "ota_ok d view good s" and cs: "list_all (\<lambda>c. length c < 2 ^ 31) chunks"
    and run: "perform_update crcf d chunks s = (r, t)"
    and slot: "slot = choose_update_slot crcf (ota_entries view s SlotZero) (ota_entries view s SlotOne)"
    and out: "\<not> in_partition (slot_partition slot) x" "\<not> entry_sector (entry_of slot) x"
  shows "view (ota_flash t) x = view (ota_flash s) x \<and>
    (r = Panic \<longrightarrow> \<not> decisions_agree crcf (ota_entries view s SlotZero) (ota_entries view s SlotOne))"
  using run
proof (cases rule: perform_update_split)
  case (at_prepare e)
  from prepare_for_update_frame [OF ok at_prepare(1)] show ?thesis by simp
next
  case (at_chunks u e)
  from chunks_after_prepare [OF ok at_chunks(1) cs at_chunks(2), folded slot] out show ?thesis by simp
next
  case (at_commit u v)
  note a = chunks_after_prepare [OF ok at_commit(1) cs at_commit(2), folded slot]
  from a(6) obtain off where st: "update_state v = Some (slot, off)" by (auto simp: update_progress_def)
  from commit_update_confined [OF a(1,2) at_commit(3) out(2)] a(5) [OF out(1)]
  have "view (ota_flash t) x = view (ota_flash s) x" by simp
  moreover have "\<not> decisions_agree crcf (ota_entries view s SlotZero) (ota_entries view s SlotOne)"
    if "r = Panic"
  proof -
    from st that at_commit(3) have "set_current_slot crcf d slot (v\<lparr>update_state := None\<rparr>) = (Panic, t)"
      by (simp add: commit_update_def)
    from set_current_slot_Panic [OF _ this, of view good] a(1,4) slot decisions_agree_iff
    show ?thesis by (fastforce simp: ota_ok_def ota_entries_def)
  qed
  ultimately show ?thesis by simp
qed

theorem update_confined_witness:
  "\<exists>t. perform_update no_crc ram_flash [[1, 2], [3]] (ota_new example_flash) = (Ok (), t) \<and>
     ota_flash t 0x9000 = example_flash 0x9000"
proof -
  obtain t where run: "perform_update no_crc ram_flash [[1, 2], [3]] (ota_new example_flash) = (Ok (), t)"
    using example_update by blast
  have "Slot0 = choose_update_slot no_crc (ota_entries id (ota_new example_flash) SlotZero)
      (ota_entries id (ota_new example_flash) SlotOne)"
    by (simp add: ota_entries_def ota_new_def)
  from update_confined [OF ram_ota_ok _ run this, of "0x9000"] run show ?thesis
    by (simp add: slot_partition_def ota_new_def entry_sector_def entry_addr_def)
qed

section \<open>Which slot comes next\<close>

lemma perform_update_Ok:
  assumes ok: "ota_ok d view good s" and cs: "list_all (\<lambda>c. length c < 2 ^ 31) chunks"
    and run: "perform_update crcf d chunks s = (Ok (), t)"
  shows "ota_ok d view good t"
    and "decisions_agree crcf (ota_entries view s SlotZero) (ota_entries view s SlotOne)"
    and "ota_entries view t = (ota_entries view s)
      (entry_of (choose_update_slot crcf (ota_entries view s SlotZero) (ota_entries view s SlotOne)) :=
       committed_entry crcf (ota_entries view s)
         (choose_update_slot crcf (ota_entries view s SlotZero) (ota_entries view s SlotOne)))"
proof -
  let ?slot = "choose_update_slot crcf (ota_entries view s SlotZero) (ota_entries view s SlotOne)"
  from run obtain u v where p: "prepare_for_update crcf d s = (Ok (), u)"
    and w: "write_chunks d chunks u = (Ok (), v)" and c: "commit_update crcf d v = (Ok (), t)"
    by (cases rule: perform_update_split) auto
  note a = chunks_after_prepare [OF ok p cs w]
  from a(6) obtain off where st: "update_state v = Some (?slot, off)"
    by (auto simp: update_progress_def)
  obtain slot off' where c': "update_state v = Some (slot, off')"
    "snd (choose_commit crcf (ota_entries view v SlotZero) (ota_entries view v SlotOne)) = slot"
    "ota_entries view t = (ota_entries view v)(entry_of slot := committed_entry crcf (ota_entries view v) slot)"
    "ota_ok d view good t"
    using commit_update_Ok [OF a(1) c] .
  from c'(4) show "ota_ok d view good t" .
  from c'(1) st have sl: "slot = ?slot" by simp
  with c'(2) show "decisions_agree crcf (ota_entries view s SlotZero) (ota_entries view s SlotOne)"
    unfolding a(4) using decisions_agree_iff by metis
  from c'(3) sl show "ota_entries view t = (ota_entries view s)
      (entry_of ?slot := committed_entry crcf (ota_entries view s) ?slot)"
    unfolding a(4) by simp
qed

text \<open>Nothing in this code marks a new image valid, so after a completed update the next
  one chooses the same slot again: the slot of the image just installed.\<close>

theorem next_update_chooses_same_slot:
  assumes ok: "ota_ok d view good s" and cs: "list_all (\<lambda>c. length c < 2 ^ 31) chunks"
    and run: "perform_update crcf d chunks s = (Ok (), t)"
    and again: "update_slot crcf d t = (Ok slot, t')"
  shows "slot = choose_update_slot crcf (ota_entries view s SlotZero) (ota_entries view s SlotOne)"
proof -
  note u = perform_update_Ok [OF ok cs run]
  note v = update_slot_value [OF u(1) again]
  show ?thesis
  proof (cases "choose_update_slot crcf (ota_entries view s SlotZero) (ota_entries view s SlotOne)")
    case Slot0
    with v u(3) show ?thesis by (simp add: choose_update_slot_def)
  next
    case Slot1
    then have "ota_state (ota_entries view s SlotZero) = Valid"
      by (auto simp: choose_update_slot_def split: if_splits)
    with Slot1 v u(3) show ?thesis by (simp add: choose_update_slot_def [of _ _ "committed_entry _ _ _"])
  next
    case SlotNone
    with choose_update_slot_not_None show ?thesis by metis
  qed
qed

lemma ram_update_slot:
  "update_slot crcf ram_flash s =
     (Ok (choose_update_slot crcf (stored_entry (ota_flash s) SlotZero) (stored_entry (ota_flash s) SlotOne)), s)"
  by (simp add: update_slot_def choose_update_slot_def ret_def)

theorem next_update_chooses_same_slot_witness:
  "\<exists>t. perform_update no_crc ram_flash [[1, 2], [3]] (ota_new example_flash) = (Ok (), t) \<and>
     update_slot no_crc ram_flash t = (Ok Slot0, t)"
proof -
  obtain t where run: "perform_update no_crc ram_flash [[1, 2], [3]] (ota_new example_flash) = (Ok (), t)"
    using example_update by blast
  have again: "\<exists>slot. update_slot no_crc ram_flash t = (Ok slot, t)" by (simp add: ram_update_slot)
  then obtain slot where sl: "update_slot no_crc ram_flash t = (Ok slot, t)" by blast
  from next_update_chooses_same_slot [OF ram_ota_ok _ run sl] sl run show ?thesis
    by (simp add: ota_entries_def ota_new_def)
qed

text \<open>On a device neither of whose entries is valid, such as one whose entries are erased,
  no update ever completes: the image is written to the first slot, the commit chooses the
  second one, and its assertion fails.\<close>

theorem blank_device_update_never_completes:
  assumes "ota_ok d view good s" "list_all (\<lambda>c. length c < 2 ^ 31) chunks"
    and "ota_state (ota_entries view s SlotZero) \<noteq> Valid" "ota_state (ota_entries view s SlotOne) \<noteq> Valid"
    and "perform_update crcf d chunks s = (r, t)"
  shows "r \<noteq> Ok ()"
  using perform_update_Ok(2) [OF assms(1,2)] assms(3-5) by (auto simp: decisions_agree_def)

theorem blank_device_update_never_completes_witness:
  "\<exists>t. perform_update no_crc ram_flash [] (ota_new erased_flash) = (Panic, t) \<and> (Panic :: (unit, unit ota_error) outcome) \<noteq> Ok ()"
proof -
  have "snd (choose_commit no_crc (stored_entry erased_flash SlotZero) (stored_entry erased_flash SlotOne)) = Slot1"
    by (cases "checksum_ok no_crc (stored_entry erased_flash SlotZero)";
        cases "checksum_ok no_crc (stored_entry erased_flash SlotOne)")
      (simp_all add: choose_commit_slot slot_by_state_def)
  then have run: "\<exists>t. perform_update no_crc ram_flash [] (ota_new erased_flash) = (Panic, t)"
    by (simp add: perform_update_def prepare_for_update_def ram_update_slot ota_new_def
        choose_update_slot_def modify_def ret_def commit_update_def set_current_slot_decision)
  then obtain t where t: "perform_update no_crc ram_flash [] (ota_new erased_flash) = (Panic, t)" by blast
  from blank_device_update_never_completes [OF ram_ota_ok _ _ _ t] t show ?thesis
    by (simp add: ota_entries_def ota_new_def)
qed

section \<open>Sequence numbers\<close>

text \<open>With two valid entries in the normal alternation (odd numbers in the first entry, even
  ones in the second), a commit replaces the entry with the smaller number, its new number is
  one more than the larger one, and the alternation is kept.\<close>

theorem commit_sequence_alternates:
  assumes valid: "ota_state e0 = Valid" "ota_state e1 = Valid" "checksum_ok crcf e0" "checksum_ok crcf e1"
    and parity: "odd (unat (ota_seq e0))" "even (unat (ota_seq e1))"
    and small: "unat (ota_seq e0) < 0xFFFFFFFE" "unat (ota_seq e1) < 0xFFFFFFFE"
    and commit: "choose_commit crcf e0 e1 = (seq, slot)"
  shows "unat seq = max (unat (ota_seq e0)) (unat (ota_seq e1)) + 1 \<and>
    slot = (if unat (ota_seq e0) < unat (ota_seq e1) then Slot0 else Slot1) \<and>
    (odd (unat seq) \<longleftrightarrow> slot = Slot0)"
proof -
  have not_ff: "ota_seq e0 \<noteq> 0xFFFFFFFF" "ota_seq e1 \<noteq> 0xFFFFFFFF"
    using small by auto
  have plus: "unat (x + 1) = unat x + 1" if "unat x < 0xFFFFFFFE" for x :: u32
    using that by (simp add: unat_word_ariths)
  have "(seq, slot) = (if unat (ota_seq e0) < unat (ota_seq e1) then (ota_seq e1 + 1, Slot0)
      else (ota_seq e0 + 1, Slot1))"
    using commit valid not_ff
    by (simp add: choose_commit_def next_by_seq_def slot_by_state_def word_less_nat_alt split: if_splits)
  with plus small parity show ?thesis by (auto split: if_splits)
qed

theorem commit_sequence_alternates_witness:
  "choose_commit no_crc (example_entry 1 Valid) (example_entry 2 Valid) = (3, Slot0) \<and>
     unat (3 :: u32) = max (unat (1 :: u32)) (unat (2 :: u32)) + 1"
  using commit_sequence_alternates [of "example_entry 1 Valid" "example_entry 2 Valid" no_crc 3 Slot0]
  by simp

text \<open>Off the normal alternation the state of an entry overrides the slot and not the number: the
  number 9 goes to the second entry.\<close>

lemma commit_parity_can_break:
  "choose_commit no_crc (example_entry 5 Valid) (example_entry 8 Invalid) = (9, Slot1)"
  by (simp add: choose_commit_def next_by_seq_def slot_by_state_def)

section \<open>Entries and chunks\<close>

text \<open>An entry that was written is read back unchanged but for its checksum, which holds.\<close>

theorem entry_flash_roundtrip:
  assumes "flash_ok d view good f" "wf_entry e" "entry_write crcf d e slot True f = (Ok u, f')"
    "entry_read d slot f' = (Ok e', f'')"
  shows "e' = refresh_crc crcf e \<and> checksum_ok crcf e'"
  by (rule es.load_after_store [OF assms])

theorem entry_flash_roundtrip_witness:
  "entry_write no_crc ram_flash (example_entry 7 New) SlotOne True erased_flash =
     (Ok (), poke erased_flash 0xe000 (entry_to_bytes (example_entry 7 New))) \<and>
   stored_entry (poke erased_flash 0xe000 (entry_to_bytes (example_entry 7 New))) SlotOne
     = example_entry 7 New"
proof -
  have crc: "refresh_crc no_crc (example_entry 7 New) = example_entry 7 New"
    by (simp add: refresh_crc_def calculate_checksum_def no_crc_def example_entry_def)
  have w: "entry_write no_crc ram_flash (example_entry 7 New) SlotOne True erased_flash =
     (Ok (), poke erased_flash 0xe000 (entry_to_bytes (example_entry 7 New)))"
    by (simp add: crc entry_addr_def)
  from entry_flash_roundtrip [OF ram_flash_ok _ w ram_entry_read] crc w show ?thesis by simp
qed

text \<open>A chunk is refused exactly when it does not fit the rest of the slot; a refusal and an
  empty chunk leave the device and the offset as they are.\<close>

theorem write_update_bounds:
  assumes "update_state s = Some (slot, off)" "unat off \<le> unat (slot_size slot)" "length buf < 2 ^ 31"
  shows "(unat off + length buf > unat (slot_size slot) \<longrightarrow> write_update d buf s = (Err TooLarge, s)) \<and>
    (buf = [] \<longrightarrow> write_update d buf s = (Ok (), s)) \<and>
    (unat off + length buf \<le> unat (slot_size slot) \<longrightarrow> fst (write_update d buf s) \<noteq> Err TooLarge)"
proof -
  have "flash_write OtaStorage d a b f \<noteq> (Err TooLarge, f')" for a b and f f' :: 'a
    by (simp add: flash_write_def action_simps)
  then show ?thesis
    using write_update_step [OF assms(1) _ assms(3), of d] assms(2)
    by (auto split: prod.splits outcome.splits)
qed

theorem write_update_bounds_witness:
  "write_update ram_flash (replicate 2 0) \<lparr>ota_flash = erased_flash, update_state = Some (Slot0, 0x17FFFF)\<rparr>
     = (Err TooLarge, \<lparr>ota_flash = erased_flash, update_state = Some (Slot0, 0x17FFFF)\<rparr>)"
  using write_update_bounds
    [of "\<lparr>ota_flash = erased_flash, update_state = Some (Slot0, 0x17FFFF)\<rparr>" Slot0 "0x17FFFF"
      "replicate 2 0" ram_flash] by simp

end
