(* ===== verification/Credentials_Properties.thy ===== *)
theory Credentials_Properties
  imports Credentials
begin

text \<open>
  The properties of the non-volatile store (src/nvs.rs) and of the credentials kept in it, and
  their instances on the reference device.
\<close>

section \<open>The store\<close>

text \<open>C35: A write through the store whose offset and length together do not wrap around 32 bits, successful or not, changes nothing
  of the flash outside the NVS partition, and a successful one leaves the validity mark alone; what it wrote is what a later read
  at the same place returns.\<close>

theorem nvs_write_confined:
  assumes "nvs_ok d view good s" "nvs_fits off (length bs)" "nvs_write d off bs s = (r, t)"
  shows "(\<forall>x. x < 0x9000 \<or> 0xD000 \<le> x \<longrightarrow> view (nvs_flash t) x = view (nvs_flash s) x) \<and>
    (\<forall>u. r = Ok u \<longrightarrow> marked view t = marked view s) \<and>
    (\<forall>u cs v. r = Ok u \<longrightarrow> nvs_read d off (length bs) t = (Ok cs, v) \<longrightarrow> cs = bs)"
proof (intro conjI allI impI)
  fix x :: nat
  assume x: "x < 0x9000 \<or> 0xD000 \<le> x"
  from assms(1,2) show "view (nvs_flash t) x = view (nvs_flash s) x"
  proof (cases rule: nvs_write_cases)
    case out
    with assms(3) show ?thesis by simp
  next
    case (access q f)
    from assms(1) have "flash_ok d view good (nvs_flash s)" by (simp add: nvs_ok_def)
    from fls.wr_region_frame [OF this access(4) TrueI, of "0x9000" "0xD000" x] access x
    have "view f x = view (nvs_flash s) x" by simp
    with access(5) assms(3) show ?thesis by simp
  qed
next
  fix u assume "r = Ok u"
  with assms(3) show "marked view t = marked view s" using nvs_write_marked [OF assms(1,2)] by blast
next
  fix u cs v assume "r = Ok u" "nvs_read d off (length bs) t = (Ok cs, v)"
  with assms(3) show "cs = bs" using nv.read_back [OF assms(1,2)] by blast
qed

lemma ram_nvs_ok [simp]: "nvs_ok ram_flash id (\<lambda>_. True) (nvs_new m)"
  by (simp add: nvs_ok_new)

lemma nvs_new_fields [simp]:
  "nvs_offset (nvs_new m) = p_offset NVS_PARTITION" "nvs_flash (nvs_new m) = m"
  "(nvs_new m)\<lparr>nvs_flash := f\<rparr> = nvs_new f"
  by (simp_all add: nvs_new_def)

lemma valid_offset_new:
  assumes "unat off + n \<le> 0x4000" "4 \<le> unat off"
  shows "valid_offset off n (nvs_new m) = (Ok (), nvs_new m)"
proof -
  have fits: "nvs_fits off n" using assms by (simp add: nvs_fits_def)
  show ?thesis
    by (rule trans [OF valid_offset_nat [OF fits]]) (use assms in \<open>simp_all add: nvs_new_def\<close>)
qed

lemma ram_nvs_write:
  assumes "unat off + length bs \<le> 0x4000" "4 \<le> unat off"
  shows "nvs_write ram_flash off bs (nvs_new m) = (Ok (), nvs_new (poke m (0x9000 + unat off) bs))"
proof -
  have "unat (p_offset NVS_PARTITION + off) = 0x9000 + unat off"
    using assms by (intro nvs_address) simp
  with assms show ?thesis
    by (simp add: nvs_write_def tryA_def valid_offset_new [OF assms] zoom_def)
qed

theorem nvs_write_confined_witness:
  "nvs_write ram_flash 8 [1, 2] (nvs_new (\<lambda>_. 0xFF)) = (Ok (), nvs_new (poke (\<lambda>_. 0xFF) 0x9008 [1, 2])) \<and>
   poke (\<lambda>_. 0xFF) 0x9008 [1, 2] 0x8FFF = (0xFF :: u8)"
proof -
  have run: "nvs_write ram_flash 8 [1, 2] (nvs_new (\<lambda>_. 0xFF)) = (Ok (), nvs_new (poke (\<lambda>_. 0xFF) 0x9008 [1, 2]))"
    by (simp add: ram_nvs_write)
  have "nvs_fits 8 (length [1 :: u8, 2])" by (simp add: nvs_fits_def)
  from nvs_write_confined [OF ram_nvs_ok this run] run show ?thesis by (simp add: nvs_new_def)
qed

lemma nvs_offset_wraps: "valid_offset 0xFFFFFFF0 32 (nvs_new f) = (Ok (), nvs_new f)"
  by (simp add: valid_offset_def ret_def MIN_OFFSET_def nvs_new_def NVS_PARTITION_def)

text \<open>The bounds check of the store adds offset and length modulo 2 ^ 32, so it accepts accesses
  whose end wraps: one of 32 bytes at offset 0xFFFFFFF0 passes, and goes to the flash just below the partition.\<close>

theorem nvs_bounds_wrap:
  "valid_offset off n s =
     (if unat off < 4 \<or> (unat off + n) mod 2 ^ 32 > unat (nvs_size s) then (Err OutOfBounds, s) else (Ok (), s)) \<and>
   valid_offset 0xFFFFFFF0 32 (nvs_new f) = (Ok (), nvs_new f) \<and>
   nvs_read d 0xFFFFFFF0 32 (nvs_new f) = zoom nvs_flash (\<lambda>f s. s\<lparr>nvs_flash := f\<rparr>)
     (flash_read NvsStorage d 0x8FF0 32) (nvs_new f)"
proof -
  have "unat (off + of_nat n) = (unat off + n) mod 2 ^ 32"
    by (simp add: unat_word_ariths unsigned_of_nat take_bit_eq_mod mod_simps)
  then have gen: "valid_offset off n s =
     (if unat off < 4 \<or> (unat off + n) mod 2 ^ 32 > unat (nvs_size s) then (Err OutOfBounds, s) else (Ok (), s))"
    by (simp add: valid_offset_def fail_def ret_def MIN_OFFSET_def word_less_nat_alt)
  have wrapped: "valid_offset 0xFFFFFFF0 32 (nvs_new f) = (Ok (), nvs_new f)"
    by (simp add: valid_offset_def ret_def MIN_OFFSET_def nvs_new_def NVS_PARTITION_def)
  have address: "p_offset NVS_PARTITION + 0xFFFFFFF0 = 0x8FF0"
    by (simp add: NVS_PARTITION_def)
  have "nvs_read d 0xFFFFFFF0 32 (nvs_new f) = zoom nvs_flash (\<lambda>f s. s\<lparr>nvs_flash := f\<rparr>)
     (flash_read NvsStorage d 0x8FF0 32) (nvs_new f)"
    unfolding nvs_read_def tryA_def nvs_offset_wraps by (simp add: address)
  with gen wrapped show ?thesis by blast
qed

section \<open>The credentials\<close>

lemma load_after_save:
  fixes r :: "(bytes \<times> bytes, ('y, 'n, 'h, 'i, 'x) blind_error) outcome"
  assumes ok: "nvs_ok d view good s" and st: "storable ssid password" and utf8: "utf8_valid ssid" "utf8_valid password"
    and save: "save_credentials d ssid password s = (Ok u :: (unit, ('y, 'n, 'h, 'i, 'x) blind_error) outcome, t)"
    and load: "load_credentials d t = (r, v)"
  shows "r = Ok (ssid, password) \<or> (\<exists>e. r = Err (Nvs_Error e))"
proof -
  note law = save_credentials_law [OF ok st save]
  have "holds_credentials (nvs_view view t) ssid password"
    using law st saved_view_holds [OF st] by (simp add: holds_credentials_def)
  moreover have "marked view t"
    using law saved_view_holds(3) [OF st] from_mark [of True] by (simp add: marked_def)
  ultimately show ?thesis
    using load_credentials_law [of d view good t ssid password r v] law load utf8 by metis
qed

text \<open>C26: Credentials compiled into the firmware are what a later firmware without any loads: after a
  successful save, loading gives exactly them back, or fails with an error of the flash.\<close>

theorem saved_credentials_load:
  fixes c :: "bytes \<times> bytes" and r :: "(bytes \<times> bytes, ('y, 'n, 'h, 'i, 'x) blind_error) outcome"
  assumes "nvs_ok d view good s" "utf8_valid ssid" "utf8_valid password"
    and "get_credentials d (Some ssid) (Some password) s =
      (Ok c :: (bytes \<times> bytes, ('y, 'n, 'h, 'i, 'x) blind_error) outcome, t)"
    and "get_credentials d None None t = (r, v)"
  shows "c = (ssid, password) \<and> (r = Ok (ssid, password) \<or> (\<exists>e. r = Err (Nvs_Error e)))"
proof -
  from assms(4) obtain u where
    save: "save_credentials d ssid password s = (Ok u :: (unit, ('y, 'n, 'h, 'i, 'x) blind_error) outcome, t)" and c: "c = (ssid, password)"
    and st: "storable ssid password"
    by (auto simp: get_credentials_def within_def storable_def SSID_MAX_LEN_def PASSWORD_LEN_def action_simps
        split: if_splits)
  have "load_credentials d t = (r, v)" using assms(5) by (simp add: get_credentials_def)
  with load_after_save [OF assms(1) st assms(2,3) save] c show ?thesis by blast
qed

lemma ram_set_valid: "set_valid ram_flash v (nvs_new m) = (Ok (), nvs_new (poke m 0x9000 (mark v)))"
  by (cases v) (simp_all add: set_valid_def mark_def zoom_def nvs_new_def NVS_PARTITION_def)

lemma ram_is_valid: "is_valid ram_flash (nvs_new m) = (Ok (marked id (nvs_new m)), nvs_new m)"
  by (auto simp: is_valid_def tryA_def zoom_def ret_def nvs_new_def NVS_PARTITION_def marked_def peek_nvs_view)

lemma ram_nvs_read:
  assumes "unat off + n \<le> 0x4000" "4 \<le> unat off"
  shows "nvs_read ram_flash off n (nvs_new m) = (Ok (peek m (0x9000 + unat off) n), nvs_new m)"
proof -
  have "unat (p_offset NVS_PARTITION + off) = 0x9000 + unat off"
    using assms by (intro nvs_address) simp
  with assms show ?thesis
    by (simp add: nvs_read_def tryA_def valid_offset_new [OF assms] zoom_def)
qed

lemma ram_save:
  "storable ssid password \<Longrightarrow>
     \<exists>m'. save_credentials ram_flash ssid password (nvs_new m) = (Ok (), nvs_new m')"
  by (simp add: save_credentials_def tryA_def map_err_def ram_set_valid ram_nvs_write storable_def) blast

abbreviation example_get ::
  "bytes option \<Rightarrow> bytes option \<Rightarrow> (memory nvs, bytes \<times> bytes, (unit, unit, unit, unit, unit) blind_error) action" where
  "example_get \<equiv> get_credentials ram_flash"

lemma ram_get_embedded:
  assumes "storable ssid password"
  shows "\<exists>m'. example_get (Some ssid) (Some password) (nvs_new m) = (Ok (ssid, password), nvs_new m')"
proof -
  obtain m' where m: "(save_credentials ram_flash ssid password (nvs_new m) ::
      (unit, (unit, unit, unit, unit, unit) blind_error) outcome \<times> memory nvs) = (Ok (), nvs_new m')"
    using ram_save [OF assms] by blast
  then have "example_get (Some ssid) (Some password) (nvs_new m) = (Ok (ssid, password), nvs_new m')"
    using assms
    by (simp add: get_credentials_def tryA_def within_def ret_def storable_def SSID_MAX_LEN_def PASSWORD_LEN_def)
  then show ?thesis by blast
qed

lemma ram_load_no_error:
  assumes "storable ssid password" "holds_credentials (nvs_view id (nvs_new m)) ssid password"
  shows "example_get None None (nvs_new m) \<noteq> (Err (Nvs_Error e), t)"
proof -
  have f: "peek m 0x9004 1 = [of_nat (length ssid)]" "peek m 0x9025 1 = [of_nat (length password)]"
    using assms(2) by (simp_all add: holds_credentials_def holds_field_def peek_nvs_view nvs_new_def)
  have "unat (of_nat (length ssid) :: u8) = length ssid" "unat (of_nat (length password) :: u8) = length password"
    using assms(1) by (simp_all add: storable_def unsigned_of_nat take_bit_nat_eq_self_iff)
  then show ?thesis
    using assms(1) f
    by (auto simp: get_credentials_def load_credentials_def load_field_def tryA_def map_err_def within_def ret_def
        fail_def ram_is_valid ram_nvs_read ram_set_valid storable_def SSID_MAX_LEN_def PASSWORD_LEN_def)
qed

theorem saved_credentials_load_witness:
  "\<exists>t v. example_get (Some [0x68, 0x69]) (Some [0x70, 0x77]) (nvs_new (\<lambda>_. 0xFF)) = (Ok ([0x68, 0x69], [0x70, 0x77]), t) \<and>
     example_get None None t = (Ok ([0x68, 0x69], [0x70, 0x77]), v)"
proof -
  let ?ssid = "[0x68, 0x69] :: bytes" and ?pw = "[0x70, 0x77] :: bytes"
  have st: "storable ?ssid ?pw" by (simp add: storable_def)
  obtain m' where m: "example_get (Some ?ssid) (Some ?pw) (nvs_new (\<lambda>_. 0xFF)) = (Ok (?ssid, ?pw), nvs_new m')"
    using ram_get_embedded [OF st] by blast
  obtain r v where rv: "example_get None None (nvs_new m') = (r, v)" by (rule prod.exhaust)
  have utf8: "utf8_valid ?ssid" "utf8_valid ?pw" by simp_all
  from m obtain u where save: "(save_credentials ram_flash ?ssid ?pw (nvs_new (\<lambda>_. 0xFF)) ::
      (unit, (unit, unit, unit, unit, unit) blind_error) outcome \<times> memory nvs) = (Ok u, nvs_new m')"
    by (auto simp: get_credentials_def within_def SSID_MAX_LEN_def PASSWORD_LEN_def action_simps)
  have "holds_credentials (nvs_view id (nvs_new m')) ?ssid ?pw"
    using save_credentials_law [OF ram_nvs_ok st save] st saved_view_holds [OF st]
    by (simp add: holds_credentials_def)
  then have "r \<noteq> Err (Nvs_Error e)" for e
    using ram_load_no_error [OF st] rv by blast
  with saved_credentials_load [OF ram_nvs_ok utf8 m rv] rv m show ?thesis by blast
qed



text \<open>Saved credentials that are not text are rejected and the store is marked as invalid, so that
  they are not read again.\<close>

theorem invalid_text_is_forgotten:
  assumes "nvs_ok d view good s" "marked view s" "holds_credentials (nvs_view view s) ssid password"
    and "\<not> utf8_valid ssid \<or> \<not> utf8_valid password"
    and "get_credentials d None None s = (r, t)"
  shows "r = Err ParseCredentials \<and> \<not> marked view t \<or> (\<exists>e. r = Err (Nvs_Error e))"
proof -
  have "load_credentials d s = (r, t)" using assms(5) by (simp add: get_credentials_def)
  from load_credentials_law [OF assms(1-3) this] assms(4) show ?thesis by blast
qed

theorem invalid_text_is_forgotten_witness:
  "\<exists>t. example_get None None (nvs_new (\<lambda>x. saved_view (\<lambda>_. 0xFF) [0xFF] [0x70] (x - 0x9000))) = (Err ParseCredentials, t) \<and>
     \<not> marked id t"
proof -
  let ?s = "nvs_new (\<lambda>x. saved_view (\<lambda>_. 0xFF) [0xFF] [0x70] (x - 0x9000))"
  have view: "nvs_view id ?s = saved_view (\<lambda>_. 0xFF) [0xFF] [0x70]"
    by (simp add: nvs_view_def nvs_new_def fun_eq_iff)
  have st: "storable [0xFF] [0x70]" by (simp add: storable_def)
  have holds: "holds_credentials (nvs_view id ?s) [0xFF] [0x70]"
    using saved_view_holds [OF st] st unfolding view by (simp add: holds_credentials_def)
  have "marked id ?s"
    using saved_view_holds(3) [OF st] from_mark [of True] by (simp add: marked_def view)
  moreover obtain r t where rt: "example_get None None ?s = (r, t)" by (rule prod.exhaust)
  ultimately have "r = Err ParseCredentials \<and> \<not> marked id t \<or> (\<exists>e. r = Err (Nvs_Error e))"
    using invalid_text_is_forgotten [OF ram_nvs_ok _ holds _ rt] by simp
  with ram_load_no_error [OF st holds] rt show ?thesis by blast
qed

end
