(* ===== verification/Boot_Properties.thy ===== *)
theory Boot_Properties
  imports Boot_Correct Ota_Properties Credentials_Properties
begin

text \<open>
  The properties of the start of the firmware (src/bin/blind.rs), and their instances on a
  device that finds a newer firmware on a server and installs it.
\<close>

section \<open>The build date\<close>

lemma fetch_published_date:
  assumes "in_i64 v" "timestamp v = Some date" "url_ok url"
    and "send_request h url (http_stack (http_connect h random c)) = Some (Ok resp, w)"
    and "is_successful h (rs_status resp)" "hc_read_to_end h w = Some (Inr (build_date_file v), w')"
  shows "fetch_build_date timestamp h random url c = Some (Ok v, (http_connect h random c)\<lparr>http_stack := w'\<rparr>)"
proof -
  have "req_step h 20 url (http_stack (http_connect h random c)) = Some (Ok (Inr (build_date_file v)), w')"
    using assms(4-6) length_show_i64 [OF assms(1)]
    by (simp add: req_step_def returning_def ret_def build_date_file_def)
  then have "req h random 20 url c =
      Some (Ok (build_date_file v), (http_connect h random c)\<lparr>http_stack := w'\<rparr>)"
    using assms(3) by (simp add: req_def to_url_string_run)
  then show ?thesis
    using assms(2) parse_i64_show_i64 [OF assms(1)]
    by (simp add: fetch_build_date_def tryP_def errP_def returning_def parse_build_date_def
        build_date_file_def show_i64_utf8 ok_or_def ret_def tryA_def)
qed

section \<open>A server with a release\<close>

text \<open>The server knows the URL last asked for, and the chunks of the current body still to be read.\<close>

type_synonym release = "bytes \<times> bytes list"

definition file_head :: "usize \<Rightarrow> response_head" where
  "file_head n = \<lparr>rs_status = 200, rs_headers = [], rs_content_length = Some n\<rparr>"

definition released :: "bytes \<Rightarrow> response_head \<times> bytes list" where
  "released url =
     (if url = BUILD_DATE_URL ''t'' then (file_head 4, [build_date_file 2024]) else (file_head 3, [[1, 2], [3]]))"

definition release_server :: "(release, unit) http_ops" where
  "release_server =
     \<lparr>hc_new = (\<lambda>_ w. w),
      hc_request = (\<lambda>u w. Some (Inr (), (u, snd w))),
      hc_send = (\<lambda>w. Some (Inr (fst (released (fst w))), (fst w, snd (released (fst w))))),
      hc_read_to_end = (\<lambda>w. Some (Inr (concat (snd w)), (fst w, []))),
      hc_fill_buf = (\<lambda>w. Some (Inr (case snd w of [] \<Rightarrow> [] | b # _ \<Rightarrow> take 16384 b), w)),
      hc_consume = (\<lambda>n w. (fst w, case snd w of [] \<Rightarrow> [] | b # bs \<Rightarrow> if n < length b then drop n b # bs else bs)),
      is_successful = (\<lambda>st. 200 \<le> st \<and> st < 300),
      is_redirection = (\<lambda>st. 300 \<le> st \<and> st < 400)\<rparr>"

lemma release_server_simps [simp]:
  "hc_new release_server seed w = w"
  "hc_request release_server u w = Some (Inr (), (u, snd w))"
  "hc_send release_server w = Some (Inr (fst (released (fst w))), (fst w, snd (released (fst w))))"
  "hc_read_to_end release_server w = Some (Inr (concat (snd w)), (fst w, []))"
  "hc_fill_buf release_server w = Some (Inr (case snd w of [] \<Rightarrow> [] | b # _ \<Rightarrow> take 16384 b), w)"
  "hc_consume release_server n w =
     (fst w, case snd w of [] \<Rightarrow> [] | b # bs \<Rightarrow> if n < length b then drop n b # bs else bs)"
  "is_successful release_server st = (200 \<le> st \<and> st < 300)"
  by (simp_all add: release_server_def)

lemma release_server_small: "small_chunks release_server"
  by (auto simp: small_chunks_def split: list.splits)

definition unit_random :: "unit random" where "unit_random r = (7, ())"

lemma http_connect_release [simp]: "http_connect release_server unit_random c = c"
  by (cases c) (auto simp: http_connect_def split: prod.splits)

lemma ascii_utf8: "list_all (\<lambda>c. of_char c < (0x80 :: u8)) s \<Longrightarrow> list_all (\<lambda>b. b < 0x80) (ascii s)"
  by (simp add: ascii_def list_all_iff)

lemma release_urls_ok: "url_ok (BUILD_DATE_URL ''t'')" "url_ok (FIRMWARE_URL ''t'')"
  by (rule iffD2 [OF url_ok_def], rule conjI,
      simp add: BUILD_DATE_URL_def FIRMWARE_URL_def RELEASE_URL_def ascii_def,
      rule utf8_valid_ascii,
      simp add: BUILD_DATE_URL_def FIRMWARE_URL_def RELEASE_URL_def ascii_def)+

lemma release_urls_differ: "FIRMWARE_URL ''t'' \<noteq> BUILD_DATE_URL ''t''"
  by (simp add: BUILD_DATE_URL_def FIRMWARE_URL_def ascii_def)

lemma release_send [simp]:
  "send_request release_server (BUILD_DATE_URL ''t'') w = Some (Ok (file_head 4), (BUILD_DATE_URL ''t'', [build_date_file 2024]))"
  "send_request release_server (FIRMWARE_URL ''t'') w = Some (Ok (file_head 3), (FIRMWARE_URL ''t'', [[1, 2], [3]]))"
  using release_urls_differ by (simp_all add: send_request_def released_def)

lemma file_head_simps [simp]: "rs_status (file_head n) = 200" "rs_content_length (file_head n) = Some n"
  by (simp_all add: file_head_def)

lemma fetch_example:
  "fetch_build_date Some release_server unit_random (BUILD_DATE_URL ''t'') c =
   Some (Ok 2024, c\<lparr>http_stack := (BUILD_DATE_URL ''t'', [])\<rparr>)"
  by (subst fetch_published_date [where resp = "file_head 4" and date = 2024 and
        w = "(BUILD_DATE_URL ''t'', [build_date_file 2024])" and w' = "(BUILD_DATE_URL ''t'', [])"])
    (simp_all add: in_i64_def release_urls_ok)

text \<open>C32: The build date a release publishes is the one a device reads: whatever the date, the
  text written by build.rs fits the 20 bytes the device has for it, is text, and parses to the
  date it was made from.\<close>

theorem published_date_accepted:
  assumes "in_i64 v" "timestamp v = Some date" "url_ok url"
    and "send_request h url (http_stack (http_connect h random c)) = Some (Ok resp, w)"
    and "is_successful h (rs_status resp)" "hc_read_to_end h w = Some (Inr (build_date_file v), w')"
  shows "fetch_build_date timestamp h random url c = Some (Ok v, (http_connect h random c)\<lparr>http_stack := w'\<rparr>)"
  using assms by (rule fetch_published_date)

theorem published_date_accepted_witness:
  "fetch_build_date Some release_server unit_random (BUILD_DATE_URL ''t'') \<lparr>http_stack = ([], []), http_rng = ()\<rparr> =
   Some (Ok 2024, \<lparr>http_stack = (BUILD_DATE_URL ''t'', []), http_rng = ()\<rparr>)"
  by (subst published_date_accepted [where resp = "file_head 4" and date = 2024 and
        w = "(BUILD_DATE_URL ''t'', [build_date_file 2024])" and w' = "(BUILD_DATE_URL ''t'', [])"])
    (simp_all add: in_i64_def release_urls_ok)

section \<open>A device that updates\<close>

definition ready_radio :: "(release, unit, unit, unit, unit) wifi_ops" where
  "ready_radio =
     \<lparr>wf_init = (\<lambda>w. (Inr (), w)),
      wf_new_with_config = (\<lambda>_ w. (Inr (), w)),
      wf_new_with_mode = (\<lambda>w. (Inr (), w)),
      wf_new_stack = (\<lambda>_ _ w. w),
      wf_link_up = (\<lambda>_. True),
      wf_config_v4 = (\<lambda>_. Some ()),
      wf_sta_connected = (\<lambda>_. False),
      wf_is_started = (\<lambda>_. Inr True),
      wf_start = (\<lambda>w. Some (Inr (), w)),
      wf_stop = (\<lambda>w. Some (Inr (), w)),
      wf_scan = (\<lambda>_ w. Some (Inr [], w)),
      wf_set_configuration = (\<lambda>_ w. (Inr (), w)),
      wf_connect = (\<lambda>w. Some (Inr (), w)),
      wf_wait_disconnected = Some, wf_wait_shutdown = (\<lambda>_. None), wf_signal_complete = id,
      wf_wait_restart = (\<lambda>_. None), wf_delay = (\<lambda>_ w. w), wf_wpa2 = ()\<rparr>"

definition ready_ntp :: "(release, unit) ntp_net" where
  "ready_ntp =
     \<lparr>query_a = (\<lambda>_ w. Some (Inr [Ipv4 0x7f000001], w)),
      bind_any = (\<lambda>w. (Inr (), w)),
      get_time = (\<lambda>_ _ s. Some (Err (), s)),
      fraction_to_microseconds = id,
      tick = id\<rparr>"

definition release_env where
  "release_env =
     \<lparr>be_flash = ram_flash, be_crc = no_crc, be_wifi = ready_radio, be_random = unit_random,
      be_http = release_server, be_ntp = ready_ntp, be_time = reference_time,
      be_timestamp = Some, be_coordinates = Some (), be_ssid = Some [0x68, 0x69], be_password = Some [0x70, 0x77],
      be_build_date = 2023, be_target = ''t'', be_ntp_server = ''pool''\<rparr>"

definition old_device :: "(memory, release, unit, unit, unit) device" where
  "old_device =
     \<lparr>dv_flash = example_flash,
      dv_wifi = \<lparr>wf_world = ([], []), wf_cache = wifi_cache_new ready_radio, wf_rng = ()\<rparr>,
      dv_clock = clock_config_new 0 0 0 0 0, dv_update_pending = False\<rparr>"

text \<open>Two valid entries, as in the example flash.\<close>

definition two_valid :: "memory \<Rightarrow> bool" where
  "two_valid m \<longleftrightarrow>
     stored_entry m SlotZero = example_entry 1 Valid \<and> stored_entry m SlotOne = example_entry 2 Valid"

lemma two_valid_prepare:
  "two_valid f \<Longrightarrow> prepare_for_update no_crc ram_flash (ota_new f) =
     (Ok (), \<lparr>ota_flash = f, update_state = Some (Slot0, 0)\<rparr>)"
  by (simp add: prepare_for_update_def update_slot_def two_valid_def ota_new_def effective_seq_def
      slot_by_seq_def tryA_def ret_def modify_def)

lemma release_body:
  "body_loop release_server (write_update ram_flash) 3 0
     ((rs, [[1, 2], [3]]), \<lparr>ota_flash = f, update_state = Some (Slot0, 0)\<rparr>) =
   Some (Ok (), (rs, []), \<lparr>ota_flash = poke f 0x10000 [1, 2, 3], update_state = Some (Slot0, 3)\<rparr>)"
proof -
  let ?s1 = "\<lparr>ota_flash = poke f 0x10000 [1, 2], update_state = Some (Slot0, 2)\<rparr>"
  let ?s2 = "\<lparr>ota_flash = poke f 0x10000 [1, 2, 3], update_state = Some (Slot0, 3)\<rparr>"
  have "poke (poke f 0x10000 [1, 2]) 0x10002 [3] = poke f 0x10000 [1, 2, 3]"
    using poke_poke_append [where m = f and a = "0x10000" and bs = "[1, 2]" and cs = "[3]"] by simp
  then have "body_step release_server (write_update ram_flash) 3 0
      ((rs, [[1, 2], [3]]), \<lparr>ota_flash = f, update_state = Some (Slot0, 0)\<rparr>) = Some (Ok (Some 2), ((rs, [[3]]), ?s1))"
    "body_step release_server (write_update ram_flash) 3 2 ((rs, [[3]]), ?s1) = Some (Ok (Some 3), ((rs, []), ?s2))"
    "body_step release_server (write_update ram_flash) 3 3 ((rs, []), ?s2) = Some (Ok None, ((rs, []), ?s2))"
    by (simp_all add: body_step_def returning_def tryA_def zoom_def map_err_def modify_def ret_def
        example_write_update)
  then show ?thesis by simp
qed

lemma two_valid_install:
  assumes "two_valid f"
  shows "\<exists>c' o'. install_update no_crc ram_flash release_server unit_random (FIRMWARE_URL ''t'') (c, ota_new f) =
    Some (Ok () :: (unit, (unit, unit, unit, unit, unit) blind_error) outcome, c', o')"
proof -
  let ?o = "\<lparr>ota_flash = f, update_state = Some (Slot0, 0)\<rparr>"
  let ?o2 = "\<lparr>ota_flash = poke f 0x10000 [1, 2, 3], update_state = Some (Slot0, 3)\<rparr>"
  have "buffered_step release_server (FIRMWARE_URL ''t'') w = Some (Ok (Inr 3), (FIRMWARE_URL ''t'', [[1, 2], [3]]))" for w
    by (simp add: buffered_step_def returning_def ret_def)
  then have "req_buffered release_server unit_random (FIRMWARE_URL ''t'') (write_update ram_flash) (c, ?o) =
      Some (Ok (), c\<lparr>http_stack := (FIRMWARE_URL ''t'', [])\<rparr>, ?o2)"
    by (simp add: req_buffered_def to_url_string_run release_urls_ok release_body)
  moreover obtain o' where "commit_update no_crc ram_flash ?o2 = (Ok (), o')"
    using example_commit [of ?o2 3] assms by (auto simp: stored_entry_poke_app two_valid_def)
  ultimately show ?thesis
    using two_valid_prepare [OF assms]
    by (auto simp: install_update_def tryP_def returning_def zoom_def map_err_def errP_def)
qed

lemma release_env_simps [simp]:
  "be_flash release_env = ram_flash" "be_crc release_env = no_crc" "be_wifi release_env = ready_radio"
  "be_random release_env = unit_random" "be_http release_env = release_server" "be_ntp release_env = ready_ntp"
  "be_time release_env = reference_time" "be_timestamp release_env = Some"
  "be_coordinates release_env = Some ()" "be_ssid release_env = Some [0x68, 0x69]"
  "be_password release_env = Some [0x70, 0x77]" "be_build_date release_env = 2023"
  "be_target release_env = ''t''" "be_ntp_server release_env = ''pool''"
  by (simp_all add: release_env_def)

lemma release_wifi:
  "\<exists>config w'. wifi_connect ready_radio unit_random ssid password
      \<lparr>wf_world = w, wf_cache = wifi_cache_new ready_radio, wf_rng = ()\<rparr> =
    (Ok config, \<lparr>wf_world = w, wf_cache = w', wf_rng = ()\<rparr>)"
  by (simp add: wifi_connect_def ready_radio_def tryA_def zoom_def external_def modify_def ret_def Let_def
      forget_other_ssid_def wifi_cache_new_def split: prod.split)

lemma release_await:
  "await_connection ready_radio (s\<lparr>dv_wifi := \<lparr>wf_world = w, wf_cache = c, wf_rng = r\<rparr>\<rparr>) =
    Some (Ok (), s\<lparr>dv_wifi := \<lparr>wf_world = w, wf_cache = remember_config () c, wf_rng = r\<rparr>\<rparr>)"
proof -
  have "wait_link_up ready_radio w = Some w" by (subst wait_link_up.simps) (simp add: ready_radio_def)
  moreover have "wait_config_v4 ready_radio w = Some ((), w)"
    by (subst wait_config_v4.simps) (simp add: ready_radio_def)
  ultimately show ?thesis by (simp add: await_connection_def wait_for_connection_def)
qed

lemma release_check:
  assumes "b < 2024 \<Longrightarrow> two_valid (dv_flash s)"
  shows "\<exists>t. check_for_update (release_env\<lparr>be_build_date := b\<rparr>) s =
    Some (Ok () :: (unit, (unit, unit, unit, unit, unit) blind_error) outcome, t)"
proof (cases "b < 2024")
  case True
  let ?s1 = "http_to ((http_of s)\<lparr>http_stack := (BUILD_DATE_URL ''t'', [])\<rparr>) s"
  obtain c' o' where "install_update no_crc ram_flash release_server unit_random (FIRMWARE_URL ''t'')
      (http_of ?s1, ota_new (dv_flash s)) =
    Some (Ok () :: (unit, (unit, unit, unit, unit, unit) blind_error) outcome, c', o')"
    using two_valid_install [OF assms] True by blast
  with True show ?thesis
    by (simp add: check_for_update_def tryP_def zoomP_def returning_def modify_def fetch_example)
next
  case False
  then show ?thesis by (simp add: check_for_update_def tryP_def zoomP_def returning_def fetch_example ret_def)
qed

text \<open>The start of the example device comes to the look for an update with its entries as they were.\<close>

abbreviation release_start ::
  "memory \<Rightarrow> clock \<Rightarrow> (unit, unit) wifi_cache \<Rightarrow> (memory, release, unit, unit, unit) device" where
  "release_start m k w \<equiv> old_device\<lparr>dv_clock := k, dv_flash := m, dv_wifi := \<lparr>wf_world = ([], []), wf_cache = w, wf_rng = ()\<rparr>\<rparr>"

lemma release_main_check:
  obtains m w where "nvs_only f m"
    "main_fallible (release_env\<lparr>be_build_date := b\<rparr>) (old_device\<lparr>dv_flash := f, dv_clock := k\<rparr>) =
      (tryP (check_for_update (release_env\<lparr>be_build_date := b\<rparr>)) (\<lambda>_.
       tryP (returning (modify (\<lambda>s. s\<lparr>dv_clock := configure_once reference_time (dv_clock s)\<rparr>))) (\<lambda>_.
       returning (ret (\<lparr>ntp_socket = (0x7f000001, NTP_PORT)\<rparr>, ())))) (release_start m k w) ::
      ((ntp_client \<times> unit, (unit, unit, unit, unit, unit) blind_error) outcome \<times> (memory, release, unit, unit, unit) device) option)"
proof -
  let ?e = "release_env\<lparr>be_build_date := b\<rparr>" and ?d = "old_device\<lparr>dv_flash := f, dv_clock := k\<rparr>"
  have "storable [0x68, 0x69] [0x70, 0x77]" by (simp add: storable_def)
  from ram_get_embedded [OF this, of f] obtain m where
    c: "example_get (Some [0x68, 0x69]) (Some [0x70, 0x77]) (nvs_new f) =
      (Ok ([0x68, 0x69], [0x70, 0x77]), nvs_new m)" by blast
  have m: "nvs_only f m" using get_credentials_flash(2) [OF ram_flash_ok c] by simp
  obtain config w where w: "wifi_connect ready_radio unit_random [0x68, 0x69] [0x70, 0x77] (dv_wifi old_device) =
      (Ok config :: (unit net_config, (unit, unit) wifi_error) outcome,
       \<lparr>wf_world = ([], []), wf_cache = w, wf_rng = ()\<rparr>)"
    using release_wifi [of "[0x68, 0x69]" "[0x70, 0x77]" "([], [])"] by (auto simp: old_device_def)
  have n: "new_from_dns ready_ntp ''pool'' v = Some (Ok \<lparr>ntp_socket = (0x7f000001, NTP_PORT)\<rparr>, v)" for v
    by (simp add: new_from_dns_def ready_ntp_def ntp_client_new_def)
  have dns: "resolve_server ?e =
      (returning (ret \<lparr>ntp_socket = (0x7f000001, NTP_PORT)\<rparr>) ::
        ((memory, release, unit, unit, unit) device, ntp_client, (unit, unit, unit, unit, unit) blind_error) process)"
    by (simp add: fun_eq_iff resolve_server_def zoomP_def errP_def n)
  have tail: "tryP (returning (ret x)) g = g x" for x and g :: "ntp_client \<Rightarrow> ((memory, release, unit, unit, unit) device, ntp_client \<times> unit, (unit, unit, unit, unit, unit) blind_error) process"
    by (simp add: fun_eq_iff tryP_def returning_def ret_def)
  have "start_after_credentials ?e [0x68, 0x69] [0x70, 0x77] () (?d\<lparr>dv_flash := m\<rparr>) =
      (tryP (check_for_update ?e) (\<lambda>_.
       tryP (returning (modify (\<lambda>s. s\<lparr>dv_clock := configure_once reference_time (dv_clock s)\<rparr>))) (\<lambda>_.
       returning (ret (\<lparr>ntp_socket = (0x7f000001, NTP_PORT)\<rparr>, ())))) (release_start m k (remember_config () w)) ::
      ((ntp_client \<times> unit, (unit, unit, unit, unit, unit) blind_error) outcome \<times> (memory, release, unit, unit, unit) device) option)"
    unfolding start_after_credentials_def
    by (simp add: tryP_def [of "returning (on_wifi (map_err Wifi_Error _))"] tryP_def [of "await_connection _"]
        returning_def [of "on_wifi (map_err Wifi_Error _)"] zoom_def map_err_def w dns tail
        release_await [where s = "old_device\<lparr>dv_clock := k, dv_flash := m\<rparr>" and w = "([], [])" and c = w and r = "()"]
        del: returning_ret)
  moreover have "main_fallible ?e ?d =
      (start_after_credentials ?e [0x68, 0x69] [0x70, 0x77] () (?d\<lparr>dv_flash := m\<rparr>) ::
      ((ntp_client \<times> unit, (unit, unit, unit, unit, unit) blind_error) outcome \<times> (memory, release, unit, unit, unit) device) option)"
    by (simp add: main_fallible_def tryP_def returning_def expect_def zoom_def c ret_def)
  ultimately have "main_fallible ?e ?d =
      (tryP (check_for_update ?e) (\<lambda>_.
       tryP (returning (modify (\<lambda>s. s\<lparr>dv_clock := configure_once reference_time (dv_clock s)\<rparr>))) (\<lambda>_.
       returning (ret (\<lparr>ntp_socket = (0x7f000001, NTP_PORT)\<rparr>, ())))) (release_start m k (remember_config () w)) ::
      ((ntp_client \<times> unit, (unit, unit, unit, unit, unit) blind_error) outcome \<times> (memory, release, unit, unit, unit) device) option)"
    by (rule trans [rotated])
  with m show ?thesis by (rule that)
qed

lemma release_boot_at:
  assumes "b < 2024 \<Longrightarrow> two_valid f"
  shows "\<exists>t. main_fallible (release_env\<lparr>be_build_date := b\<rparr>) (old_device\<lparr>dv_flash := f, dv_clock := k\<rparr>) =
    Some (Ok (\<lparr>ntp_socket = (0x7f000001, NTP_PORT)\<rparr>, ()) ::
      (ntp_client \<times> unit, (unit, unit, unit, unit, unit) blind_error) outcome, t)"
proof (rule release_main_check [where f = f and b = b and k = k])
  fix m w
  assume m: "nvs_only f m" and run: "main_fallible (release_env\<lparr>be_build_date := b\<rparr>) (old_device\<lparr>dv_flash := f, dv_clock := k\<rparr>) =
      (tryP (check_for_update (release_env\<lparr>be_build_date := b\<rparr>)) (\<lambda>_.
       tryP (returning (modify (\<lambda>s. s\<lparr>dv_clock := configure_once reference_time (dv_clock s)\<rparr>))) (\<lambda>_.
       returning (ret (\<lparr>ntp_socket = (0x7f000001, NTP_PORT)\<rparr>, ())))) (release_start m k w) ::
      ((ntp_client \<times> unit, (unit, unit, unit, unit, unit) blind_error) outcome \<times> (memory, release, unit, unit, unit) device) option)"
  have "b < 2024 \<Longrightarrow> two_valid (dv_flash (release_start m k w))"
    using nvs_only_stored_entry [OF m] assms by (simp add: two_valid_def)
  from release_check [OF this, of b] obtain t where
    "check_for_update (release_env\<lparr>be_build_date := b\<rparr>) (release_start m k w) =
      Some (Ok () :: (unit, (unit, unit, unit, unit, unit) blind_error) outcome, t)" by blast
  then show ?thesis unfolding run by (simp add: tryP_def returning_def modify_def ret_def)
qed

lemma release_boot:
  "\<exists>t. main_fallible release_env old_device =
    Some (Ok (\<lparr>ntp_socket = (0x7f000001, NTP_PORT)\<rparr>, ()) ::
      (ntp_client \<times> unit, (unit, unit, unit, unit, unit) blind_error) outcome, t)"
proof -
  have "two_valid (dv_flash old_device)" by (simp add: two_valid_def old_device_def)
  from release_boot_at [OF this, of 2023 "dv_clock old_device"] show ?thesis by (simp add: release_env_def)
qed

text \<open>C1: A start that gets as far as running the tasks has looked for the date of the published firmware. If
  that is newer than its own it has installed the published image: the image is in the slot that was not
  selected, as received in the final response to the request for it, its entry is committed, and the web page will
  say that an update is pending. Otherwise nothing but the NVS has changed. Either way the clock is configured.\<close>

theorem boot_updates:
  fixes env :: "('f, 'y, 'w, 'am, 'cfg, 'i, 'x, 'r, 'h, 'n, 'o, 'dt, 'd, 't, 'bd, 'c) boot_env"
  assumes ok: "flash_ok (be_flash env) view good (dv_flash s)" and small: "small_chunks (be_http env)"
    and run: "main_fallible env s = Some (Ok x, t)"
    and date: "publishes env v"
    and slot: "slot = choose_update_slot (be_crc env) (stored_entry (view (dv_flash s)) SlotZero)
      (stored_entry (view (dv_flash s)) SlotOne)"
  shows "configured (dv_clock t) \<and>
    (if v > be_build_date env then
       dv_update_pending t \<and>
       (\<exists>w0 cl w cs w'. final_response (be_http env) (FIRMWARE_URL (be_target env)) w0 cl w \<and>
         chunk_read (be_http env) w cs w' \<and> length (concat cs) \<le> unat (slot_size slot) \<and>
         peek (view (dv_flash t)) (unat (slot_offset slot)) (length (concat cs)) = concat cs) \<and>
       stored_entry (view (dv_flash t)) (entry_of slot) =
         committed_entry (be_crc env) (stored_entry (view (dv_flash s))) slot
     else
       dv_update_pending t = dv_update_pending s \<and>
       (\<forall>x. \<not> in_partition NVS_PARTITION x \<longrightarrow> view (dv_flash t) x = view (dv_flash s) x))"
  using ok run
proof (cases rule: main_fallible_flash)
  case no_install
  then obtain u where "published env u" "u \<le> be_build_date env" "configured (dv_clock t)" by blast
  with publishes_unique [OF date] no_install(1,2) show ?thesis by (simp add: nvs_only_def)
next
  case (installs f u c c' o' q)
  note entries = nvs_only_stored_entry [OF installs(2)]
  have fok: "ota_ok (be_flash env) view good (ota_new f)"
    using installs(1) by (simp add: ota_ok_def ota_new_def)
  have es: "ota_entries view (ota_new f) = stored_entry (view (dv_flash s))"
    using entries by (simp add: ota_entries_def ota_new_def fun_eq_iff)
  from installs(5,7) have "install_update (be_crc env) (be_flash env) (be_http env) (be_random env)
      (FIRMWARE_URL (be_target env)) (c, ota_new f) =
      Some (Ok () :: (unit, ('y, 'n, 'h, 'i, 'x) blind_error) outcome, c', o')" by simp
  from install_update_performs [OF this] obtain w0 cl w cs where
    final: "final_response (be_http env) (FIRMWARE_URL (be_target env)) w0 cl w"
    and read: "chunk_read (be_http env) w cs (http_stack c')"
    and upd: "perform_update (be_crc env) (be_flash env) cs (ota_new f) = (Ok (), o')" by metis
  note all = small_chunks_all [OF small chunk_read_filled [OF read]]
  note inst = perform_update_installs [OF fok all upd, of slot, unfolded es, OF slot]
  from inst have "ota_entries view o' (entry_of slot) =
      committed_entry (be_crc env) (stored_entry (view (dv_flash s))) slot" by simp
  moreover have "\<exists>w0 cl w cs w'. final_response (be_http env) (FIRMWARE_URL (be_target env)) w0 cl w \<and>
      chunk_read (be_http env) w cs w' \<and> length (concat cs) \<le> unat (slot_size slot) \<and>
      peek (view (dv_flash t)) (unat (slot_offset slot)) (length (concat cs)) = concat cs"
    by (intro exI conjI, rule final, rule read) (use inst installs(6) in simp_all)
  ultimately show ?thesis
    using installs(4,6,7) publishes_unique [OF date installs(3)] by (auto simp: ota_entries_def)
qed

lemma release_publishes: "publishes release_env 2024"
proof -
  have "req_step release_server 20 (BUILD_DATE_URL ''t'') w =
      Some (Ok (Inr (build_date_file 2024)), (BUILD_DATE_URL ''t'', []))" for w
    using length_show_i64 [of 2024]
    by (simp add: req_step_def returning_def ret_def build_date_file_def in_i64_def)
  then have "req release_server unit_random 20 (BUILD_DATE_URL ''t'') c =
      Some (Ok (build_date_file 2024), c\<lparr>http_stack := (BUILD_DATE_URL ''t'', [])\<rparr>)" for c
    by (simp add: req_def to_url_string_run release_urls_ok)
  then show ?thesis
    by (simp add: publishes_def build_date_file_def parse_i64_show_i64 in_i64_def)
qed

lemma old_device_slot:
  "Slot0 = choose_update_slot (be_crc release_env) (stored_entry (id (dv_flash old_device)) SlotZero)
     (stored_entry (id (dv_flash old_device)) SlotOne)"
  by (simp add: old_device_def)

lemma old_device_flash: "flash_ok (be_flash release_env) id (\<lambda>_. True) (dv_flash old_device)"
  by simp

theorem boot_updates_witness:
  "\<exists>x t. main_fallible release_env old_device = Some (Ok x, t) \<and> dv_update_pending t \<and>
     ota_state (stored_entry (dv_flash t) SlotZero) = New"
proof -
  obtain x t where run: "main_fallible release_env old_device =
      Some (Ok x :: (ntp_client \<times> unit, (unit, unit, unit, unit, unit) blind_error) outcome, t)"
    using release_boot by blast
  have small: "small_chunks (be_http release_env)" by (simp add: release_server_small)
  from boot_updates [OF old_device_flash small run release_publishes old_device_slot]
  have "dv_update_pending t \<and> ota_state (stored_entry (dv_flash t) SlotZero) = New" by simp
  with run show ?thesis by blast
qed

text \<open>C2: However a start ends (running, with an error that sends the device to sleep, or with a panic), the
  flash outside the NVS, the slot that is not selected and the sector of its OTA entry is as it was, and so is the
  entry of the other slot: the selected firmware with its entry, the bootloader and the partition table survive every
  start. As a write that fails may leave anything in the sectors it spans, this holds also of a start that ends with
  the flash failing at any point.\<close>

theorem boot_confined:
  assumes "flash_ok (be_flash env) view good (dv_flash s)" and "small_chunks (be_http env)"
    and "main_fallible env s = Some (r, t)"
    and "slot = choose_update_slot (be_crc env) (stored_entry (view (dv_flash s)) SlotZero)
      (stored_entry (view (dv_flash s)) SlotOne)"
  shows "(\<forall>x. \<not> in_partition NVS_PARTITION x \<and> \<not> in_partition (slot_partition slot) x \<and>
      \<not> entry_sector (entry_of slot) x \<longrightarrow> view (dv_flash t) x = view (dv_flash s) x) \<and>
    (\<forall>other. other \<noteq> entry_of slot \<longrightarrow>
      stored_entry (view (dv_flash t)) other = stored_entry (view (dv_flash s)) other)"
proof -
  note frame = main_fallible_confined [OF assms]
  have "stored_entry (view (dv_flash t)) other = stored_entry (view (dv_flash s)) other" if "other \<noteq> entry_of slot" for other
  proof (rule stored_entry_sector_cong)
    fix x assume x: "entry_sector other x"
    from entry_sector_partitions [OF x] entry_sector_other [OF that x] show "view (dv_flash t) x = view (dv_flash s) x"
      by (intro frame) (cases slot; simp add: slot_partition_def)+
  qed
  with frame show ?thesis by blast
qed

theorem boot_confined_witness:
  "\<exists>r t. main_fallible release_env old_device = Some (r, t) \<and> dv_flash t 0x8000 = example_flash 0x8000 \<and>
     stored_entry (dv_flash t) SlotOne = stored_entry example_flash SlotOne"
proof -
  obtain x t where run: "main_fallible release_env old_device =
      Some (Ok x :: (ntp_client \<times> unit, (unit, unit, unit, unit, unit) blind_error) outcome, t)"
    using release_boot by blast
  have small: "small_chunks (be_http release_env)" by (simp add: release_server_small)
  note kept = boot_confined [OF old_device_flash small run old_device_slot]
  from kept have "id (dv_flash t) 0x8000 = id (dv_flash old_device) 0x8000"
    by (simp add: slot_partition_def entry_sector_def entry_addr_def)
  moreover from kept have "stored_entry (id (dv_flash t)) SlotOne = stored_entry (id (dv_flash old_device)) SlotOne" by simp
  ultimately show ?thesis using run by (auto simp: old_device_def)
qed

text \<open>The NTP task never makes a first request in the sense of its code: a start that reaches the tasks has
  configured the clock, so that the task starts with \<open>first_run\<close> off and even on a clock that was never
  set uses the offset of the answer, not its time.\<close>

theorem no_first_ntp_request:
  fixes env :: "('f, 'y, 'w, 'am, 'cfg, 'i, 'x, 'r, 'h, 'n, 'o, 'dt, 'd, 't, 'bd, 'c) boot_env"
  assumes "main_fallible env s = Some (Ok x, t)" "clk n = dv_clock t"
  shows "\<not> nt_first_run (ntp_task_init n)"
  using main_fallible_configured [OF assms(1)] assms(2) by (simp add: ntp_task_init_def)

theorem no_first_ntp_request_witness:
  "\<exists>x t. main_fallible release_env old_device = Some (Ok x, t) \<and>
     \<not> nt_first_run (ntp_task_init \<lparr>net = (), clk = dv_clock t\<rparr>)"
proof -
  obtain x t where run: "main_fallible release_env old_device =
      Some (Ok x :: (ntp_client \<times> unit, (unit, unit, unit, unit, unit) blind_error) outcome, t)"
    using release_boot by blast
  from no_first_ntp_request [OF run, of "\<lparr>net = (), clk = dv_clock t\<rparr>"] run show ?thesis by (intro exI conjI) (assumption, simp)
qed

end
