(* ===== verification/Life_Properties.thy ===== *)
theory Life_Properties
  imports Life System_Properties Boot_Properties
begin

text \<open>
  The properties of the device over its whole life, with any number of starts, updates, errors and restarts, and
  instances on the device and the server of Boot_Properties.
\<close>

abbreviation demo_life ::
  "int \<Rightarrow> (memory, release, unit, unit, unit) device \<Rightarrow> (memory, release, unit, unit, unit) life \<Rightarrow> bool" where
  "demo_life b \<equiv> life_reach (\<lambda>env. env = release_env\<lparr>be_build_date := b\<rparr>) False example_sun half_past_noon list_channel id (\<lambda>_. False)"

abbreviation demo_life_step ::
  "int \<Rightarrow> (memory, release, unit, unit, unit) life \<Rightarrow> (memory, release, unit, unit, unit) life \<Rightarrow> bool" where
  "demo_life_step b \<equiv> life_step (\<lambda>env. env = release_env\<lparr>be_build_date := b\<rparr>) False example_sun half_past_noon list_channel id (\<lambda>_. False)"

lemma release_env_safe: "safe_firmware id (\<lambda>_. True) (release_env\<lparr>be_build_date := b\<rparr>)"
  using old_device_flash release_server_small by (simp add: safe_firmware_def flash_ok_def)

lemma ready_ntp_contract: "net_contract ready_ntp"
  using later_refl by (auto simp: net_contract_def ready_ntp_def)

text \<open>A start of the example device at any clock that was configured before.\<close>

lemma release_main:
  assumes "b < 2024 \<Longrightarrow> two_valid f"
  obtains t where "firmware_main (release_env\<lparr>be_build_date := b\<rparr>) (old_device\<lparr>dv_flash := f, dv_clock := k\<rparr>) =
      Some (Running (\<lparr>ntp_socket = (0x7f000001, NTP_PORT)\<rparr>, ()), t)"
    "configured (dv_clock t)" "configured k \<Longrightarrow> dv_clock t = k"
proof -
  let ?e = "release_env\<lparr>be_build_date := b\<rparr>" and ?d = "old_device\<lparr>dv_flash := f, dv_clock := k\<rparr>"
  obtain t where t: "main_fallible ?e ?d = Some (Ok (\<lparr>ntp_socket = (0x7f000001, NTP_PORT)\<rparr>, ()) ::
        (ntp_client \<times> unit, (unit, unit, unit, unit, unit) blind_error) outcome, t)"
    using release_boot_at [OF assms] by blast
  have "firmware_main ?e ?d = Some (Running (\<lparr>ntp_socket = (0x7f000001, NTP_PORT)\<rparr>, ()), t)"
    unfolding firmware_main_Running by (rule t)
  moreover have "dv_clock t = k" if "configured k"
    using main_fallible_clock [OF t] that by (simp add: configure_once_def)
  ultimately show ?thesis using main_fallible_configured [OF t] that by blast
qed

lemma release_main_old:
  obtains t where "firmware_main (release_env\<lparr>be_build_date := b\<rparr>) (old_device\<lparr>dv_clock := k\<rparr>) =
      Some (Running (\<lparr>ntp_socket = (0x7f000001, NTP_PORT)\<rparr>, ()), t)"
    "configured (dv_clock t)" "configured k \<Longrightarrow> dv_clock t = k"
proof -
  have two: "two_valid example_flash" by (simp add: two_valid_def)
  have d: "old_device\<lparr>dv_flash := example_flash, dv_clock := k\<rparr> = old_device\<lparr>dv_clock := k\<rparr>"
    by (simp add: old_device_def)
  show ?thesis by (rule release_main [OF two, of b k]) (use that d in simp)
qed

section \<open>The flash\<close>

text \<open>C6: Nothing that happens in the life of a device (errors at any point of a start, updates, runs and restarts, with
  any firmwares and servers) changes the flash outside the store, the OTA entries and the two slots: the
  bootloader and the partition table are never touched.\<close>

theorem life_keeps_bootloader:
  fixes fws :: "('f, 'y, 'w, 'am, 'cfg, 'i, 'x, 'r, 'h, 'n, 'o, 'dt, 'd, 't, 'bd, 'c) boot_env \<Rightarrow> bool"
  assumes "\<forall>env. fws env \<longrightarrow> safe_firmware view good env" "good (dv_flash s)"
    and "life_reach fws debug_on sol raise ch contents web s l"
    and "\<forall>p. p \<in> {NVS_PARTITION, OTA_DATA_PARTITION, OTA_0_PARTITION, OTA_1_PARTITION} \<longrightarrow> \<not> in_partition p x"
  shows "view (dv_flash (lf_device l)) x = view (dv_flash s) x"
proof -
  have "good (dv_flash (lf_device l)) \<and> view (dv_flash (lf_device l)) x = view (dv_flash s) x"
  proof (rule life_flash [where R = "\<lambda>a b. b x = a x" and fws = fws])
    show "good (dv_flash s)" by (rule assms(2))
    show "life_reach fws debug_on sol raise ch contents web s l" by (rule assms(3))
    show "\<And>env. fws env \<Longrightarrow> safe_firmware view good env" using assms(1) by blast
    fix env d t and r :: "(ntp_client \<times> 'c, ('y, 'n, 'h, 'i, 'x) blind_error) outcome"
    assume start: "fws env" "flash_ok (be_flash env) view good (dv_flash d)" "main_fallible env d = Some (r, t)"
      "view (dv_flash d) x = view (dv_flash s) x"
    have small: "small_chunks (be_http env)" using assms(1) start(1) by (simp add: safe_firmware_def)
    have slots: "\<not> in_partition (slot_partition slot) x" for slot
      using assms(4) by (cases slot) (simp_all add: slot_partition_def)
    show "view (dv_flash t) x = view (dv_flash s) x"
      using main_fallible_confined [OF start(2) small start(3) refl _ slots] entry_sector_ota_data assms(4) start(4) by fastforce
  qed simp
  then show ?thesis by simp
qed

lemma demo_run:
  assumes t: "firmware_main (release_env\<lparr>be_build_date := b\<rparr>) s =
      Some (Running (\<lparr>ntp_socket = (0x7f000001, NTP_PORT)\<rparr>, ()), t)"
    and u: "system_reach reference_time False ready_ntp \<lparr>ntp_socket = (0x7f000001, NTP_PORT)\<rparr> example_sun ()
      half_past_noon list_channel id (\<lambda>_. False) (spawn_net t) u"
  obtains l where "demo_life b s l" "lf_runs l = 1" "lf_position l = travel (ct_driver (sy_controller u))"
proof -
  let ?m = "(life_init s)\<lparr>lf_device := t\<lparr>dv_clock := sy_clock u, dv_update_pending := False\<rparr>,
    lf_position := lf_position (life_init s) + travel (ct_driver (sy_controller u)),
    lf_runs := Suc (lf_runs (life_init s))\<rparr>"
  have "demo_life_step b (life_init s) ?m"
    by (rule run_and_restart [where env = "release_env\<lparr>be_build_date := b\<rparr>"], rule refl, simp add: t) (simp, rule u)
  from restarts [OF installed this] show ?thesis by (rule that) simp_all
qed

theorem life_keeps_bootloader_witness:
  "\<exists>l. demo_life 2023 old_device l \<and> lf_runs l = 1 \<and> dv_flash (lf_device l) 0x8000 = example_flash 0x8000"
proof -
  obtain t where "firmware_main (release_env\<lparr>be_build_date := 2023\<rparr>) old_device =
      Some (Running (\<lparr>ntp_socket = (0x7f000001, NTP_PORT)\<rparr>, ()), t)"
    using release_main_old [of 2023 "dv_clock old_device"] by auto
  then obtain l where l: "demo_life 2023 old_device l" "lf_runs l = 1"
    by (rule demo_run [OF _ spawned [where q = "[]"]]) simp
  have safe: "\<forall>env. env = release_env\<lparr>be_build_date := 2023\<rparr> \<longrightarrow> safe_firmware id (\<lambda>_. True) env"
    using release_env_safe by blast
  have out: "\<forall>p. p \<in> {NVS_PARTITION, OTA_DATA_PARTITION, OTA_0_PARTITION, OTA_1_PARTITION} \<longrightarrow> \<not> in_partition p 0x8000"
    by simp
  from life_keeps_bootloader [OF safe _ l(1) out] have "dv_flash (lf_device l) 0x8000 = example_flash 0x8000"
    by (simp add: old_device_def)
  with l show ?thesis by blast
qed

text \<open>C9: As long as every firmware the device runs is at least as new as the published one, nothing is ever installed: over
  the whole life only the store changes. In particular the update stops once the published firmware runs.\<close>

theorem newest_firmware_keeps_flash:
  fixes fws :: "('f, 'y, 'w, 'am, 'cfg, 'i, 'x, 'r, 'h, 'n, 'o, 'dt, 'd, 't, 'bd, 'c) boot_env \<Rightarrow> bool"
  assumes "\<forall>env. fws env \<longrightarrow> safe_firmware view good env \<and> publishes env v \<and> v \<le> be_build_date env"
    and "good (dv_flash s)" and "life_reach fws debug_on sol raise ch contents web s l"
  shows "nvs_only (view (dv_flash s)) (view (dv_flash (lf_device l)))"
proof -
  have "good (dv_flash (lf_device l)) \<and> nvs_only (view (dv_flash s)) (view (dv_flash (lf_device l)))"
  proof (rule life_flash [where R = nvs_only and fws = fws])
    show "\<And>env. fws env \<Longrightarrow> safe_firmware view good env" using assms(1) by blast
    show "good (dv_flash s)" by (rule assms(2))
    show "life_reach fws debug_on sol raise ch contents web s l" by (rule assms(3))
    fix env d t and r :: "(ntp_client \<times> 'c, ('y, 'n, 'h, 'i, 'x) blind_error) outcome"
    assume start: "fws env" "flash_ok (be_flash env) view good (dv_flash d)" "main_fallible env d = Some (r, t)"
      "nvs_only (view (dv_flash s)) (view (dv_flash d))"
    from start(2,3) show "nvs_only (view (dv_flash s)) (view (dv_flash t))"
    proof (cases rule: main_fallible_flash)
      case no_install
      with start(4) show ?thesis by (simp add: nvs_only_def)
    next
      case (installs f u c c' o' q)
      with publishes_unique [of env v u] assms(1) start(1) show ?thesis by fastforce
    qed
  qed simp
  then show ?thesis by simp
qed

theorem newest_firmware_keeps_flash_witness:
  "\<exists>l. demo_life 2024 old_device l \<and> lf_runs l = 1 \<and> nvs_only example_flash (dv_flash (lf_device l))"
proof -
  obtain t where "firmware_main (release_env\<lparr>be_build_date := 2024\<rparr>) old_device =
      Some (Running (\<lparr>ntp_socket = (0x7f000001, NTP_PORT)\<rparr>, ()), t)"
    using release_main_old [of 2024 "dv_clock old_device"] by auto
  then obtain l where l: "demo_life 2024 old_device l" "lf_runs l = 1"
    by (rule demo_run [OF _ spawned [where q = "[]"]]) simp
  have "publishes (release_env\<lparr>be_build_date := 2024\<rparr>) 2024" using release_publishes by (simp add: publishes_def)
  then have safe: "\<forall>env. env = release_env\<lparr>be_build_date := 2024\<rparr> \<longrightarrow>
      safe_firmware id (\<lambda>_. True) env \<and> publishes env 2024 \<and> 2024 \<le> be_build_date env"
    using release_env_safe by simp
  from newest_firmware_keeps_flash [OF safe _ l(1)] l show ?thesis by (auto simp: old_device_def)
qed

section \<open>The clock\<close>

text \<open>C13: Whatever happened before, the tasks run on a configured clock, and during a run the offset is that of the United Kingdom
  in winter or in summer and can be read; the schedule has stopped waiting only if the clock was synchronised, in this
  run or, through a deep sleep, in an earlier one.\<close>

theorem life_clock_uk:
  assumes "\<forall>env. fws env \<longrightarrow> time_contract (be_time env) \<and> net_contract (be_ntp env)"
    and "life_reach fws debug_on sol raise ch contents web s l" "offset_seconds (dv_clock s) = 0"
    and "fws env" "firmware_main env (lf_device l) = Some (Running (client, coords), t)"
    and "system_reach (be_time env) debug_on (be_ntp env) client sol coords raise ch contents web (spawn_net t) u"
  shows "configured (dv_clock t) \<and> (offset_seconds (sy_clock u) = 0 \<or> offset_seconds (sy_clock u) = 3600) \<and>
    (\<exists>o'. offset (be_time env) (sy_clock u) = Ok o' \<and> whole_seconds (be_time env) o' = offset_seconds (sy_clock u)) \<and>
    (\<not> sy_waiting u \<longrightarrow> ntp_synchronized (sy_clock u)) \<and>
    (ntp_synchronized (dv_clock t) \<longrightarrow> ntp_synchronized (sy_clock u))"
proof -
  have api: "time_contract (be_time env)" "net_contract (be_ntp env)" using assms(1,4) by simp_all
  note run = assms(5) [unfolded firmware_main_Running]
  have "uk_offset (offset_seconds (dv_clock (lf_device l)))"
    using life_offset [OF _ _ assms(2)] assms(1,3) by (simp add: uk_offset_def)
  from life_clock_start [OF api(1) run this] system_reach_clock [OF api assms(6)]
  have uk: "uk_offset (offset_seconds (sy_clock u))" and
    sync: "ntp_synchronized (dv_clock t) \<longrightarrow> ntp_synchronized (sy_clock u)" by (simp_all add: spawn_net_def)
  from uk_offset_read [OF api(1) uk] uk sync waits_for_sync_reach [OF api assms(6)] main_fallible_configured [OF run]
  show ?thesis by (simp add: uk_offset_def waits_for_sync_def)
qed

theorem life_clock_uk_witness:
  "\<exists>t. firmware_main (release_env\<lparr>be_build_date := 2024\<rparr>) old_device =
      Some (Running (\<lparr>ntp_socket = (0x7f000001, NTP_PORT)\<rparr>, ()), t) \<and>
    configured (dv_clock t) \<and> sy_waiting (system_init [] (spawn_net t) :: (step_command list, int \<times> i32, release) system)"
proof -
  let ?e = "release_env\<lparr>be_build_date := 2024\<rparr>"
  obtain t where t: "firmware_main ?e old_device = Some (Running (\<lparr>ntp_socket = (0x7f000001, NTP_PORT)\<rparr>, ()), t)"
    using release_main_old [of 2024 "dv_clock old_device"] by auto
  have api: "\<forall>env. env = ?e \<longrightarrow> time_contract (be_time env) \<and> net_contract (be_ntp env)"
    using reference_time_contract ready_ntp_contract by simp
  have utc: "offset_seconds (dv_clock old_device) = 0" by (simp add: old_device_def clock_config_new_def)
  have t': "firmware_main ?e (lf_device (life_init old_device)) =
      Some (Running (\<lparr>ntp_socket = (0x7f000001, NTP_PORT)\<rparr>, ()), t)" using t by simp
  have u: "system_reach (be_time ?e) False (be_ntp ?e) \<lparr>ntp_socket = (0x7f000001, NTP_PORT)\<rparr> example_sun () half_past_noon
      list_channel id (\<lambda>_. False) (spawn_net t) (system_init [] (spawn_net t))"
    by (rule spawned) simp
  have "configured (dv_clock t)" using life_clock_uk [OF api installed utc refl t' u] by blast
  with t show ?thesis by (auto simp: system_init_def)
qed

section \<open>The position of the blind\<close>

text \<open>C14: Raise and lower commands never take the blind above the position it was installed in, and every run, complete or
  interrupted at any point, takes it at most one blind height further down.\<close>

theorem life_position_bounded:
  assumes "channel_contract ch contents" "\<forall>c. web c \<longrightarrow> c = Raise \<or> c = Lower"
    and "life_reach fws debug_on sol raise ch contents web s l"
    and "system_reach (be_time env) debug_on (be_ntp env) client sol coords raise ch contents web (spawn_net t) u"
  shows "- 8900 * int (lf_runs l) \<le> lf_position l \<and> lf_position l \<le> 0 \<and>
    - 8900 * (int (lf_runs l) + 1) \<le> lf_position l + travel (ct_driver (sy_controller u)) \<and>
    lf_position l + travel (ct_driver (sy_controller u)) \<le> 0"
proof -
  have web: "web c \<Longrightarrow> positioning c" for c using assms(2) by (simp add: positioning_def)
  from life_position [OF assms(1) web assms(3)] run_in_range [OF assms(1) web assms(4)]
  show ?thesis by (simp add: algebra_simps)
qed

text \<open>A device that starts at the time of the example clock, synchronised before, and runs until the blind is down.\<close>

lemma summer_start:
  obtains t where "firmware_main (release_env\<lparr>be_build_date := 2024\<rparr>) (old_device\<lparr>dv_clock := clk (summer_state True)\<rparr>) =
      Some (Running (\<lparr>ntp_socket = (0x7f000001, NTP_PORT)\<rparr>, ()), t)"
    "dv_clock t = clk (summer_state True)" "ntp_synchronized (dv_clock t)"
proof -
  have "configured (clk (summer_state True))"
    by (simp add: summer_state_def summer_clock_def set_time_us_def set_boot_time_us_def Let_def)
  then obtain t where t: "firmware_main (release_env\<lparr>be_build_date := 2024\<rparr>)
      (old_device\<lparr>dv_clock := clk (summer_state True)\<rparr>) =
      Some (Running (\<lparr>ntp_socket = (0x7f000001, NTP_PORT)\<rparr>, ()), t)" "dv_clock t = clk (summer_state True)"
    using release_main_old [of 2024 "clk (summer_state True)"] by metis
  have "ntp_synchronized (dv_clock t)" unfolding t(2) by (rule summer_state_clock(1) [THEN iffD2]) simp
  with t show ?thesis by (rule that)
qed

lemma summer_schedule:
  "schedule_turn reference_time example_sun () half_past_noon (clk (summer_state True)) schedule_init =
    (Ok () :: (unit, (unit, unit, unit, unit, unit) blind_error) outcome,
     \<lparr>sch_sunset = Some (1751397660000000000, 3600), sch_state = Some Lower, sch_send = Some Lower\<rparr>)"
  unfolding summer_state_turn by (rule summer_turn_run)

lemma summer_run:
  obtains t u where "firmware_main (release_env\<lparr>be_build_date := 2024\<rparr>) (old_device\<lparr>dv_clock := clk (summer_state True)\<rparr>) =
      Some (Running (\<lparr>ntp_socket = (0x7f000001, NTP_PORT)\<rparr>, ()), t)"
    "system_reach reference_time False ready_ntp \<lparr>ntp_socket = (0x7f000001, NTP_PORT)\<rparr> example_sun ()
      half_past_noon list_channel id (\<lambda>_. False) (spawn_net t) u"
    "travel (ct_driver (sy_controller u)) = - full_travel"
proof -
  obtain t where t: "firmware_main (release_env\<lparr>be_build_date := 2024\<rparr>)
      (old_device\<lparr>dv_clock := clk (summer_state True)\<rparr>) =
      Some (Running (\<lparr>ntp_socket = (0x7f000001, NTP_PORT)\<rparr>, ()), t)"
    "dv_clock t = clk (summer_state True)" "ntp_synchronized (dv_clock t)" by (rule summer_start)
  have n: "clk (spawn_net t) = dv_clock t" by (simp add: spawn_net_def)
  note turn = summer_schedule [folded t(2), folded n]
  have sync: "ntp_synchronized (clk (spawn_net t))" unfolding n by (rule t(3))
  have q: "id ([] :: step_command list) = []" by simp
  obtain u where u: "system_reach reference_time False ready_ntp \<lparr>ntp_socket = (0x7f000001, NTP_PORT)\<rparr> example_sun ()
      half_past_noon list_channel id (\<lambda>_. False) (spawn_net t) u" "sy_clock u = clk (spawn_net t)"
    "controller_idle id (sy_controller u)" "travel (ct_driver (sy_controller u)) = - full_travel"
    by (rule lowers_when_spawned [where contents = id, OF list_channel_contract q sync turn]) simp
  show ?thesis by (rule that [OF t(1) u(1,4)])
qed

theorem life_position_bounded_witness:
  "\<exists>l. demo_life 2024 (old_device\<lparr>dv_clock := clk (summer_state True)\<rparr>) l \<and> lf_runs l = 1 \<and>
     - 8900 \<le> lf_position l \<and> lf_position l < 0"
proof -
  let ?e = "release_env\<lparr>be_build_date := 2024\<rparr>"
  let ?s = "old_device\<lparr>dv_clock := clk (summer_state True)\<rparr>"
  obtain t u where run: "firmware_main ?e ?s = Some (Running (\<lparr>ntp_socket = (0x7f000001, NTP_PORT)\<rparr>, ()), t)"
    "system_reach reference_time False ready_ntp \<lparr>ntp_socket = (0x7f000001, NTP_PORT)\<rparr> example_sun ()
      half_past_noon list_channel id (\<lambda>_. False) (spawn_net t) u"
    "travel (ct_driver (sy_controller u)) = - full_travel" by (rule summer_run)
  obtain l where l: "demo_life 2024 ?s l" "lf_runs l = 1" "lf_position l = travel (ct_driver (sy_controller u))"
    by (rule demo_run [OF run(1,2)])
  have u: "system_reach (be_time ?e) False (be_ntp ?e) \<lparr>ntp_socket = (0x7f000001, NTP_PORT)\<rparr> example_sun ()
      half_past_noon list_channel id (\<lambda>_. False) (spawn_net t) u" using run(2) by simp
  have quiet: "\<forall>c. False \<longrightarrow> c = Raise \<or> c = Lower" by simp
  from life_position_bounded [OF list_channel_contract quiet l(1) u] l run(3) show ?thesis by auto
qed

text \<open>C37: And a run can do so: take a device that restarts (for the reboot page, or after an error) with its clock synchronised before,
  at a time at which the first turn of the schedule decides to lower, and no web commands. In every run, whenever the last
  decision is to lower and nothing is pending, the blind is one more blind height below where it was when the device
  restarted, wherever that is; some run gets there at the same clock and flash, and restarts again.\<close>

theorem night_restart_lowers_further:
  assumes "channel_contract ch contents" "contents q = []"
    and "fws env" "firmware_main env (lf_device l) = Some (Running (client, coords), t)"
    and "ntp_synchronized (dv_clock t)"
    and "schedule_turn (be_time env) sol coords raise (dv_clock t) schedule_init =
      (Ok () :: (unit, (unit, unit, unit, unit, unit) blind_error) outcome, sch)" "sch_state sch = Some Lower"
  shows "(\<forall>u. system_reach (be_time env) debug_on (be_ntp env) client sol coords raise ch contents (\<lambda>_. False) (spawn_net t) u \<and>
      controller_idle contents (sy_controller u) \<and> sch_state (ct_schedule (sy_controller u)) = Some Lower \<longrightarrow>
      lf_position l + travel (ct_driver (sy_controller u)) = lf_position l - 8900) \<and>
    (\<exists>m. life_step fws debug_on sol raise ch contents (\<lambda>_. False) l m \<and>
      lf_position m = lf_position l - 8900 \<and> lf_runs m = Suc (lf_runs l) \<and>
      dv_clock (lf_device m) = dv_clock t \<and> dv_flash (lf_device m) = dv_flash t)"
proof -
  have n: "clk (spawn_net t) = dv_clock t" by (simp add: spawn_net_def)
  obtain u where u: "system_reach (be_time env) debug_on (be_ntp env) client sol coords raise ch contents (\<lambda>_. False)
      (spawn_net t) u" "sy_clock u = dv_clock t" "travel (ct_driver (sy_controller u)) = - full_travel"
    by (rule lowers_when_spawned [where n = "spawn_net t", unfolded n, OF assms(1,2,5-7)])
  have all: "travel (ct_driver (sy_controller w)) = - full_travel"
    if "system_reach (be_time env) debug_on (be_ntp env) client sol coords raise ch contents (\<lambda>_. False) (spawn_net t) w"
      "controller_idle contents (sy_controller w)" "sch_state (ct_schedule (sy_controller w)) = Some Lower" for w
    using idle_position [OF assms(1) system_reach_refines [OF that(1)] that(2)] that(3) by simp
  have step: "\<exists>m. life_step fws debug_on sol raise ch contents (\<lambda>_. False) l m \<and>
      lf_position m = lf_position l - 8900 \<and> lf_runs m = Suc (lf_runs l) \<and>
      dv_clock (lf_device m) = dv_clock t \<and> dv_flash (lf_device m) = dv_flash t"
    by (intro exI conjI, rule run_and_restart, rule assms(3), rule assms(4), rule u(1)) (simp_all add: u(2,3))
  show ?thesis using all step by simp
qed

theorem night_restart_lowers_further_witness:
  "\<exists>m. demo_life 2024 (old_device\<lparr>dv_clock := clk (summer_state True)\<rparr>) m \<and> lf_position m = - 8900"
proof -
  let ?e = "release_env\<lparr>be_build_date := 2024\<rparr>"
  let ?s = "old_device\<lparr>dv_clock := clk (summer_state True)\<rparr>"
  obtain t where t: "firmware_main ?e ?s = Some (Running (\<lparr>ntp_socket = (0x7f000001, NTP_PORT)\<rparr>, ()), t)"
    "dv_clock t = clk (summer_state True)" "ntp_synchronized (dv_clock t)" by (rule summer_start)
  have t': "firmware_main ?e (lf_device (life_init ?s)) =
      Some (Running (\<lparr>ntp_socket = (0x7f000001, NTP_PORT)\<rparr>, ()), t)" using t(1) by simp
  have turn: "schedule_turn (be_time ?e) example_sun () half_past_noon (dv_clock t) schedule_init =
      (Ok () :: (unit, (unit, unit, unit, unit, unit) blind_error) outcome,
       \<lparr>sch_sunset = Some (1751397660000000000, 3600), sch_state = Some Lower, sch_send = Some Lower\<rparr>)"
    using summer_schedule t(2) by simp
  have q: "id ([] :: step_command list) = []" by simp
  obtain m where "demo_life_step 2024 (life_init ?s) m" "lf_position m = lf_position (life_init ?s) - 8900"
    using night_restart_lowers_further [OF list_channel_contract q _ t' t(3) turn, where fws = "\<lambda>env. env = ?e"] by fastforce
  with restarts [OF installed this(1)] show ?thesis by auto
qed

end
