(* ===== verification/Life_Update.thy ===== *)
theory Life_Update
  imports Life_Properties
begin




section \<open>A commit\<close>




section \<open>A start\<close>



section \<open>A life\<close>










end
