(* ===== verification/Crc.thy ===== *)
theory Crc
  imports Select_Entry
begin

unbundle bit_operations_syntax

text \<open>
  The checksum of the OTA entries. \<open>CRC_ALGO\<close> in src/ota.rs is a set of parameters of the Rocksoft model, of which
  the crate crc (outside the repository) computes the instance; \<open>crc_of\<close> is the published model, bit by bit and
  for the width of 32, and \<open>standard_crc\<close> says that the crate computes it. The check value and the residue play no
  part in a checksum. What the parameters are worth is shown for the sequence numbers the firmware protects.
\<close>

record crc_algorithm =
  alg_width :: nat
  alg_poly :: u32
  alg_init :: u32
  alg_refin :: bool
  alg_refout :: bool
  alg_xorout :: u32
  alg_check :: u32
  alg_residue :: u32

definition CRC_ALGO :: crc_algorithm where
  "CRC_ALGO =
     \<lparr>alg_width = 32, alg_poly = 0x04c11db7, alg_init = 0, alg_refin = True, alg_refout = True,
      alg_xorout = 0xffffffff, alg_check = 0, alg_residue = 0\<rparr>"

section \<open>The Rocksoft model\<close>

text \<open>The register is kept in reflected form: a byte enters at the low end and the register moves right.\<close>

definition reflect :: "nat \<Rightarrow> u32 \<Rightarrow> u32" where
  "reflect n w = fold (\<lambda>i acc. if bit w i then acc + 2 ^ (n - 1 - i) else acc) [0..<n] 0"

definition crc_shift :: "u32 \<Rightarrow> u32 \<Rightarrow> u32" where
  "crc_shift poly r = (if bit r 0 then drop_bit 1 r XOR poly else drop_bit 1 r)"

definition crc_byte :: "u32 \<Rightarrow> u32 \<Rightarrow> u32 \<Rightarrow> u32" where
  "crc_byte poly b r = (crc_shift poly ^^ 8) (r XOR b)"

definition crc_of :: "crc_algorithm \<Rightarrow> u8 list \<Rightarrow> u32" where
  "crc_of a bs =
     (let poly = reflect 32 (alg_poly a);
          r = fold (\<lambda>b. crc_byte poly (if alg_refin a then ucast b else reflect 8 (ucast b))) bs (reflect 32 (alg_init a))
      in (if alg_refout a then r else reflect 32 r) XOR alg_xorout a)"

definition standard_crc :: "(u8 list \<Rightarrow> u32) \<Rightarrow> bool" where
  "standard_crc crcf \<longleftrightarrow> (\<forall>bs. crcf bs = crc_of CRC_ALGO bs)"

lemma reflected_poly: "reflect 32 0x04c11db7 = 0xEDB88320" "reflect 32 0 = 0"
  by code_simp+

section \<open>A shift of the register\<close>

lemma xor_right_cancel: "a XOR p = b XOR p \<longleftrightarrow> a = b" for a b p :: u32
  by (metis xor.assoc xor.right_neutral xor_self_eq)

lemma crc_shift_inj:
  assumes "bit poly 31"
  shows "inj (crc_shift poly)"
proof (rule injI)
  fix x y
  assume eq: "crc_shift poly x = crc_shift poly y"
  have top: "bit (crc_shift poly z) 31 \<longleftrightarrow> bit z 0" for z
    using assms by (simp add: crc_shift_def bit_xor_iff bit_drop_bit_eq) (auto dest: bit_imp_le_length)
  from eq top have low: "bit x 0 \<longleftrightarrow> bit y 0" by metis
  with eq have "drop_bit 1 x = drop_bit 1 y"
    by (auto simp: crc_shift_def xor_right_cancel split: if_splits)
  then have high: "bit x (Suc n) \<longleftrightarrow> bit y (Suc n)" for n
    by (metis bit_drop_bit_eq comp_apply plus_1_eq_Suc)
  show "x = y"
  proof (rule bit_word_eqI)
    fix n
    show "bit x n \<longleftrightarrow> bit y n" using low high by (cases n) simp_all
  qed
qed

text \<open>What is above the lowest bit only moves.\<close>

lemma crc_shift_high:
  assumes "\<not> bit y 31"
  shows "crc_shift poly (x XOR push_bit 1 y) = crc_shift poly x XOR y"
proof -
  have "drop_bit 1 (x XOR push_bit 1 y) = drop_bit 1 x XOR y"
  proof (rule bit_word_eqI)
    fix n :: nat
    assume "n < LENGTH(32)"
    moreover have "bit (push_bit 1 y) (Suc n) \<longleftrightarrow> Suc n < 32 \<and> bit y n" by (subst bit_push_bit_iff) simp
    ultimately show "bit (drop_bit 1 (x XOR push_bit 1 y)) n \<longleftrightarrow> bit (drop_bit 1 x XOR y) n"
      unfolding bit_xor_iff bit_drop_bit_eq comp_apply plus_1_eq_Suc
      using assms by (cases "n = 31") auto
  qed
  then show ?thesis
    unfolding crc_shift_def bit_xor_iff bit_push_bit_iff by (simp add: ac_simps)
qed

lemma crc_shifts_high:
  "(\<forall>i. bit y i \<longrightarrow> i + n < 32) \<Longrightarrow> (crc_shift poly ^^ n) (x XOR push_bit n y) = (crc_shift poly ^^ n) x XOR y"
proof (induction n arbitrary: x y)
  case (Suc n)
  have p: "push_bit (Suc n) y = push_bit 1 (push_bit n y)" by simp
  have top: "\<not> bit (push_bit n y) 31" using Suc.prems by (force simp: bit_push_bit_iff)
  have "(crc_shift poly ^^ Suc n) (x XOR push_bit (Suc n) y) =
      (crc_shift poly ^^ n) (crc_shift poly (x XOR push_bit 1 (push_bit n y)))"
    unfolding p by (simp add: funpow_swap1)
  also have "\<dots> = (crc_shift poly ^^ n) (crc_shift poly x XOR push_bit n y)"
    unfolding crc_shift_high [OF top] ..
  also have "\<dots> = (crc_shift poly ^^ n) (crc_shift poly x) XOR y"
    using Suc.prems by (intro Suc.IH) auto
  finally show ?case by (simp add: funpow_swap1)
qed simp

section \<open>The checksum of a sequence number\<close>

text \<open>Four bytes that enter one after the other do what the word they encode does at once.\<close>

lemma crc_byte_high:
  assumes "\<forall>i. bit y i \<longrightarrow> i + 8 < 32"
  shows "crc_byte poly b (x XOR push_bit 8 y) = crc_byte poly b x XOR y"
proof -
  have "(x XOR push_bit 8 y) XOR b = (x XOR b) XOR push_bit 8 y" by (simp add: ac_simps)
  with crc_shifts_high [OF assms] show ?thesis unfolding crc_byte_def by metis
qed

lemma byte_above:
  fixes y :: u32 and b :: u8
  shows "ucast b OR push_bit 8 y = ucast b XOR push_bit 8 y"
proof (rule bit_word_eqI)
  fix n :: nat
  show "bit (ucast b OR push_bit 8 y) n \<longleftrightarrow> bit (ucast b XOR push_bit 8 y) n"
    using bit_imp_le_length [of b n] by (auto simp: bit_or_iff bit_xor_iff bit_push_bit_iff bit_ucast_iff)
qed

lemma crc_bytes:
  "8 * length bs \<le> 32 \<Longrightarrow> fold (\<lambda>b. crc_byte poly (ucast b)) bs r =
    (crc_shift poly ^^ (8 * length bs)) (r XOR from_le_bytes bs)"
proof (induction bs arbitrary: r)
  case (Cons b bs)
  let ?y = "from_le_bytes bs :: u32"
  have y: "\<forall>i. bit ?y i \<longrightarrow> i + 8 < 32" using bit_from_le_bytes [of bs] Cons.prems by fastforce
  have "fold (\<lambda>b. crc_byte poly (ucast b)) (b # bs) r = (crc_shift poly ^^ (8 * length bs)) (crc_byte poly (ucast b) r XOR ?y)"
    using Cons by simp
  also have "crc_byte poly (ucast b) r XOR ?y = (crc_shift poly ^^ 8) ((r XOR push_bit 8 ?y) XOR ucast b)"
    using crc_byte_high [OF y, of poly "ucast b" r] by (simp add: crc_byte_def)
  also have "(r XOR push_bit 8 ?y) XOR ucast b = r XOR from_le_bytes (b # bs)"
    by (simp add: byte_above ac_simps)
  also have "(crc_shift poly ^^ (8 * length bs)) ((crc_shift poly ^^ 8) (r XOR from_le_bytes (b # bs))) =
      (crc_shift poly ^^ (8 * length (b # bs))) (r XOR from_le_bytes (b # bs))"
  proof -
    have "8 * length (b # bs) = 8 * length bs + 8" by simp
    then show ?thesis by (simp only: funpow_add comp_apply)
  qed
  finally show ?case .
qed simp

lemma standard_checksum:
  assumes "standard_crc crcf"
  shows "calculate_checksum crcf e = (crc_shift 0xEDB88320 ^^ 32) (ota_seq e) XOR 0xffffffff"
proof -
  have "calculate_checksum crcf e = fold (\<lambda>b. crc_byte 0xEDB88320 (ucast b)) (u32_le (ota_seq e)) 0 XOR 0xffffffff"
    using assms by (simp add: standard_crc_def calculate_checksum_def crc_of_def CRC_ALGO_def reflected_poly)
  with crc_bytes [of "u32_le (ota_seq e)" "0xEDB88320" 0] show ?thesis by simp
qed

lemma crc_shift_inj_pow: "(crc_shift 0xEDB88320 ^^ n) x = (crc_shift 0xEDB88320 ^^ n) y \<longleftrightarrow> x = y"
proof -
  have "bit (0xEDB88320 :: u32) 31" by simp
  then show ?thesis
    using inj_fn [OF crc_shift_inj, of "0xEDB88320" n] by (auto dest: injD)
qed

text \<open>C24: With the parameters of the source the checksum of an entry detects every change of its sequence number, and an entry
  of an erased flash, or any other with all bits of the checksum set, is only taken for intact if its sequence number is zero. An entry is
  intact exactly if its checksum is that of its sequence number alone: the label and the state are not protected.\<close>

theorem checksum_protects_sequence:
  assumes "standard_crc crcf"
  shows "(checksum_ok crcf e \<longrightarrow> (checksum_ok crcf (e\<lparr>ota_seq := n\<rparr>) \<longleftrightarrow> n = ota_seq e)) \<and>
    (entry_crc e = 0xffffffff \<longrightarrow> (checksum_ok crcf e \<longleftrightarrow> ota_seq e = 0)) \<and>
    (checksum_ok crcf (e\<lparr>seq_label := label, ota_state := st\<rparr>) \<longleftrightarrow> checksum_ok crcf e)"
proof -
  note sum = standard_checksum [OF assms]
  have "checksum_ok crcf e \<Longrightarrow> checksum_ok crcf (e\<lparr>ota_seq := n\<rparr>) \<longleftrightarrow> n = ota_seq e"
  proof -
    assume "checksum_ok crcf e"
    then have "checksum_ok crcf (e\<lparr>ota_seq := n\<rparr>) \<longleftrightarrow>
        calculate_checksum crcf (e\<lparr>ota_seq := n\<rparr>) = calculate_checksum crcf e"
      by (simp add: checksum_ok_def)
    also have "\<dots> \<longleftrightarrow> n = ota_seq e" unfolding sum xor_right_cancel crc_shift_inj_pow by simp
    finally show ?thesis .
  qed
  moreover have "entry_crc e = 0xffffffff \<Longrightarrow> checksum_ok crcf e \<longleftrightarrow> ota_seq e = 0"
  proof -
    assume erased: "entry_crc e = 0xffffffff"
    have zero: "(crc_shift 0xEDB88320 ^^ k) 0 = 0" for k
      by (induction k) (simp_all add: crc_shift_def)
    have "checksum_ok crcf e \<longleftrightarrow> (crc_shift 0xEDB88320 ^^ 32) (ota_seq e) XOR 0xffffffff = 0 XOR 0xffffffff"
      unfolding checksum_ok_def sum erased by simp
    also have "\<dots> \<longleftrightarrow> (crc_shift 0xEDB88320 ^^ 32) (ota_seq e) = (crc_shift 0xEDB88320 ^^ 32) 0"
      unfolding xor_right_cancel zero ..
    finally show ?thesis unfolding crc_shift_inj_pow .
  qed
  ultimately show ?thesis by (simp add: checksum_ok_def calculate_checksum_def)
qed

text \<open>The checksum of the sequence number one.\<close>

theorem checksum_protects_sequence_witness:
  "checksum_ok (crc_of CRC_ALGO) \<lparr>ota_seq = 1, seq_label = [], ota_state = Valid, entry_crc = 0x4743989A\<rparr> \<and>
   \<not> checksum_ok (crc_of CRC_ALGO) \<lparr>ota_seq = 2, seq_label = [], ota_state = Valid, entry_crc = 0x4743989A\<rparr>"
proof -
  let ?e = "\<lparr>ota_seq = 1, seq_label = [], ota_state = Valid, entry_crc = 0x4743989A\<rparr>"
  have ok: "checksum_ok (crc_of CRC_ALGO) ?e" by code_simp
  have "standard_crc (crc_of CRC_ALGO)" by (simp add: standard_crc_def)
  from checksum_protects_sequence [OF this, of ?e 2] ok show ?thesis by simp
qed

end
