(* ===== verification/Http_Properties.thy ===== *)
theory Http_Properties
  imports Http
begin

text \<open>
  The properties of the HTTP client and of the random number wrapper it seeds TLS with, and
  their instances on a scripted server.
\<close>

section \<open>A scripted server\<close>

text \<open>The server's answers still to be sent, and the chunks of the body still to be read.\<close>

type_synonym script = "response_head list \<times> bytes list"

definition scripted :: "(script, unit) http_ops" where
  "scripted =
     \<lparr>hc_new = (\<lambda>_ w. w),
      hc_request = (\<lambda>_ w. Some (Inr (), w)),
      hc_send = (\<lambda>w. Some (case fst w of [] \<Rightarrow> (Inl (), w) | r # rs \<Rightarrow> (Inr r, (rs, snd w)))),
      hc_read_to_end = (\<lambda>w. Some (Inr (concat (snd w)), (fst w, []))),
      hc_fill_buf = (\<lambda>w. Some (Inr (case snd w of [] \<Rightarrow> [] | b # _ \<Rightarrow> take 16384 b), w)),
      hc_consume = (\<lambda>n w. (fst w, case snd w of [] \<Rightarrow> [] | b # bs \<Rightarrow> if n < length b then drop n b # bs else bs)),
      is_successful = (\<lambda>st. 200 \<le> st \<and> st < 300),
      is_redirection = (\<lambda>st. 300 \<le> st \<and> st < 400)\<rparr>"

lemma scripted_simps [simp]:
  "hc_new scripted seed w = w"
  "hc_request scripted u w = Some (Inr (), w)"
  "hc_send scripted (r # rs, bs) = Some (Inr r, (rs, bs))"
  "hc_read_to_end scripted w = Some (Inr (concat (snd w)), (fst w, []))"
  "is_successful scripted st = (200 \<le> st \<and> st < 300)"
  "is_redirection scripted st = (300 \<le> st \<and> st < 400)"
  by (simp_all add: scripted_def)

lemma scripted_body_fits: "unat cl + 16384 < 2 ^ 32 \<Longrightarrow> body_fits scripted 16384 cl"
  by (auto simp: body_fits_def scripted_def split: list.splits)

definition collect :: "bytes \<Rightarrow> (bytes, unit, unit) action" where
  "collect b c = (Ok (), c @ b)"

definition ok_head :: response_head where
  "ok_head = \<lparr>rs_status = 200, rs_headers = [], rs_content_length = Some 5\<rparr>"

text \<open>The header name is in upper case, and another header comes first.\<close>

definition redirect_head :: "bytes \<Rightarrow> response_head" where
  "redirect_head u =
     \<lparr>rs_status = 302,
      rs_headers = [([0x44], []), ([0x4C, 0x4F, 0x43, 0x41, 0x54, 0x49, 0x4F, 0x4E], u)],
      rs_content_length = None\<rparr>"

definition counter :: "nat random" where "counter r = (of_nat r, Suc r)"

lemma scripted_loop_example:
  "body_loop scripted collect 5 0 (([], [[1, 2], [3]]), []) = Some (Ok (), ([], []), [1, 2, 3])"
proof -
  have "body_step scripted collect 5 0 (([], [[1, 2], [3]]), []) = Some (Ok (Some 2), (([], [[3]]), [1, 2]))"
    "body_step scripted collect 5 2 (([], [[3]]), [1, 2]) = Some (Ok (Some 3), (([], []), [1, 2, 3]))"
    "body_step scripted collect 5 3 (([], []), [1, 2, 3]) = Some (Ok None, (([], []), [1, 2, 3]))"
    by (simp_all add: body_step_def returning_def tryA_def zoom_def map_err_def modify_def ret_def
        collect_def scripted_def)
  then show ?thesis by simp
qed

section \<open>The download\<close>

text \<open>The loop that hands a body to the callback ends whatever the server sends and the
  callback does, as long as the library always fills its buffer, and that and the content length fit the machine word.\<close>

theorem download_ends:
  assumes "body_fits h m content_length" "\<forall>w. hc_fill_buf h w \<noteq> None"
  shows "\<exists>r. body_loop h f content_length 0 s = Some r"
  by (rule body_loop_returns [OF assms]) simp

theorem download_ends_witness:
  "\<exists>r. body_loop scripted collect 20971520 0 (([], [[1, 2], [3]]), []) = Some r"
  by (rule download_ends [of scripted 16384], simp add: scripted_body_fits, simp add: scripted_def)

text \<open>C31: A buffered request that succeeds has followed the redirects from its address to a final response
  and called the callback on every chunk of the body of that response, in order and each of them once; no callback
  failed, and the body is not longer than announced.\<close>

theorem download_delivers:
  assumes "req_buffered h random url f (client, st) = Some (Ok (), client', st')"
  shows "\<exists>content_length w cs. final_response h url (http_stack (http_connect h random client)) content_length w \<and>
    chunk_read h w cs (http_stack client') \<and> callbacks f cs st = (Ok (), st') \<and>
    (\<forall>m. body_fits h m content_length \<longrightarrow> length (concat cs) \<le> unat content_length)"
  using assms
proof (cases rule: req_buffered_delivers)
  case (1 cl w cs)
  then show ?thesis unfolding fst_conv snd_conv by blast
qed

lemma redirect_head_step [simp]:
  "url_ok v \<Longrightarrow> redirect_url scripted (redirect_head v) w = (Ok v, w)"
  by (simp add: redirect_url_def redirect_head_def HEADER_LOCATION_def eq_ignore_ascii_case_def
      ascii_lower_def)

lemma url_ok_small: "url_ok [0x61]" "url_ok [0x62]"
  by (simp_all add: url_ok_def)

lemma buffered_step_examples:
  "buffered_step scripted [0x61] (redirect_head [0x62] # rs, bs) = Some (Ok (Inl [0x62]), (rs, bs))"
  "buffered_step scripted u (ok_head # rs, bs) = Some (Ok (Inr 5), (rs, bs))"
proof -
  have "send_request scripted u (r # rs, bs) = Some (Ok r, (rs, bs))" for u r rs bs
    by (simp add: send_request_def)
  then show "buffered_step scripted [0x61] (redirect_head [0x62] # rs, bs) = Some (Ok (Inl [0x62]), (rs, bs))"
    "buffered_step scripted u (ok_head # rs, bs) = Some (Ok (Inr 5), (rs, bs))"
    using redirect_head_step [OF url_ok_small(2)]
    by (simp_all add: buffered_step_def returning_def tryA_def ret_def) (simp_all add: redirect_head_def ok_head_def ret_def)
qed

lemma buffered_example:
  "req_buffered scripted counter [0x61] collect
     (\<lparr>http_stack = ([redirect_head [0x62], ok_head], [[1, 2], [3]]), http_rng = 0\<rparr>, []) =
   Some (Ok (), \<lparr>http_stack = ([], []), http_rng = 2\<rparr>, [1, 2, 3])"
proof -
  have "next_u64 counter 0 = (0x100000000, 2)"
    using rng.nxt64_words [of counter 0 0 1 1 2] by (simp add: next_u32_def counter_def)
  then show ?thesis
    using url_ok_small
    by (simp add: req_buffered_def to_url_string_run http_connect_def buffered_step_examples scripted_loop_example)
qed

theorem download_delivers_witness:
  "\<exists>w0 n w cs. final_response scripted [0x61] w0 n w \<and> chunk_read scripted w cs ([], []) \<and>
     callbacks collect cs [] = (Ok (), [1, 2, 3])"
proof -
  from download_delivers [OF buffered_example] obtain n w cs where
    "final_response scripted [0x61] (http_stack (http_connect scripted counter
       \<lparr>http_stack = ([redirect_head [0x62], ok_head], [[1, 2], [3]]), http_rng = 0\<rparr>)) n w"
    "chunk_read scripted w cs ([], [])" "callbacks collect cs [] = (Ok (), [1, 2, 3])" by auto
  then show ?thesis by blast
qed

text \<open>No more than the announced content length is ever accepted: a body loop that ends well
  has delivered at most that many bytes.\<close>

theorem download_bounded:
  assumes "body_fits h m content_length"
    "body_loop h f content_length 0 (w, st) = Some (Ok (), w', st')"
  shows "\<exists>cs. chunk_read h w cs w' \<and> callbacks f cs st = (Ok (), st') \<and>
    length (concat cs) \<le> unat content_length"
proof -
  obtain cs where "chunk_read h w cs w'" "callbacks f cs st = (Ok (), st')"
    "0 \<le> content_length \<Longrightarrow> unat (0 :: usize) + length (concat cs) \<le> unat content_length"
    using body_loop_delivers [OF assms(2)] assms(1) by (metis fst_conv snd_conv)
  then show ?thesis by auto
qed

theorem download_bounded_witness:
  "\<exists>cs. chunk_read scripted ([], [[1, 2], [3]]) cs ([], []) \<and>
     callbacks collect cs [] = (Ok (), [1, 2, 3]) \<and> length (concat cs) \<le> 5"
  using download_bounded [OF scripted_body_fits scripted_loop_example] by simp

section \<open>Redirects\<close>

text \<open>C40: A request returns exactly when some finite number of requests, all of which are answered, ends the chain of
  redirects; nothing in the client bounds that chain, so that against a server that redirects every
  valid URL to a valid URL the request never returns.\<close>

theorem redirects_followed_forever:
  "(req_loop h n url w \<noteq> None \<longleftrightarrow> (\<exists>k. req_fuel h n k url w \<noteq> None)) \<and>
   ((\<forall>u w. url_ok u \<longrightarrow> (\<exists>v w'. req_step h n u w = Some (Ok (Inl v), w'))) \<longrightarrow> url_ok url \<longrightarrow>
      req_loop h n url w = None)"
proof (intro conjI impI)
  show returns: "req_loop h n url w \<noteq> None \<longleftrightarrow> (\<exists>k. req_fuel h n k url w \<noteq> None)"
    by (rule req_loop_returns_iff)
  assume "\<forall>u w. url_ok u \<longrightarrow> (\<exists>v w'. req_step h n u w = Some (Ok (Inl v), w'))" "url_ok url"
  then have "req_fuel h n k url w = None" for k by (intro req_fuel_redirects) blast+
  then have "\<not> (\<exists>k. req_fuel h n k url w \<noteq> None)" by simp
  then have "\<not> req_loop h n url w \<noteq> None" unfolding returns .
  then show "req_loop h n url w = None" by (rule notnotD)
qed

text \<open>A server that sends every request back to the same place.\<close>

definition circular :: "(script, unit) http_ops" where
  "circular = scripted\<lparr>hc_send := (\<lambda>w. Some (Inr (redirect_head [0x62]), w))\<rparr>"

lemma circular_step: "req_step circular n u w = Some (Ok (Inl [0x62]), w)"
proof -
  have "redirect_url circular (redirect_head [0x62]) w = redirect_url scripted (redirect_head [0x62]) w"
    by (simp add: redirect_url_def circular_def)
  then show ?thesis
    using redirect_head_step [OF url_ok_small(2)]
    by (simp add: req_step_def send_request_def returning_def tryA_def ret_def circular_def redirect_head_def)
qed

theorem redirects_followed_forever_witness:
  "req_loop circular 20 [0x61] ([], []) = None"
  using redirects_followed_forever [of circular 20 "[0x61]" "([], [])"] circular_step url_ok_small by blast

text \<open>The redirect goes to the first header whose name is \<open>location\<close> in any case, if its
  value is a URL the buffer can hold; a status that is no redirection, and a redirection without such
  a header, are errors that carry the status and leave the network as it is.\<close>

theorem redirect_target:
  assumes "rs_headers resp = pre @ (name, u) # post" "eq_ignore_ascii_case name HEADER_LOCATION"
    "\<forall>(n, v) \<in> set pre. \<not> eq_ignore_ascii_case n HEADER_LOCATION"
  shows "redirect_url h resp w =
    (if \<not> is_redirection h (rs_status resp) then (Err (BadStatus (rs_status resp)), w)
     else if length u > 2048 then (Err UrlTooLong, w)
     else if utf8_valid u then (Ok u, w) else (Err HttpUtf8Error, w)) \<and>
    (is_redirection h (rs_status resp) \<longrightarrow>
      redirect_url h (resp\<lparr>rs_headers := pre\<rparr>) w = (Err RequestMissingLocation, w))"
proof -
  let ?P = "\<lambda>(n, _ :: bytes). eq_ignore_ascii_case n HEADER_LOCATION"
  have none: "List.find ?P pre = None" using assms(3) by (auto simp: find_None_iff)
  then have "List.find ?P (pre @ (name, u) # post) = Some (name, u)"
    using assms(2) by (induction pre) (auto split: if_splits)
  with none assms(1) show ?thesis
    by (simp add: redirect_url_def fail_def to_url_string_cases)
qed

theorem redirect_target_witness:
  "redirect_url scripted (redirect_head [0x62]) ([], []) = (Ok [0x62], ([], []))"
proof -
  have "rs_headers (redirect_head [0x62]) =
      [([0x44], [])] @ ([0x4C, 0x4F, 0x43, 0x41, 0x54, 0x49, 0x4F, 0x4E], [0x62]) # []"
    by (simp add: redirect_head_def)
  from redirect_target [OF this, of scripted "([], [])"] show ?thesis
    by (simp add: eq_ignore_ascii_case_def HEADER_LOCATION_def ascii_lower_def redirect_head_def)
qed

text \<open>A small request never panics, never returns more than the caller has room for, and
  refuses a URL longer than 2048 bytes, or that is not UTF-8, without touching the network or the random source.\<close>

theorem small_request_bounded:
  "(req h random n url c = Some (r, c') \<longrightarrow> r \<noteq> Panic \<and> (\<forall>body. r = Ok body \<longrightarrow> length body \<le> n)) \<and>
   (length url > 2048 \<longrightarrow> req h random n url c = Some (Err UrlTooLong, c)) \<and>
   (length url \<le> 2048 \<and> \<not> utf8_valid url \<longrightarrow> req h random n url c = Some (Err HttpUtf8Error, c))"
proof (intro conjI impI)
  show "length url > 2048 \<Longrightarrow> req h random n url c = Some (Err UrlTooLong, c)"
    "length url \<le> 2048 \<and> \<not> utf8_valid url \<Longrightarrow> req h random n url c = Some (Err HttpUtf8Error, c)"
    by (simp_all add: req_def to_url_string_cases)
  assume "req h random n url c = Some (r, c')"
  then have "r = Err UrlTooLong \<or> r = Err HttpUtf8Error \<or> (\<exists>w w'. req_loop h n url w = Some (r, w'))"
    by (auto simp: req_def to_url_string_cases Let_def split: if_splits)
  then have "r \<noteq> Panic \<and> (\<forall>body. r = Ok body \<longrightarrow> length body \<le> n)"
    by (elim disjE exE) (simp_all add: req_loop_result)
  then show "r \<noteq> Panic" "\<forall>body. r = Ok body \<longrightarrow> length body \<le> n" by simp_all
qed

theorem small_request_bounded_witness:
  "req scripted counter 20 [0xFF] \<lparr>http_stack = ([ok_head], [[1]]), http_rng = 0\<rparr> =
     Some (Err HttpUtf8Error, \<lparr>http_stack = ([ok_head], [[1]]), http_rng = 0\<rparr>)"
  using small_request_bounded [of scripted counter 20 "[0xFF]"] by simp

section \<open>Random numbers\<close>

text \<open>The bytes filled in are the little-endian bytes of the words drawn, one word for every four
  bytes or part of four, and a 64-bit seed is two consecutive words with the first in its lower half.\<close>

theorem random_bytes_are_words:
  "fill_bytes random n r =
     (take n (concat (map u32_le (fst (draws (next_u32 random) ((n + 3) div 4) r)))),
      snd (draws (next_u32 random) ((n + 3) div 4) r)) \<and>
   length (fst (fill_bytes random n r)) = n \<and>
   next_u64 random r =
     (ucast (fst (random r)) OR push_bit 32 (ucast (fst (random (snd (random r))))),
      snd (random (snd (random r))))"
  using fill_bytes_draws [of random n r] rng.fill_length [of random n r]
    rng.nxt64_words [of random r "fst (random r)" "snd (random r)"]
  by (simp add: next_u32_def)

end
