(* ===== verification/Wifi_Properties.thy ===== *)
theory Wifi_Properties
  imports Wifi
begin

text \<open>
  What the WiFi cache guarantees over any number of boots: the relation \<open>wifi_reach\<close> lists the
  states the operations of Wifi can reach from a cold start, with deep sleeps in between, and
  its invariant gives the properties. The connection task and the wait for the connection
  touch different fields of the cache, so that their interleaving at the level of whole turns
  loses nothing.
\<close>

section \<open>What the operations do to the cache\<close>

definition keeps_cache :: "(('w, 'am, 'cfg, 'r) wifi_state, 'a, 'e) process \<Rightarrow> bool" where
  "keeps_cache m \<longleftrightarrow> (\<forall>s r t. m s = Some (r, t) \<longrightarrow> wf_cache t = wf_cache s)"

named_theorems keeps_cache_intros

lemma keeps_cacheD: "keeps_cache m \<Longrightarrow> m s = Some (r, t) \<Longrightarrow> wf_cache t = wf_cache s"
  by (simp add: keeps_cache_def)

lemma keeps_cache_simple [keeps_cache_intros]:
  "keeps_cache (returning (ret a))" "keeps_cache (returning (on_world (modify g)))"
  "keeps_cache (returning (radio m))" "keeps_cache (awaits_radio m')" "keeps_cache (waits w)"
  by (auto simp: keeps_cache_def returning_iff zoom_eq zoomP_iff ret_eq waits_def)

lemma keeps_cache_tryP [keeps_cache_intros]:
  "keeps_cache m \<Longrightarrow> (\<And>a. keeps_cache (k a)) \<Longrightarrow> keeps_cache (tryP m k)"
  unfolding keeps_cache_def by (fastforce simp: tryP_def split: option.splits prod.splits outcome.splits)

lemma keeps_cache_if [keeps_cache_intros]:
  "keeps_cache m \<Longrightarrow> keeps_cache n \<Longrightarrow> keeps_cache (\<lambda>s. if b s then m s else n s)"
  by (simp add: keeps_cache_def)

lemma keeps_cache_started [keeps_cache_intros]:
  "keeps_cache (ensure_started dev)" "keeps_cache (until_restart dev)" "keeps_cache (wait_previous dev)"
  unfolding ensure_started_def until_restart_def wait_previous_def by (intro keeps_cache_intros)+

lemma associate_cache: "associate dev ssid password s = Some (r, t) \<Longrightarrow> wf_cache t = wf_cache s"
proof -
  have "keeps_cache (\<lambda>s. case wf_connect dev (wf_world s) of
       None \<Rightarrow> None
     | Some (Inr _, w) \<Rightarrow> until_restart dev (s\<lparr>wf_world := w\<rparr>)
     | Some (Inl _, w) \<Rightarrow> returning (on_world (modify (wf_delay dev 500000))) (s\<lparr>wf_world := w\<rparr>))"
    unfolding keeps_cache_def
    by (auto split: option.splits prod.splits sum.splits dest: keeps_cacheD [OF keeps_cache_simple(2)]
        keeps_cacheD [OF keeps_cache_started(2)])
  then have "keeps_cache (tryP (returning (radio m)) (\<lambda>_. tryP (ensure_started dev) (\<lambda>_ s.
       case wf_connect dev (wf_world s) of
         None \<Rightarrow> None
       | Some (Inr _, w) \<Rightarrow> until_restart dev (s\<lparr>wf_world := w\<rparr>)
       | Some (Inl _, w) \<Rightarrow> returning (on_world (modify (wf_delay dev 500000))) (s\<lparr>wf_world := w\<rparr>))))" for m
    by (intro keeps_cache_intros)
  then show "associate dev ssid password s = Some (r, t) \<Longrightarrow> wf_cache t = wf_cache s"
    unfolding associate_def by (rule keeps_cacheD)
qed

lemma scan_for_ap_cache:
  assumes "scan_for_ap dev ssid s = Some (r, t)"
  shows "wf_cache t = wf_cache s \<and> r \<noteq> Ok True \<or>
    (\<exists>aps w ap. wf_scan dev ssid (wf_world s) = Some (Inr aps, w) \<and> ap \<in> set aps \<and>
       wf_cache t = remember_ap ap (wf_cache s))"
  using assms unfolding scan_for_ap_def
proof (cases rule: tryP_Some)
  case (stops q)
  with keeps_cacheD [OF keeps_cache_simple(4) stops(1)] show ?thesis by simp
next
  case (continues aps s1)
  then obtain w where w: "wf_scan dev ssid (wf_world s) = Some (Inr aps, w)" "wf_cache s1 = wf_cache s"
    by (auto simp: zoomP_iff awaits_iff)
  show ?thesis
  proof (cases aps)
    case Nil
    with continues(2) have "wf_cache t = wf_cache s1 \<and> r = Ok False"
      by (auto simp: tryP_def returning_def zoom_def modify_def ret_def)
    with w show ?thesis by simp
  next
    case (Cons ap rest)
    let ?stop = "tryP (awaits_radio (wf_stop dev)) (\<lambda>_.
        tryP (returning (on_world (modify (wf_delay dev 100)))) (\<lambda>_. returning (ret True)))"
    have "keeps_cache ?stop" by (intro keeps_cache_intros)
    moreover have "?stop (s1\<lparr>wf_cache := remember_ap ap (wf_cache s1)\<rparr>) = Some (r, t)"
      using continues(2) Cons
      by (simp add: tryP_run(2) [OF returning_eq [OF modify_eq [THEN iffD2, OF conjI [OF refl refl]]]])
    ultimately have "wf_cache t = remember_ap ap (wf_cache s1)" by (auto dest: keeps_cacheD)
    with w Cons show ?thesis by auto
  qed
qed

text \<open>A turn with a cached access point leaves the cache alone; without one it caches what it found.\<close>

lemma connection_turn_cached:
  assumes "last_bssid (wf_cache s) \<noteq> None" "connection_turn dev ssid password s = Some (r, t)"
  shows "wf_cache t = wf_cache s"
  using assms(2) unfolding connection_turn_def
proof (cases rule: tryP_Some)
  case (stops q)
  show ?thesis by (rule keeps_cacheD [OF keeps_cache_started(3) stops(1)])
next
  case (continues a s1)
  from keeps_cacheD [OF keeps_cache_started(3) continues(1)] continues(2) assms(1) show ?thesis
    by (auto dest: associate_cache)
qed

text \<open>The scan of a turn, and what follows it.\<close>

definition scan_and_associate ::
  "('w, 'am, 'cfg, 'i, 'x) wifi_ops \<Rightarrow> bytes \<Rightarrow> bytes \<Rightarrow>
   (('w, 'am, 'cfg, 'r) wifi_state, unit, ('i, 'x) wifi_error) process" where
  "scan_and_associate dev ssid password =
     tryP (scan_for_ap dev ssid) (\<lambda>found. if found then associate dev ssid password else returning (ret ()))"

lemma connection_turn_alt:
  "connection_turn dev ssid password =
     tryP (wait_previous dev) (\<lambda>_ s.
       if last_bssid (wf_cache s) = None then
         tryP (ensure_started dev) (\<lambda>_. tryP (waits (wait_started dev)) (\<lambda>_. scan_and_associate dev ssid password)) s
       else associate dev ssid password s)"
  unfolding connection_turn_def scan_and_associate_def by (rule refl)

lemma scan_and_associate_cache:
  assumes "scan_and_associate dev ssid password s = Some (r, t)"
  shows "wf_cache t = wf_cache s \<or>
    (\<exists>w aps w' ap. wf_scan dev ssid w = Some (Inr aps, w') \<and> ap \<in> set aps \<and> wf_cache t = remember_ap ap (wf_cache s))"
  using assms unfolding scan_and_associate_def
proof (cases rule: tryP_Some)
  case (stops q)
  from scan_for_ap_cache [OF stops(1)] show ?thesis by blast
next
  case (continues found s1)
  then have "wf_cache t = wf_cache s1"
    by (cases found) (auto dest: associate_cache simp: returning_iff ret_eq)
  with scan_for_ap_cache [OF continues(1)] show ?thesis by auto
qed

lemma connection_turn_cache:
  assumes "connection_turn dev ssid password s = Some (r, t)"
  shows "wf_cache t = wf_cache s \<or>
    (\<exists>w aps w' ap. wf_scan dev ssid w = Some (Inr aps, w') \<and> ap \<in> set aps \<and>
       wf_cache t = remember_ap ap (wf_cache s))"
proof (cases "last_bssid (wf_cache s)")
  case (Some b)
  with connection_turn_cached [OF _ assms] show ?thesis by simp
next
  case None
  let ?scan = "tryP (ensure_started dev) (\<lambda>_. tryP (waits (wait_started dev)) (\<lambda>_. scan_and_associate dev ssid password))"
  from assms show ?thesis
    unfolding connection_turn_alt
  proof (cases rule: tryP_Some)
    case (stops q)
    from keeps_cacheD [OF keeps_cache_started(3) stops(1)] show ?thesis by simp
  next
    case (continues a s1)
    then have s1: "wf_cache s1 = wf_cache s" by (blast dest: keeps_cacheD [OF keeps_cache_started(3)])
    with continues(2) None have "?scan s1 = Some (r, t)" by simp
    then show ?thesis
    proof (cases rule: tryP_Some)
      case (stops q)
      from keeps_cacheD [OF keeps_cache_started(1) stops(1)] s1 show ?thesis by simp
    next
      case (continues b s2)
      note s2 = keeps_cacheD [OF keeps_cache_started(1) continues(1)]
      from continues(2) show ?thesis
      proof (cases rule: tryP_Some)
        case (stops q)
        from keeps_cacheD [OF keeps_cache_simple(5) stops(1)] s1 s2 show ?thesis by simp
      next
        case (continues c s3)
        from keeps_cacheD [OF keeps_cache_simple(5) continues(1)] scan_and_associate_cache [OF continues(2)] s1 s2
        show ?thesis by simp
      qed
    qed
  qed
qed

lemma wifi_connect_cache:
  assumes "wifi_connect dev random ssid password s = (r, t)"
  shows "wf_cache t = wf_cache s \<and> (\<forall>c. r \<noteq> Ok c) \<or>
    wf_cache t = forget_other_ssid ssid (wf_cache s) \<and> (\<forall>c. r \<noteq> Ok c) \<or>
    (\<exists>config. choose_net_config (forget_other_ssid ssid (wf_cache s)) = (config, wf_cache t) \<and> r = Ok config)"
  using assms
  by (auto simp: wifi_connect_def tryA_def zoom_def external_def modify_def ret_def Let_def
      split: prod.splits sum.splits if_splits)

section \<open>Reachable states\<close>

datatype boot_phase = Booted | Spawned bytes | Connecting bytes | Ended

inductive wifi_reach ::
  "('w, 'am, 'cfg, 'i, 'x) wifi_ops \<Rightarrow> 'r random \<Rightarrow> ('w, 'am, 'cfg, 'r) wifi_state \<Rightarrow> boot_phase \<Rightarrow> bool"
  for dev random where
  cold_start: "wifi_reach dev random \<lparr>wf_world = w, wf_cache = wifi_cache_new dev, wf_rng = r\<rparr> Booted"
| deep_sleep: "wifi_reach dev random s p \<Longrightarrow> wifi_reach dev random (s\<lparr>wf_world := w\<rparr>) Booted"
| connected: "wifi_reach dev random s Booted \<Longrightarrow> wifi_connect dev random ssid password s = (Ok config, t) \<Longrightarrow>
    wifi_reach dev random t (Spawned ssid)"
| connect_failed: "wifi_reach dev random s Booted \<Longrightarrow> wifi_connect dev random ssid password s = (Err e, t) \<Longrightarrow>
    wifi_reach dev random t Ended"
| task_begins: "wifi_reach dev random s (Spawned ssid) \<Longrightarrow>
    wifi_reach dev random (s\<lparr>wf_cache := connection_init dev ssid (wf_cache s)\<rparr>) (Connecting ssid)"
| turn: "wifi_reach dev random s (Connecting ssid) \<Longrightarrow>
    connection_turn dev ssid password s = Some (Ok u, t) \<Longrightarrow> wifi_reach dev random t (Connecting ssid)"
| turn_failed: "wifi_reach dev random s (Connecting ssid) \<Longrightarrow>
    connection_turn dev ssid password s = Some (Err e, t) \<Longrightarrow> wifi_reach dev random t Ended"
| address: "wifi_reach dev random s p \<Longrightarrow> p \<noteq> Booted \<Longrightarrow> wait_for_connection dev s = Some t \<Longrightarrow>
    wifi_reach dev random t p"

inductive_cases wifi_reachE: "wifi_reach dev random s p"

text \<open>A scan for a network finds access points that serve it.\<close>

definition scan_contract ::
  "('w, 'am, 'cfg, 'i, 'x) wifi_ops \<Rightarrow> (bytes \<Rightarrow> bytes \<Rightarrow> bool) \<Rightarrow> bool" where
  "scan_contract dev serves \<longleftrightarrow>
     (\<forall>ssid w aps w' ap. wf_scan dev ssid w = Some (Inr aps, w') \<longrightarrow> ap \<in> set aps \<longrightarrow> serves ssid (ap_bssid ap))"

definition cache_ok :: "(bytes \<Rightarrow> bytes \<Rightarrow> bool) \<Rightarrow> ('am, 'cfg) wifi_cache \<Rightarrow> boot_phase \<Rightarrow> bool" where
  "cache_ok serves c p \<longleftrightarrow>
     (\<forall>b. last_bssid c = Some b \<longrightarrow> (\<exists>ssid. last_ssid c = Some ssid \<and> serves ssid b)) \<and>
     static_ip_uses c \<le> 10 \<and>
     (case p of
        Spawned ssid \<Rightarrow> last_ssid c = Some ssid \<or> last_bssid c = None
      | Connecting ssid \<Rightarrow> last_ssid c = Some ssid
      | _ \<Rightarrow> True)"

lemma choose_net_config_uses:
  "choose_net_config c = (config, c') \<Longrightarrow> static_ip_uses c \<le> 10 \<Longrightarrow> static_ip_uses c' \<le> 10"
  by (auto simp: choose_net_config_def MAX_STATIC_IP_USES_def inc_le split: option.splits if_splits)


lemma choose_net_config_frame:
  "choose_net_config c = (config, c') \<Longrightarrow>
     last_ssid c' = last_ssid c \<and> last_bssid c' = last_bssid c \<and> last_channel c' = last_channel c \<and>
     last_auth_method c' = last_auth_method c \<and> static_ip_config c' = static_ip_config c"
  by (auto simp: choose_net_config_def split: option.splits if_splits)

lemma cache_ok_forget:
  "cache_ok serves c p \<Longrightarrow> cache_ok serves (forget_other_ssid ssid c) (Spawned ssid)"
  by (auto simp: cache_ok_def forget_other_ssid_def)

lemma cache_ok_ended: "cache_ok serves c p \<Longrightarrow> cache_ok serves c Ended \<and> cache_ok serves c Booted"
  by (auto simp: cache_ok_def)

lemma wifi_reach_ok:
  assumes contract: "scan_contract dev serves"
  shows "wifi_reach dev random s p \<Longrightarrow> cache_ok serves (wf_cache s) p"
proof (induction rule: wifi_reach.induct)
  case (cold_start w r)
  then show ?case by (simp add: cache_ok_def wifi_cache_new_def)
next
  case (deep_sleep s p w)
  then show ?case using cache_ok_ended by auto
next
  case (connected s ssid password config t)
  from wifi_connect_cache [OF connected(2)]
  have "choose_net_config (forget_other_ssid ssid (wf_cache s)) = (config, wf_cache t)" by auto
  from choose_net_config_frame [OF this] choose_net_config_uses [OF this]
    cache_ok_forget [OF connected.IH, of ssid] show ?case
    by (simp add: cache_ok_def)
next
  case (connect_failed s ssid password e t)
  from wifi_connect_cache [OF connect_failed(2)] cache_ok_forget [OF connect_failed.IH, of ssid]
    connect_failed.IH show ?case
    by (auto dest: cache_ok_ended)
next
  case (task_begins s ssid)
  then show ?case
    by (auto simp: cache_ok_def connection_init_def Let_def split: option.splits)
next
  case (turn s ssid password u t)
  from connection_turn_cache [OF turn(2)] contract turn.IH show ?case
    by (fastforce simp: scan_contract_def cache_ok_def remember_ap_def Let_def split: option.splits)
next
  case (turn_failed s ssid password e t)
  from connection_turn_cache [OF turn_failed(2)] contract turn_failed.IH show ?case
    by (fastforce simp: scan_contract_def cache_ok_def remember_ap_def Let_def split: option.splits)
next
  case (address s p t)
  then show ?case
    by (auto simp: wait_for_connection_def cache_ok_def remember_config_def
        split: option.splits if_splits prod.splits boot_phase.splits)
qed

section \<open>An example radio\<close>

text \<open>Every scan finds one access point, whose address starts with the name scanned for; the
  radio is always started, and connecting fails.\<close>

definition example_radio :: "(unit, nat, nat, unit, unit) wifi_ops" where
  "example_radio =
     \<lparr>wf_init = (\<lambda>w. (Inr (), w)),
      wf_new_with_config = (\<lambda>_ w. (Inr (), w)),
      wf_new_with_mode = (\<lambda>w. (Inr (), w)),
      wf_new_stack = (\<lambda>_ _ w. w),
      wf_link_up = (\<lambda>_. True),
      wf_config_v4 = (\<lambda>_. Some 42),
      wf_sta_connected = (\<lambda>_. False),
      wf_is_started = (\<lambda>_. Inr True),
      wf_start = (\<lambda>w. Some (Inr (), w)),
      wf_stop = (\<lambda>w. Some (Inr (), w)),
      wf_scan = (\<lambda>ssid w. Some (Inr [\<lparr>ap_bssid = ssid @ [0], ap_channel = 6, ap_auth_method = None\<rparr>], w)),
      wf_set_configuration = (\<lambda>_ w. (Inr (), w)),
      wf_connect = (\<lambda>w. Some (Inl (), w)),
      wf_wait_disconnected = Some,
      wf_wait_shutdown = Some,
      wf_signal_complete = (\<lambda>w. w),
      wf_wait_restart = (\<lambda>_. None),
      wf_delay = (\<lambda>_ w. w),
      wf_wpa2 = 3\<rparr>"

definition example_serves :: "bytes \<Rightarrow> bytes \<Rightarrow> bool" where
  "example_serves ssid b \<longleftrightarrow> b = ssid @ [0]"

definition example_random :: "unit random" where "example_random r = (7, ())"

lemma example_scan_contract: "scan_contract example_radio example_serves"
  by (auto simp: scan_contract_def example_radio_def example_serves_def)

definition cached_state :: "u32 \<Rightarrow> (unit, nat, nat, unit) wifi_state" where
  "cached_state uses =
     \<lparr>wf_world = (),
      wf_cache = \<lparr>last_ssid = Some [1], last_bssid = Some [1, 0], last_channel = Some 6,
        last_auth_method = 3, static_ip_config = Some 42, static_ip_uses = uses\<rparr>,
      wf_rng = ()\<rparr>"

lemma unit_world [simp]:
  "(wf_world_update f :: (unit, 'am, 'cfg, 'r) wifi_state \<Rightarrow> _) = (\<lambda>s. s)"
proof
  fix s :: "(unit, 'am, 'cfg, 'r) wifi_state"
  show "wf_world_update f s = s" by (cases s) simp
qed

lemma example_radio_simps [simp]:
  "wf_init example_radio w = (Inr (), w)"
  "wf_new_with_config example_radio cc w = (Inr (), w)"
  "wf_new_with_mode example_radio w = (Inr (), w)"
  "wf_sta_connected example_radio w = False"
  "wf_is_started example_radio w = Inr True"
  "wf_stop example_radio w = Some (Inr (), w)"
  "wf_scan example_radio ssid w = Some (Inr [\<lparr>ap_bssid = ssid @ [0], ap_channel = 6, ap_auth_method = None\<rparr>], w)"
  "wf_set_configuration example_radio cc w = (Inr (), w)"
  "wf_connect example_radio w = Some (Inl (), w)"
  by (simp_all add: example_radio_def)

lemma unit_radio [simp]:
  fixes s :: "(unit, 'am, 'cfg, 'r) wifi_state"
  shows "m () = (Inr a, ()) \<Longrightarrow> zoom wf_world (\<lambda>w s. s) (external conv m) s = (Ok a, s)"
    and "zoom wf_world (\<lambda>w s. s) (modify g) s = (Ok (), s)"
    and "m' () = Some (Inr b, ()) \<Longrightarrow> zoomP wf_world (\<lambda>w s. s) (awaits conv m') s = Some (Ok b, s)"
  by (simp_all add: zoom_def external_def modify_def)

lemma on_cache_run: "on_cache g s = (Ok (), s\<lparr>wf_cache := g (wf_cache s)\<rparr>)"
  by (simp add: modify_def)

lemma example_associate: "associate example_radio ssid pw s = Some (Ok (), s)"
  by (simp add: associate_def ensure_started_def)

lemma example_scan:
  "scan_for_ap example_radio [1] s =
     Some (Ok True, s\<lparr>wf_cache := remember_ap \<lparr>ap_bssid = [1, 0], ap_channel = 6, ap_auth_method = None\<rparr> (wf_cache s)\<rparr>)"
  by (simp add: scan_for_ap_def on_cache_run)

lemma example_turn:
  "connection_turn example_radio [1] pw s =
     Some (Ok (), if last_bssid (wf_cache s) = None
       then s\<lparr>wf_cache := remember_ap \<lparr>ap_bssid = [1, 0], ap_channel = 6, ap_auth_method = None\<rparr> (wf_cache s)\<rparr>
       else s)"
proof -
  have "wait_started example_radio w = Some w" for w
    by (subst wait_started.simps) simp
  then show ?thesis
    by (simp add: connection_turn_def wait_previous_def ensure_started_def waits_def example_scan
        example_associate)
qed

lemma example_seed: "next_u64 example_random () = (0x700000007, ())"
  using rng.nxt64_words [of example_random "()" 7 "()" 7 "()"] by (simp add: next_u32_def example_random_def)

lemma example_connect:
  assumes "choose_net_config (forget_other_ssid ssid (wf_cache s)) = (config, c)"
  shows "wifi_connect example_radio example_random ssid pw s = (Ok config, s\<lparr>wf_cache := c\<rparr>)"
proof -
  have s: "s\<lparr>wf_rng := ()\<rparr> = s" by (cases s) simp
  show ?thesis
    using assms by (simp add: wifi_connect_def example_seed s tryA_def on_cache_run ret_def)
qed

definition cold_state :: "(unit, nat, nat, unit) wifi_state" where
  "cold_state = \<lparr>wf_world = (), wf_cache = wifi_cache_new example_radio, wf_rng = ()\<rparr>"

lemma cold_reach: "wifi_reach example_radio example_random cold_state Booted"
  unfolding cold_state_def by (rule cold_start)

lemma cold_connect: "wifi_connect example_radio example_random [1] [2] cold_state = (Ok Dhcp, cold_state)"
proof -
  have "choose_net_config (forget_other_ssid [1] (wf_cache cold_state)) = (Dhcp, wf_cache cold_state)"
    by (simp add: choose_net_config_def forget_other_ssid_def cold_state_def wifi_cache_new_def)
  from example_connect [OF this] show ?thesis by simp
qed

section \<open>Properties\<close>

text \<open>The configurations for a network that name no access point, or one that serves the network.\<close>

definition fitting_config :: "(bytes \<Rightarrow> bytes \<Rightarrow> bool) \<Rightarrow> bytes \<Rightarrow> bytes \<Rightarrow> 'am client_config \<Rightarrow> bool" where
  "fitting_config serves ssid password cc \<longleftrightarrow>
     cc_ssid cc = ssid \<and> cc_password cc = password \<and> (case cc_bssid cc of None \<Rightarrow> True | Some b \<Rightarrow> serves ssid b)"

lemma fitting_cached:
  "cache_ok serves c p \<Longrightarrow> last_ssid c = Some ssid \<or> last_bssid c = None \<Longrightarrow>
     fitting_config serves ssid password (cached_config ssid password c)"
  by (auto simp: fitting_config_def cached_config_def cache_ok_def split: option.split)

lemma wait_started_cong:
  fixes d d' :: "('w, 'am, 'cfg, 'i, 'x) wifi_ops"
  assumes "wf_is_started d = wf_is_started d'" "wf_delay d = wf_delay d'"
  shows "wait_started d = wait_started d'"
proof -
  have le: "wait_started e w = Some v \<Longrightarrow> wf_is_started e = wf_is_started e' \<Longrightarrow> wf_delay e = wf_delay e' \<Longrightarrow>
      wait_started e' w = Some v" for e e' :: "('w, 'am, 'cfg, 'i, 'x) wifi_ops" and w v
  proof (induction rule: wait_started.raw_induct [rotated, consumes 1, case_names step])
    case (step loop e w v)
    then show ?case by (subst wait_started.simps) (auto split: if_splits)
  qed
  show ?thesis
  proof
    fix w
    show "wait_started d w = wait_started d' w"
      using le [of d w _ d'] le [of d' w _ d] assms by (metis not_None_eq)
  qed
qed

lemma set_configuration_fields:
  "wf_delay (dev\<lparr>wf_set_configuration := g\<rparr>) = wf_delay dev" "wf_stop (dev\<lparr>wf_set_configuration := g\<rparr>) = wf_stop dev"
  "wf_scan (dev\<lparr>wf_set_configuration := g\<rparr>) = wf_scan dev" "wf_start (dev\<lparr>wf_set_configuration := g\<rparr>) = wf_start dev"
  "wf_is_started (dev\<lparr>wf_set_configuration := g\<rparr>) = wf_is_started dev"
  "wf_wait_shutdown (dev\<lparr>wf_set_configuration := g\<rparr>) = wf_wait_shutdown dev"
  "wf_wait_restart (dev\<lparr>wf_set_configuration := g\<rparr>) = wf_wait_restart dev"
  "wf_signal_complete (dev\<lparr>wf_set_configuration := g\<rparr>) = wf_signal_complete dev"
  by simp_all

lemma set_configuration_frame:
  "wait_previous (dev\<lparr>wf_set_configuration := g\<rparr>) = wait_previous dev"
  "ensure_started (dev\<lparr>wf_set_configuration := g\<rparr>) = ensure_started dev"
  "wait_started (dev\<lparr>wf_set_configuration := g\<rparr>) = wait_started dev"
  "scan_for_ap (dev\<lparr>wf_set_configuration := g\<rparr>) name = scan_for_ap dev name"
  "until_restart (dev\<lparr>wf_set_configuration := g\<rparr>) = until_restart dev"
  by (simp_all add: fun_eq_iff wait_previous_def ensure_started_def
      wait_started_cong [of "dev\<lparr>wf_set_configuration := g\<rparr>" dev])
    (simp_all only: scan_for_ap_def until_restart_def set_configuration_fields simp_thms)

lemma connect_only_fitting:
  assumes "cache_ok serves (wf_cache s) p"
    and "\<forall>cc w. fitting_config serves ssid password cc \<longrightarrow> f cc w = wf_new_with_config dev cc w"
  shows "wifi_connect (dev\<lparr>wf_new_with_config := f\<rparr>) random ssid password s = wifi_connect dev random ssid password s"
proof -
  have "fitting_config serves ssid password (cached_config ssid password (forget_other_ssid ssid (wf_cache s)))"
    by (rule fitting_cached [OF cache_ok_forget [OF assms(1)]]) (simp add: forget_other_ssid_def)
  with assms(2) have "f (cached_config ssid password (forget_other_ssid ssid (wf_cache s))) w =
      wf_new_with_config dev (cached_config ssid password (forget_other_ssid ssid (wf_cache s))) w" for w by blast
  then show ?thesis
    by (auto simp: wifi_connect_def tryA_def zoom_def external_def modify_def split: prod.split sum.split)
qed

lemma associate_only_fitting:
  assumes "fitting_config serves ssid password (cached_config ssid password (wf_cache s))"
    and "\<forall>cc w. fitting_config serves ssid password cc \<longrightarrow> g cc w = wf_set_configuration dev cc w"
  shows "associate (dev\<lparr>wf_set_configuration := g\<rparr>) ssid password s = associate dev ssid password s"
proof -
  have "g (cached_config ssid password (wf_cache s)) = wf_set_configuration dev (cached_config ssid password (wf_cache s))"
    using assms by (simp add: fun_eq_iff)
  then show ?thesis unfolding associate_def set_configuration_frame set_configuration_fields by simp
qed

lemma scan_only_fitting:
  assumes "scan_contract dev serves" "last_ssid (wf_cache s) = Some ssid"
    and "\<forall>cc w. fitting_config serves ssid password cc \<longrightarrow> g cc w = wf_set_configuration dev cc w"
  shows "scan_and_associate (dev\<lparr>wf_set_configuration := g\<rparr>) ssid password s = scan_and_associate dev ssid password s"
  unfolding scan_and_associate_def set_configuration_frame
proof (rule tryP_cong [OF refl])
  fix found t
  assume scan: "scan_for_ap dev ssid s = Some (Ok found, t)"
  show "(if found then associate (dev\<lparr>wf_set_configuration := g\<rparr>) ssid password else returning (ret ())) t =
      (if found then associate dev ssid password else returning (ret ())) t"
  proof (cases found)
    case True
    with scan_for_ap_cache [OF scan] obtain aps w ap where
      "wf_scan dev ssid (wf_world s) = Some (Inr aps, w)" "ap \<in> set aps" "wf_cache t = remember_ap ap (wf_cache s)"
      by auto
    with assms(1) have "fitting_config serves ssid password (cached_config ssid password (wf_cache t))"
      unfolding scan_contract_def fitting_config_def
      by (fastforce simp: cached_config_def remember_ap_def Let_def split: option.split)
    from associate_only_fitting [OF this assms(3)] True show ?thesis by simp
  qed simp
qed

lemma turn_only_fitting:
  assumes "scan_contract dev serves" "cache_ok serves (wf_cache s) (Connecting ssid)"
    and "\<forall>cc w. fitting_config serves ssid password cc \<longrightarrow> g cc w = wf_set_configuration dev cc w"
  shows "connection_turn (dev\<lparr>wf_set_configuration := g\<rparr>) ssid password s = connection_turn dev ssid password s"
  unfolding connection_turn_alt set_configuration_frame
proof (rule tryP_cong [OF refl])
  fix a :: unit and s1
  let ?dev = "dev\<lparr>wf_set_configuration := g\<rparr>"
  let ?scan = "\<lambda>dev'. tryP (ensure_started dev) (\<lambda>_. tryP (waits (wait_started dev)) (\<lambda>_. scan_and_associate dev' ssid password))"
  assume "wait_previous dev s = Some (Ok a, s1)"
  then have s1: "wf_cache s1 = wf_cache s" by (rule keeps_cacheD [OF keeps_cache_started(3)])
  have name: "last_ssid (wf_cache s) = Some ssid" using assms(2) by (simp add: cache_ok_def)
  have "?scan ?dev s1 = ?scan dev s1"
  proof (rule tryP_cong [OF refl], rule tryP_cong [OF refl])
    fix b :: unit and s2 and c :: unit and s3
    assume "ensure_started dev s1 = Some (Ok b, s2)" "waits (wait_started dev) s2 =
      Some (Ok c :: (unit, ('d, 'e) wifi_error) outcome, s3)"
    with s1 name have "last_ssid (wf_cache s3) = Some ssid"
      by (auto dest!: keeps_cacheD [OF keeps_cache_started(1)] keeps_cacheD [OF keeps_cache_simple(5)])
    from scan_only_fitting [OF assms(1) this assms(3)]
    show "scan_and_associate ?dev ssid password s3 = scan_and_associate dev ssid password s3" .
  qed
  moreover have "fitting_config serves ssid password (cached_config ssid password (wf_cache s1))"
    unfolding s1 by (rule fitting_cached [OF assms(2)]) (simp add: name)
  note associate_only_fitting [OF this assms(3)]
  ultimately show "(if last_bssid (wf_cache s1) = None then ?scan ?dev s1 else associate ?dev ssid password s1) =
      (if last_bssid (wf_cache s1) = None then ?scan dev s1 else associate dev ssid password s1)" by simp
qed

text \<open>C25: Over any number of boots, deep sleeps, networks and connection attempts, the access point
  cached in retained memory is only ever used for the network it was found for: \<open>connect\<close> hands the driver, and a turn of the
  connection task sets, only configurations for the network that is to be joined, with its password, which name no access point
  or one a scan for that very network found. So what the driver would do with any other configuration makes no difference.\<close>

theorem cached_ap_serves_network:
  assumes "scan_contract dev serves" "wifi_reach dev random s phase"
    and "\<forall>cc w. fitting_config serves ssid password cc \<longrightarrow>
      f cc w = wf_new_with_config dev cc w \<and> g cc w = wf_set_configuration dev cc w"
  shows "wifi_connect (dev\<lparr>wf_new_with_config := f\<rparr>) random ssid password s = wifi_connect dev random ssid password s \<and>
    (phase = Connecting ssid \<longrightarrow>
      connection_turn (dev\<lparr>wf_set_configuration := g\<rparr>) ssid password s = connection_turn dev ssid password s)"
  using connect_only_fitting [OF wifi_reach_ok [OF assms(1,2)]] turn_only_fitting [OF assms(1)] wifi_reach_ok [OF assms(1,2)] assms(3)
  by blast

text \<open>Two boots with a sleep between them: the access point found in the first is cached.\<close>

lemma example_reach: "\<exists>s. wifi_reach example_radio example_random s Booted \<and>
    last_ssid (wf_cache s) = Some [1] \<and> last_bssid (wf_cache s) = Some [1, 0]"
proof -
  have "wifi_reach example_radio example_random cold_state (Spawned [1])"
    by (rule connected [OF cold_reach cold_connect])
  from deep_sleep [OF turn [OF task_begins [OF this] example_turn [of "[2]"]], of "()"] show ?thesis
    by (intro exI conjI)
      (assumption, simp_all add: connection_init_def cold_state_def wifi_cache_new_def remember_ap_def)
qed

theorem cached_ap_serves_network_witness:
  "\<exists>s. wifi_reach example_radio example_random s Booted \<and> last_bssid (wf_cache s) = Some [1, 0] \<and>
     wifi_connect (example_radio\<lparr>wf_new_with_config :=
         (\<lambda>cc w. if fitting_config example_serves [3] [2] cc then (Inr (), w) else (Inl (), w))\<rparr>) example_random [3] [2] s =
       wifi_connect example_radio example_random [3] [2] s"
proof -
  obtain s where s: "wifi_reach example_radio example_random s Booted" "last_bssid (wf_cache s) = Some [1, 0]"
    using example_reach by blast
  let ?f = "\<lambda>cc w. if fitting_config example_serves [3] [2] cc then (Inr (), w) else (Inl (), w)"
  have "\<forall>cc w. fitting_config example_serves [3] [2] cc \<longrightarrow>
      ?f cc w = wf_new_with_config example_radio cc w \<and>
      wf_set_configuration example_radio cc w = wf_set_configuration example_radio cc w" by simp
  from cached_ap_serves_network [OF example_scan_contract s(1) this] s show ?thesis by blast
qed

text \<open>The connection task never scans again once an access point is cached: whatever the driver
  answers, a turn leaves the cache as it is, and it does what it would do with any other scan.\<close>

theorem cached_ap_never_rescanned:
  assumes "last_bssid (wf_cache s) = Some b"
  shows "connection_turn (dev\<lparr>wf_scan := other_scan\<rparr>) ssid password s = connection_turn dev ssid password s \<and>
    (\<forall>r t. connection_turn dev ssid password s = Some (r, t) \<longrightarrow> last_bssid (wf_cache t) = Some b)"
proof (intro conjI allI impI)
  let ?dev = "dev\<lparr>wf_scan := other_scan\<rparr>"
  have other: "until_restart ?dev = until_restart dev" "ensure_started ?dev = ensure_started dev"
    "wait_previous ?dev = wait_previous dev" "wf_delay ?dev = wf_delay dev"
    by (simp_all add: fun_eq_iff ensure_started_def until_restart_def wait_previous_def)
  have associate: "associate ?dev ssid password s1 = associate dev ssid password s1" for s1
    unfolding associate_def other by simp
  show "connection_turn ?dev ssid password s = connection_turn dev ssid password s"
    unfolding connection_turn_alt other
    by (rule tryP_cong [OF refl])
      (use assms keeps_cacheD [OF keeps_cache_started(3)] associate in fastforce)
  fix r t assume "connection_turn dev ssid password s = Some (r, t)"
  with connection_turn_cached [of s] assms show "last_bssid (wf_cache t) = Some b" by force
qed

theorem cached_ap_never_rescanned_witness:
  "connection_turn example_radio [1] [2] (cached_state 10) = Some (Ok (), cached_state 10) \<and>
   connection_turn (example_radio\<lparr>wf_scan := (\<lambda>_ w. Some (Inr [], w))\<rparr>) [1] [2] (cached_state 10) =
     Some (Ok (), cached_state 10)"
  using cached_ap_never_rescanned 
      [where s = "cached_state 10" and b = "[1, 0]" and dev = example_radio
        and other_scan = "\<lambda>_ w. Some (Inr [], w)" and ssid = "[1]" and password = "[2]"]
    example_turn [of "[2]" "cached_state 10"] by (simp add: cached_state_def)



text \<open>After its tenth use a cached address is neither used nor replaced any more. Every later boot
  asks DHCP, and the address DHCP then gives is not cached, until the retained memory is lost.\<close>

theorem exhausted_address_never_refreshed:
  assumes "static_ip_config (wf_cache s) = Some ip" "static_ip_uses (wf_cache s) = 10"
    "wifi_connect dev random ssid password s = (Ok config, t)"
  shows "config = Dhcp \<and> static_ip_config (wf_cache t) = Some ip \<and> static_ip_uses (wf_cache t) = 10 \<and>
    (\<forall>u. wait_for_connection dev t = Some u \<longrightarrow> wf_cache u = wf_cache t)"
proof -
  let ?c = "forget_other_ssid ssid (wf_cache s)"
  have same: "static_ip_uses ?c = static_ip_uses (wf_cache s)" "static_ip_config ?c = static_ip_config (wf_cache s)"
    by (simp_all add: forget_other_ssid_def)
  from wifi_connect_cache [OF assms(3)] have "choose_net_config ?c = (config, wf_cache t)" by auto
  then have "config = Dhcp" and cache: "wf_cache t = forget_other_ssid ssid (wf_cache s)"
    using assms(1,2) by (auto simp: choose_net_config_def same MAX_STATIC_IP_USES_def)
  then have t: "config = Dhcp" "static_ip_config (wf_cache t) = Some ip" "static_ip_uses (wf_cache t) = 10"
    using assms(1,2) by (simp_all add: forget_other_ssid_def)
  then show ?thesis
    by (auto simp: wait_for_connection_def remember_config_def split: option.splits prod.splits)
qed

theorem exhausted_address_never_refreshed_witness:
  "wifi_connect example_radio example_random [1] [2] (cached_state 10) = (Ok Dhcp, cached_state 10) \<and>
     (\<exists>u. wait_for_connection example_radio (cached_state 10) = Some u \<and>
        wf_cache u = wf_cache (cached_state 10))"
proof -
  have "choose_net_config (forget_other_ssid [1] (wf_cache (cached_state 10))) = (Dhcp, wf_cache (cached_state 10))"
    by (simp add: choose_net_config_def forget_other_ssid_def cached_state_def MAX_STATIC_IP_USES_def)
  from example_connect [OF this]
  have run: "wifi_connect example_radio example_random [1] [2] (cached_state 10) = (Ok Dhcp, cached_state 10)" by simp
  have "wait_link_up example_radio w = Some w" for w
    by (subst wait_link_up.simps) (simp add: example_radio_def)
  moreover have "wait_config_v4 example_radio w = Some (42, w)" for w
    by (subst wait_config_v4.simps) (simp add: example_radio_def)
  ultimately obtain u where u: "wait_for_connection example_radio (cached_state 10) = Some u"
    by (simp add: wait_for_connection_def)
  have "wf_cache u = wf_cache (cached_state 10)"
    using exhausted_address_never_refreshed [OF _ _ run, of 42] u by (simp add: cached_state_def)
  with run u show ?thesis by blast
qed

end
