(* ===== verification/Connection_Task.thy ===== *)
theory Connection_Task
  imports Wifi_Properties
begin

text \<open>
  The connection task of src/wifi.rs: \<open>connection_fallible\<close> is a loop without an exit, left by \<open>?\<close> only,
  and \<open>connection\<close> logs the error it is left with and ends. \<open>None\<close> is a task that goes on for ever.
  The result of the loop has the type \<open>Result<!, WifiError>\<close>; here its type of values is any.
\<close>

partial_function (option) connection_loop ::
  "('w, 'am, 'cfg, 'i, 'x) wifi_ops \<Rightarrow> bytes \<Rightarrow> bytes \<Rightarrow> ('w, 'am, 'cfg, 'r) wifi_state \<Rightarrow>
   (('never, ('i, 'x) wifi_error) outcome \<times> ('w, 'am, 'cfg, 'r) wifi_state) option" where
  "connection_loop dev ssid password s =
     (case connection_turn dev ssid password s of
        None \<Rightarrow> None
      | Some (r, t) \<Rightarrow>
          (case r of
             Ok _ \<Rightarrow> connection_loop dev ssid password t
           | Err e \<Rightarrow> Some (Err e, t)
           | Panic \<Rightarrow> Some (Panic, t)))"

definition connection_fallible ::
  "('w, 'am, 'cfg, 'i, 'x) wifi_ops \<Rightarrow> bytes \<Rightarrow> bytes \<Rightarrow> ('w, 'am, 'cfg, 'r) wifi_state \<Rightarrow>
   (('never, ('i, 'x) wifi_error) outcome \<times> ('w, 'am, 'cfg, 'r) wifi_state) option" where
  "connection_fallible dev ssid password s =
     connection_loop dev ssid password (s\<lparr>wf_cache := connection_init dev ssid (wf_cache s)\<rparr>)"

text \<open>What the task logs before it ends: the error it trapped. A panic is not trapped.\<close>

definition connection ::
  "('w, 'am, 'cfg, 'i, 'x) wifi_ops \<Rightarrow> bytes \<Rightarrow> bytes \<Rightarrow> ('w, 'am, 'cfg, 'r) wifi_state \<Rightarrow>
   ((('i, 'x) wifi_error, unit) outcome \<times> ('w, 'am, 'cfg, 'r) wifi_state) option" where
  "connection dev ssid password s =
     map_option (\<lambda>(r, t).
       (case (r :: (unit, ('i, 'x) wifi_error) outcome) of
          Ok never \<Rightarrow> Panic
        | Err error \<Rightarrow> Ok error
        | Panic \<Rightarrow> Panic, t)) (connection_fallible dev ssid password s)"

section \<open>The errors of a turn\<close>

text \<open>
  A call of the driver that the task makes with \<open>?\<close> and that reports the error \<open>x\<close>, leaving the world \<open>w'\<close>. The attempt to
  connect is not among them.
\<close>

definition call_failed ::
  "('w, 'am, 'cfg, 'i, 'x) wifi_ops \<Rightarrow> bytes \<Rightarrow> 'x \<Rightarrow> 'w \<Rightarrow> bool" where
  "call_failed dev ssid x w' \<longleftrightarrow>
     (\<exists>w. wf_start dev w = Some (Inl x, w') \<or> wf_stop dev w = Some (Inl x, w') \<or>
       wf_scan dev ssid w = Some (Inl x, w') \<or> (\<exists>cc. wf_set_configuration dev cc w = (Inl x, w')))"

text \<open>Processes that do not panic, and fail only with an error of the driver for which \<open>F\<close> holds where it leaves the world.\<close>

fun driver_outcome :: "('x \<Rightarrow> 'w \<Rightarrow> bool) \<Rightarrow> 'w \<Rightarrow> ('a, ('i, 'x) wifi_error) outcome \<Rightarrow> bool" where
  "driver_outcome F w (Ok a) = True"
| "driver_outcome F w (Err (WifiDriver x)) = F x w"
| "driver_outcome F w (Err (WifiInitialization i)) = False"
| "driver_outcome F w Panic = False"

definition fails_as ::
  "('x \<Rightarrow> 'w \<Rightarrow> bool) \<Rightarrow> (('w, 'am, 'cfg, 'r) wifi_state, 'a, ('i, 'x) wifi_error) process \<Rightarrow> bool" where
  "fails_as F m \<longleftrightarrow> (\<forall>s r t. m s = Some (r, t) \<longrightarrow> driver_outcome F (wf_world t) r)"

named_theorems fails_as_intros

lemma fails_asD: "fails_as F m \<Longrightarrow> m s = Some (r, t) \<Longrightarrow> driver_outcome F (wf_world t) r"
  by (simp add: fails_as_def)

lemma fails_as_simple [fails_as_intros]:
  "fails_as F (returning (ret a))" "fails_as F (returning (on_world (modify g)))" "fails_as F (returning (on_cache h))"
  "fails_as F (waits v)"
  by (auto simp: fails_as_def returning_iff zoom_eq modify_eq ret_eq waits_def)

lemma fails_as_calls [fails_as_intros]:
  "fails_as (call_failed dev ssid) (awaits_radio (wf_start dev))"
  "fails_as (call_failed dev ssid) (awaits_radio (wf_stop dev))"
  "fails_as (call_failed dev ssid) (awaits_radio (wf_scan dev ssid))"
  "fails_as (call_failed dev ssid) (returning (radio (wf_set_configuration dev cc)))"
  by (auto simp: fails_as_def zoomP_iff awaits_def returning_iff zoom_def external_def call_failed_def
      split: option.splits prod.splits sum.splits; blast)+

lemma fails_as_tryP [fails_as_intros]:
  assumes "fails_as F m" "\<And>a. fails_as F (k a)"
  shows "fails_as F (tryP m k)"
  unfolding fails_as_def
proof (intro allI impI)
  fix s r t
  assume "tryP m k s = Some (r, t)"
  then show "driver_outcome F (wf_world t) r"
  proof (cases rule: tryP_Some)
    case (stops q)
    note q = fails_asD [OF assms(1) stops(1)]
    then obtain e where e: "q = Err e" using stops(2) by (cases q) auto
    with stops(4) have "r = Err e" by blast
    with q e show ?thesis by (cases e) simp_all
  next
    case (continues a u)
    show ?thesis by (rule fails_asD [OF assms(2) continues(2)])
  qed
qed

lemma fails_as_if [fails_as_intros]:
  "fails_as F m \<Longrightarrow> fails_as F n \<Longrightarrow> fails_as F (\<lambda>s. if b s then m s else n s)"
  "fails_as F m \<Longrightarrow> fails_as F n \<Longrightarrow> fails_as F (if c then m else n)"
  by (simp_all add: fails_as_def)

lemma fails_as_started [fails_as_intros]:
  "fails_as (call_failed dev ssid) (ensure_started dev)" "fails_as (call_failed dev ssid) (until_restart dev)"
  "fails_as (call_failed dev ssid) (wait_previous dev)"
  unfolding ensure_started_def until_restart_def wait_previous_def by (intro fails_as_intros)+

lemma fails_as_scan [fails_as_intros]: "fails_as (call_failed dev ssid) (scan_for_ap dev ssid)"
  unfolding scan_for_ap_def
proof (intro fails_as_intros)
  fix aps :: "'c access_point list"
  show "fails_as (call_failed dev ssid) (case aps of
         ap # _ \<Rightarrow>
           tryP (returning (on_cache (remember_ap ap))) (\<lambda>_.
           tryP (awaits_radio (wf_stop dev)) (\<lambda>_.
           tryP (returning (on_world (modify (wf_delay dev 100)))) (\<lambda>_. returning (ret True))))
       | [] \<Rightarrow> tryP (returning (on_world (modify (wf_delay dev 100)))) (\<lambda>_. returning (ret False)))"
    by (cases aps) (simp_all, (intro fails_as_intros)+)
qed

text \<open>Connecting: an error of the driver is only waited for.\<close>

lemma fails_as_connect [fails_as_intros]:
  assumes "fails_as F m" "fails_as F n"
  shows "fails_as F (\<lambda>s. case f s of None \<Rightarrow> None | Some (Inl a, w) \<Rightarrow> m (g w s) | Some (Inr b, w) \<Rightarrow> n (h w s))"
  using assms by (auto simp: fails_as_def split: option.split prod.split sum.split)

lemma fails_as_associate [fails_as_intros]: "fails_as (call_failed dev ssid) (associate dev ssid password)"
proof -
  have "fails_as (call_failed dev ssid) (tryP (returning (radio (wf_set_configuration dev cc))) (\<lambda>_.
     tryP (ensure_started dev) (\<lambda>_ s.
       case wf_connect dev (wf_world s) of
         None \<Rightarrow> None
       | Some (Inr _, w) \<Rightarrow> until_restart dev (s\<lparr>wf_world := w\<rparr>)
       | Some (Inl _, w) \<Rightarrow> returning (on_world (modify (wf_delay dev 500000))) (s\<lparr>wf_world := w\<rparr>))))" for cc
    by (intro fails_as_intros)
  then show ?thesis unfolding fails_as_def associate_def by blast
qed

lemma connection_turn_errors:
  assumes "connection_turn dev ssid password s = Some (r, t)"
  shows "driver_outcome (call_failed dev ssid) (wf_world t) r"
proof -
  have "fails_as (call_failed dev ssid) (connection_turn dev ssid password)"
    unfolding connection_turn_def by (intro fails_as_intros)
  from fails_asD [OF this assms] show ?thesis .
qed

section \<open>When the task ends\<close>

definition good_turn ::
  "('w, 'am, 'cfg, 'i, 'x) wifi_ops \<Rightarrow> bytes \<Rightarrow> bytes \<Rightarrow> ('w, 'am, 'cfg, 'r) wifi_state \<Rightarrow>
   ('w, 'am, 'cfg, 'r) wifi_state \<Rightarrow> bool" where
  "good_turn dev ssid password s t \<longleftrightarrow> connection_turn dev ssid password s = Some (Ok (), t)"

lemma connection_loop_stops:
  "connection_loop dev ssid password s = Some p \<Longrightarrow>
    \<exists>u x. (good_turn dev ssid password)\<^sup>*\<^sup>* s u \<and> call_failed dev ssid x (wf_world (snd p)) \<and>
      connection_turn dev ssid password u = Some (Err (WifiDriver x), snd p) \<and> fst p = Err (WifiDriver x)"
proof (induction rule: connection_loop.raw_induct [rotated, consumes 1, case_names step])
  case (step loop dev name pw s p)
  show ?case
  proof (cases "connection_turn dev name pw s")
    case None
    with step(2) show ?thesis by simp
  next
    case (Some turn)
    obtain q u where t: "turn = (q, u)" by (rule prod.exhaust)
    note turn = Some [unfolded t]
    show ?thesis
    proof (cases q)
      case (Ok a)
      with step(2) turn have "loop dev name pw u = Some p" by simp
      from step(1) [OF this] obtain v x where v: "(good_turn dev name pw)\<^sup>*\<^sup>* u v" "call_failed dev name x (wf_world (snd p))"
        "connection_turn dev name pw v = Some (Err (WifiDriver x), snd p)" "fst p = Err (WifiDriver x)" by blast
      have "good_turn dev name pw s u" using turn Ok by (simp add: good_turn_def)
      from converse_rtranclp_into_rtranclp [of "good_turn dev name pw", OF this v(1)] v(2-4) show ?thesis by blast
    next
      case (Err e)
      with connection_turn_errors [OF turn] obtain x where "e = WifiDriver x" "call_failed dev name x (wf_world u)"
        by (cases e) simp_all
      with step(2) turn Err show ?thesis by auto
    qed (use connection_turn_errors [OF turn] in simp)
  qed
qed

lemma connection_loop_unfolds:
  "connection_turn dev ssid password s = Some (Err e, t) \<Longrightarrow> connection_loop dev ssid password s = Some (Err e, t)"
  "good_turn dev ssid password s t \<Longrightarrow> connection_loop dev ssid password s = connection_loop dev ssid password t"
  by (subst connection_loop.simps, simp add: good_turn_def)+

lemma connection_loop_reaches:
  "(good_turn dev ssid password)\<^sup>*\<^sup>* s u \<Longrightarrow> connection_turn dev ssid password u = Some (Err e, t) \<Longrightarrow>
    connection_loop dev ssid password s = Some (Err e, t)"
  by (induction rule: converse_rtranclp_induct) (simp_all add: connection_loop_unfolds)

text \<open>The task goes on for ever unless a turn fails.\<close>

theorem connection_ends_with_driver_error:
  fixes dev :: "('w, 'am, 'cfg, 'i, 'x) wifi_ops"
  shows "connection dev ssid password s = Some (r, t) \<longleftrightarrow>
    (\<exists>u x. (good_turn dev ssid password)\<^sup>*\<^sup>* (s\<lparr>wf_cache := connection_init dev ssid (wf_cache s)\<rparr>) u \<and>
      connection_turn dev ssid password u = Some (Err (WifiDriver x), t) \<and> r = Ok (WifiDriver x))"
    (is "?L \<longleftrightarrow> ?R")
proof
  let ?s = "s\<lparr>wf_cache := connection_init dev ssid (wf_cache s)\<rparr>"
  assume ?L
  then obtain q where q: "connection_loop dev ssid password ?s = Some (q, t)"
    "r = (case (q :: (unit, ('i, 'x) wifi_error) outcome) of Ok never \<Rightarrow> Panic | Err error \<Rightarrow> Ok error | Panic \<Rightarrow> Panic)"
    unfolding connection_def connection_fallible_def map_option_eq_Some by auto
  from connection_loop_stops [OF q(1)] q(2) show ?R by auto
next
  let ?s = "s\<lparr>wf_cache := connection_init dev ssid (wf_cache s)\<rparr>"
  assume ?R
  then obtain u x where u: "(good_turn dev ssid password)\<^sup>*\<^sup>* ?s u"
    "connection_turn dev ssid password u = Some (Err (WifiDriver x), t)" "r = Ok (WifiDriver x)" by blast
  have "connection_loop dev ssid password ?s = Some (Err (WifiDriver x) :: (unit, ('i, 'x) wifi_error) outcome, t)"
    by (rule connection_loop_reaches [OF u(1,2)])
  with u(3) show ?L by (simp add: connection_def connection_fallible_def)
qed

text \<open>C23: The connection task goes on whatever attempts to connect fail: it ends only with an error of the driver that starting or
  stopping the radio, a scan for the network, or setting the configuration has just reported, and never with a value or a panic.
  So if these calls never fail, it never ends.\<close>

theorem connection_task_error:
  fixes dev :: "('w, 'am, 'cfg, 'i, 'x) wifi_ops"
  assumes "connection dev ssid password s = Some (r, t)"
  shows "\<exists>x. r = Ok (WifiDriver x) \<and> call_failed dev ssid x (wf_world t)"
proof -
  let ?s = "s\<lparr>wf_cache := connection_init dev ssid (wf_cache s)\<rparr>"
  from assms obtain q where q: "connection_loop dev ssid password ?s = Some (q, t)"
    "r = (case (q :: (unit, ('i, 'x) wifi_error) outcome) of Ok never \<Rightarrow> Panic | Err error \<Rightarrow> Ok error | Panic \<Rightarrow> Panic)"
    unfolding connection_def connection_fallible_def map_option_eq_Some by auto
  from connection_loop_stops [OF q(1)] q(2) show ?thesis by auto
qed

text \<open>A radio that is already started, on which no scan succeeds.\<close>

theorem connection_task_error_witness:
  "\<exists>t. connection (example_radio\<lparr>wf_scan := (\<lambda>_ w. Some (Inl (), w))\<rparr>) [1] [2] cold_state = Some (Ok (WifiDriver ()), t) \<and>
     call_failed (example_radio\<lparr>wf_scan := (\<lambda>_ w. Some (Inl (), w))\<rparr>) [1] () (wf_world t)"
proof -
  let ?dev = "example_radio\<lparr>wf_scan := (\<lambda>_ w. Some (Inl (), w))\<rparr>"
  let ?s = "cold_state\<lparr>wf_cache := connection_init ?dev [1] (wf_cache cold_state)\<rparr>"
  have "wait_started ?dev w = Some w" for w by (subst wait_started.simps) simp
  then have "connection_turn ?dev [1] [2] ?s = Some (Err (WifiDriver ()), ?s)"
    by (simp add: connection_turn_def wait_previous_def ensure_started_def waits_def scan_for_ap_def zoomP_def awaits_def
        cold_state_def connection_init_def wifi_cache_new_def)
  then have "connection ?dev [1] [2] cold_state = Some (Ok (WifiDriver ()), ?s)"
    by (simp add: connection_def connection_fallible_def connection_loop_unfolds)
  from this connection_task_error [OF this] show ?thesis by auto
qed

end
