(* ===== verification/Wifi_Shutdown.thy ===== *)
theory Wifi_Shutdown
  imports Wifi
begin

text \<open>
  The handles of src/wifi.rs and the shutdown of the radio: \<open>shutdown_wifi\<close> and the connection task
  talk over signals. A signal (\<open>embassy_sync::signal\<close>, outside the repository) holds at most one
  value; it is a parameter with that contract. The value of \<open>SHUTDOWN\<close> is the signal on which the
  completion is to be reported; the others carry no value, which is \<open>None\<close>.
\<close>

section \<open>Handles\<close>

record 'k udp_stack = UdpStack_stack :: 'k
record 'k ntp_stack = NtpStack_stack :: 'k
record 'k tcp_stack = TcpStack_stack :: 'k

record 'k stacks =
  stacks_udp :: "'k udp_stack"
  stacks_ntp :: "'k ntp_stack"
  stacks_tcp :: "'k tcp_stack"

datatype signal_name = SHUTDOWN | RESTART | SHUTDOWN_COMPLETE

record 'k wifi_handle =
  handle_stack :: 'k
  handle_shutdown :: signal_name
  handle_restart :: signal_name

definition shutdown_signal :: "'k wifi_handle \<Rightarrow> signal_name" where
  "shutdown_signal h = handle_shutdown h"

definition restart_signal :: "'k wifi_handle \<Rightarrow> signal_name" where
  "restart_signal h = handle_restart h"

datatype 'k wifi_pending_handle = WifiPendingHandle (pending_handle: "'k wifi_handle")
datatype 'k wifi_connected_handle = WifiConnectedHandle (connected_handle: "'k wifi_handle")

definition pending_from_stack :: "'k \<Rightarrow> 'k wifi_pending_handle" where
  "pending_from_stack stack =
     WifiPendingHandle \<lparr>handle_stack = stack, handle_shutdown = SHUTDOWN, handle_restart = RESTART\<rparr>"

definition connected_from_pending :: "'k wifi_pending_handle \<Rightarrow> 'k wifi_connected_handle" where
  "connected_from_pending p = WifiConnectedHandle (pending_handle p)"

definition connected_stack :: "'k wifi_connected_handle \<Rightarrow> 'k" where
  "connected_stack c = handle_stack (connected_handle c)"

text \<open>What \<open>wait_for_connection\<close> returns once it has waited.\<close>

definition connection_handles :: "'k wifi_pending_handle \<Rightarrow> 'k wifi_connected_handle \<times> 'k stacks" where
  "connection_handles p =
     (let handle = connected_from_pending p in
      (handle,
       \<lparr>stacks_udp = \<lparr>UdpStack_stack = connected_stack handle\<rparr>,
        stacks_ntp = \<lparr>NtpStack_stack = connected_stack handle\<rparr>,
        stacks_tcp = \<lparr>TcpStack_stack = connected_stack handle\<rparr>\<rparr>))"

section \<open>Signals\<close>

record 'g signal_ops =
  sg_signal :: "signal_name \<Rightarrow> signal_name option \<Rightarrow> 'g \<Rightarrow> 'g"
  sg_try_take :: "signal_name \<Rightarrow> 'g \<Rightarrow> (signal_name option \<times> 'g) option"

definition signal_contract :: "'g signal_ops \<Rightarrow> ('g \<Rightarrow> signal_name \<Rightarrow> signal_name option option) \<Rightarrow> bool" where
  "signal_contract sg held \<longleftrightarrow>
     (\<forall>n v g. held (sg_signal sg n v g) = (held g)(n := Some v)) \<and>
     (\<forall>n g. case sg_try_take sg n g of
        None \<Rightarrow> held g n = None
      | Some (v, g') \<Rightarrow> held g n = Some v \<and> held g' = (held g)(n := None))"

lemma signal_sendD: "signal_contract sg held \<Longrightarrow> held (sg_signal sg n v g) = (held g)(n := Some v)"
  by (simp add: signal_contract_def)

lemma signal_takeD:
  assumes "signal_contract sg held" "sg_try_take sg n g = Some (v, g')"
  shows "held g n = Some v \<and> held g' = (held g)(n := None)"
proof -
  from assms(1) have "case sg_try_take sg n g of
      None \<Rightarrow> held g n = None
    | Some (v, g') \<Rightarrow> held g n = Some v \<and> held g' = (held g)(n := None)"
    unfolding signal_contract_def by blast
  with assms(2) show ?thesis by simp
qed

lemma signal_emptyD:
  assumes "signal_contract sg held" "held g n = Some v"
  shows "\<exists>g'. sg_try_take sg n g = Some (v, g')"
proof -
  from assms(1) have "case sg_try_take sg n g of
      None \<Rightarrow> held g n = None
    | Some (v, g') \<Rightarrow> held g n = Some v \<and> held g' = (held g)(n := None)"
    unfolding signal_contract_def by blast
  with assms(2) show ?thesis by (auto split: option.splits)
qed

section \<open>The connection task and the caller of the shutdown\<close>

text \<open>
  The task is in its turns until it is connected, then waits for the request, stops the radio, reports
  it and waits to be restarted; an error ends it. The caller asks once, since \<open>shutdown\<close> consumes the handle.
\<close>

datatype task_phase = In_Turns | Awaiting_Shutdown | Stopping "signal_name option" | Awaiting_Restart | Task_Ended
datatype caller_phase = Not_Called | Awaiting_Complete | Shut_Down

record ('g, 'w) radio_control =
  rc_signals :: 'g
  rc_world :: 'w
  rc_task :: task_phase
  rc_caller :: caller_phase

inductive shutdown_step ::
  "('w, 'am, 'cfg, 'i, 'x) wifi_ops \<Rightarrow> 'g signal_ops \<Rightarrow> 'k wifi_connected_handle \<Rightarrow>
   ('g, 'w) radio_control \<Rightarrow> ('g, 'w) radio_control \<Rightarrow> bool"
  for dev sg h where
  task_turns: "rc_task s = In_Turns \<Longrightarrow> shutdown_step dev sg h s (s\<lparr>rc_world := w\<rparr>)"
| task_ends: "rc_task s = In_Turns \<Longrightarrow> shutdown_step dev sg h s (s\<lparr>rc_world := w, rc_task := Task_Ended\<rparr>)"
| task_connects: "rc_task s = In_Turns \<Longrightarrow> wf_connect dev (rc_world s) = Some (Inr (), w) \<Longrightarrow>
    shutdown_step dev sg h s (s\<lparr>rc_world := w, rc_task := Awaiting_Shutdown\<rparr>)"
| task_asked: "rc_task s = Awaiting_Shutdown \<Longrightarrow>
    sg_try_take sg (shutdown_signal (connected_handle h)) (rc_signals s) = Some (complete, g) \<Longrightarrow>
    shutdown_step dev sg h s (s\<lparr>rc_signals := g, rc_task := Stopping complete\<rparr>)"
| task_stops: "rc_task s = Stopping (Some complete) \<Longrightarrow> wf_stop dev (rc_world s) = Some (Inr (), w) \<Longrightarrow>
    shutdown_step dev sg h s
      (s\<lparr>rc_world := w, rc_signals := sg_signal sg complete None (rc_signals s), rc_task := Awaiting_Restart\<rparr>)"
| stop_fails: "rc_task s = Stopping complete \<Longrightarrow> wf_stop dev (rc_world s) = Some (Inl e, w) \<Longrightarrow>
    shutdown_step dev sg h s (s\<lparr>rc_world := w, rc_task := Task_Ended\<rparr>)"
| task_restarts: "rc_task s = Awaiting_Restart \<Longrightarrow>
    sg_try_take sg (restart_signal (connected_handle h)) (rc_signals s) = Some (v, g) \<Longrightarrow>
    shutdown_step dev sg h s (s\<lparr>rc_signals := g, rc_task := In_Turns\<rparr>)"
| shutdown_called: "rc_caller s = Not_Called \<Longrightarrow>
    shutdown_step dev sg h s
      (s\<lparr>rc_signals := sg_signal sg (shutdown_signal (connected_handle h)) (Some SHUTDOWN_COMPLETE) (rc_signals s),
         rc_caller := Awaiting_Complete\<rparr>)"
| shutdown_returns: "rc_caller s = Awaiting_Complete \<Longrightarrow>
    sg_try_take sg SHUTDOWN_COMPLETE (rc_signals s) = Some (v, g) \<Longrightarrow>
    shutdown_step dev sg h s (s\<lparr>rc_signals := g, rc_caller := Shut_Down\<rparr>)"

definition shutdown_init :: "'g \<Rightarrow> 'w \<Rightarrow> ('g, 'w) radio_control" where
  "shutdown_init g w = \<lparr>rc_signals = g, rc_world = w, rc_task = In_Turns, rc_caller = Not_Called\<rparr>"

section \<open>What the protocol keeps\<close>

text \<open>Where the request and its completion are, for each state of the caller.\<close>

definition shutdown_inv ::
  "('g \<Rightarrow> signal_name \<Rightarrow> signal_name option option) \<Rightarrow> ('w \<Rightarrow> bool) \<Rightarrow> ('g, 'w) radio_control \<Rightarrow> bool" where
  "shutdown_inv held running s \<longleftrightarrow>
     (let g = held (rc_signals s); early = {In_Turns, Awaiting_Shutdown, Task_Ended} in
      g RESTART = None \<and>
      (case rc_caller s of
         Not_Called \<Rightarrow> g SHUTDOWN = None \<and> g SHUTDOWN_COMPLETE = None \<and> rc_task s \<in> early
       | Awaiting_Complete \<Rightarrow>
           g SHUTDOWN = Some (Some SHUTDOWN_COMPLETE) \<and> g SHUTDOWN_COMPLETE = None \<and> rc_task s \<in> early \<or>
           g SHUTDOWN = None \<and> g SHUTDOWN_COMPLETE = None \<and> rc_task s \<in> {Stopping (Some SHUTDOWN_COMPLETE), Task_Ended} \<or>
           g SHUTDOWN = None \<and> g SHUTDOWN_COMPLETE = Some None \<and> rc_task s = Awaiting_Restart \<and> \<not> running (rc_world s)
       | Shut_Down \<Rightarrow>
           g SHUTDOWN = None \<and> g SHUTDOWN_COMPLETE = None \<and> rc_task s = Awaiting_Restart \<and> \<not> running (rc_world s)))"

definition boot_handle :: "'k \<Rightarrow> 'k wifi_connected_handle" where
  "boot_handle stack = fst (connection_handles (pending_from_stack stack))"

lemma boot_handle_signals [simp]:
  "shutdown_signal (connected_handle (boot_handle stack)) = SHUTDOWN"
  "restart_signal (connected_handle (boot_handle stack)) = RESTART"
  by (simp_all add: boot_handle_def connection_handles_def Let_def connected_from_pending_def pending_from_stack_def
      shutdown_signal_def restart_signal_def)

lemma shutdown_inv_step:
  assumes sg: "signal_contract sg held"
    and stop: "\<And>w w'. wf_stop dev w = Some (Inr (), w') \<Longrightarrow> \<not> running w'"
    and step: "shutdown_step dev sg (boot_handle stack) s t" and inv: "shutdown_inv held running s"
  shows "shutdown_inv held running t"
  using step
proof (cases rule: shutdown_step.cases)
  case (task_asked complete g)
  from signal_takeD [OF sg task_asked(3)] task_asked(1,2) inv show ?thesis
    by (auto simp: shutdown_inv_def Let_def split: caller_phase.splits)
next
  case (task_stops complete w)
  from signal_sendD [OF sg] stop [OF task_stops(3)] task_stops(1,2) inv show ?thesis
    by (auto simp: shutdown_inv_def Let_def split: caller_phase.splits)
next
  case (task_restarts v g)
  from signal_takeD [OF sg task_restarts(3)] task_restarts(1,2) inv show ?thesis
    by (auto simp: shutdown_inv_def Let_def)
next
  case shutdown_called
  from signal_sendD [OF sg] shutdown_called inv show ?thesis by (auto simp: shutdown_inv_def Let_def)
next
  case (shutdown_returns v g)
  from signal_takeD [OF sg shutdown_returns(3)] shutdown_returns(1,2) inv show ?thesis
    by (auto simp: shutdown_inv_def Let_def)
qed (use inv in \<open>auto simp: shutdown_inv_def Let_def split: caller_phase.splits\<close>)

lemma shutdown_inv_run:
  assumes "signal_contract sg held" "\<And>w w'. wf_stop dev w = Some (Inr (), w') \<Longrightarrow> \<not> running w'"
  shows "(shutdown_step dev sg (boot_handle stack))\<^sup>*\<^sup>* s t \<Longrightarrow> shutdown_inv held running s \<Longrightarrow> shutdown_inv held running t"
proof (induction rule: rtranclp_induct)
  case (step t u)
  from shutdown_inv_step [OF assms step.hyps(2) step.IH [OF step.prems]] show ?case .
qed

lemma shutdown_inv_init: "held g = (\<lambda>_. None) \<Longrightarrow> shutdown_inv held running (shutdown_init g w)"
  by (simp add: shutdown_inv_def shutdown_init_def)

section \<open>Properties\<close>

text \<open>Once \<open>shutdown\<close> has returned the radio is stopped, and it stays stopped: nothing signals the restart,
  so that neither the task nor the caller takes another step.\<close>

theorem shutdown_stops_radio:
  assumes "signal_contract sg held" "\<And>w w'. wf_stop dev w = Some (Inr (), w') \<Longrightarrow> \<not> running w'"
    and "held g = (\<lambda>_. None)" "(shutdown_step dev sg (boot_handle stack))\<^sup>*\<^sup>* (shutdown_init g w) s"
    and "rc_caller s = Shut_Down"
  shows "\<not> running (rc_world s) \<and> (\<nexists>t. shutdown_step dev sg (boot_handle stack) s t)"
proof -
  have inv: "shutdown_inv held running s"
    by (rule shutdown_inv_run [OF assms(1,2,4)]) (simp_all add: shutdown_inv_init assms(3))
  have "\<not> shutdown_step dev sg (boot_handle stack) s t" for t
  proof
    assume "shutdown_step dev sg (boot_handle stack) s t"
    then show False
      using inv assms(5) by (cases rule: shutdown_step.cases)
        (auto simp: shutdown_inv_def Let_def dest!: signal_takeD [OF assms(1)])
  qed
  with inv assms(5) show ?thesis by (auto simp: shutdown_inv_def Let_def)
qed

text \<open>A caller whose request the connection task does not live to report waits for ever: this is so when the
  task has ended with an error, at whatever point and even in stopping the radio.\<close>

theorem shutdown_waits_for_ever:
  assumes "signal_contract sg held" "\<And>w w'. wf_stop dev w = Some (Inr (), w') \<Longrightarrow> \<not> running w'"
    and "held g = (\<lambda>_. None)" "(shutdown_step dev sg (boot_handle stack))\<^sup>*\<^sup>* (shutdown_init g w) s"
    and "rc_task s = Task_Ended" "(shutdown_step dev sg (boot_handle stack))\<^sup>*\<^sup>* s t"
  shows "rc_task t = Task_Ended \<and> rc_caller t \<noteq> Shut_Down"
proof -
  have s: "shutdown_inv held running s"
    by (rule shutdown_inv_run [OF assms(1,2,4)]) (simp_all add: shutdown_inv_init assms(3))
  have inv: "shutdown_inv held running t"
    by (rule shutdown_inv_run [OF assms(1) _ assms(6) s]) (rule assms(2))
  have "rc_task t = Task_Ended"
    using assms(6,5) by (induction rule: rtranclp_induct) (auto elim: shutdown_step.cases)
  with inv show ?thesis by (auto simp: shutdown_inv_def Let_def)
qed

text \<open>An example: the signals are a map, the world says whether the radio runs.\<close>

definition map_signals :: "(signal_name \<Rightarrow> signal_name option option) signal_ops" where
  "map_signals =
     \<lparr>sg_signal = (\<lambda>n v g. g(n := Some v)),
      sg_try_take = (\<lambda>n g. map_option (\<lambda>v. (v, g(n := None))) (g n))\<rparr>"

lemma map_signals_contract: "signal_contract map_signals id"
  by (auto simp: signal_contract_def map_signals_def split: option.splits)

definition switch_radio :: "bool \<Rightarrow> (bool, unit, unit, unit, unit) wifi_ops" where
  "switch_radio stops =
     \<lparr>wf_init = (\<lambda>w. (Inr (), w)), wf_new_with_config = (\<lambda>_ w. (Inr (), w)),
      wf_new_with_mode = (\<lambda>w. (Inr (), w)), wf_new_stack = (\<lambda>_ _ w. w), wf_link_up = id,
      wf_config_v4 = (\<lambda>_. Some ()), wf_sta_connected = (\<lambda>_. False), wf_is_started = Inr,
      wf_start = (\<lambda>_. Some (Inr (), True)), wf_stop = (\<lambda>_. Some (if stops then (Inr (), False) else (Inl (), True))),
      wf_scan = (\<lambda>_ w. Some (Inr [], w)), wf_set_configuration = (\<lambda>_ w. (Inr (), w)),
      wf_connect = (\<lambda>_. Some (Inr (), True)), wf_wait_disconnected = Some, wf_wait_shutdown = (\<lambda>_. None),
      wf_signal_complete = id, wf_wait_restart = (\<lambda>_. None), wf_delay = (\<lambda>_ w. w), wf_wpa2 = ()\<rparr>"

lemma switch_radio_simps [simp]:
  "wf_connect (switch_radio b) w = Some (Inr (), True)"
  "wf_stop (switch_radio True) w = Some (Inr (), False)" "wf_stop (switch_radio False) w = Some (Inl (), True)"
  by (simp_all add: switch_radio_def)

lemma map_signals_simps [simp]:
  "sg_signal map_signals n v g = g(n := Some v)"
  "sg_try_take map_signals n g = map_option (\<lambda>v. (v, g(n := None))) (g n)"
  by (simp_all add: map_signals_def)

lemma example_request:
  "(shutdown_step (switch_radio b) map_signals (boot_handle ()))\<^sup>*\<^sup>* (shutdown_init (\<lambda>_. None) False)
     \<lparr>rc_signals = (\<lambda>_. None), rc_world = True, rc_task = Stopping (Some SHUTDOWN_COMPLETE), rc_caller = Awaiting_Complete\<rparr>"
proof -
  let ?S = "shutdown_step (switch_radio b) map_signals (boot_handle ())"
  let ?s1 = "\<lparr>rc_signals = (\<lambda>_. None), rc_world = True, rc_task = Awaiting_Shutdown, rc_caller = Not_Called\<rparr>"
  let ?g = "(\<lambda>_. None)(SHUTDOWN := Some (Some SHUTDOWN_COMPLETE))"
  let ?s2 = "\<lparr>rc_signals = ?g, rc_world = True, rc_task = Awaiting_Shutdown, rc_caller = Awaiting_Complete\<rparr>"
  have a: "?S (shutdown_init (\<lambda>_. None) False) ?s1"
    using task_connects [of "shutdown_init (\<lambda>_. None) False" "switch_radio b" True map_signals "boot_handle ()"]
    by (simp add: shutdown_init_def)
  have b: "?S ?s1 ?s2"
    using shutdown_called [of ?s1 "switch_radio b" map_signals "boot_handle ()"] by simp
  have c: "?S ?s2 \<lparr>rc_signals = (\<lambda>_. None), rc_world = True, rc_task = Stopping (Some SHUTDOWN_COMPLETE),
      rc_caller = Awaiting_Complete\<rparr>"
    using task_asked [of ?s2 map_signals "boot_handle ()" "Some SHUTDOWN_COMPLETE" "\<lambda>_. None" "switch_radio b"]
    by (simp add: fun_upd_idem)
  show ?thesis
    by (rule rtranclp.rtrancl_into_rtrancl [OF rtranclp.rtrancl_into_rtrancl [OF r_into_rtranclp [of ?S, OF a] b] c])
qed

theorem shutdown_stops_radio_witness:
  "\<exists>s :: (signal_name \<Rightarrow> signal_name option option, bool) radio_control.
     (shutdown_step (switch_radio True) map_signals (boot_handle ()))\<^sup>*\<^sup>* (shutdown_init (\<lambda>_. None) False) s \<and>
     rc_caller s = Shut_Down \<and> \<not> rc_world s"
proof -
  let ?S = "shutdown_step (switch_radio True) map_signals (boot_handle ())"
  let ?s3 = "\<lparr>rc_signals = (\<lambda>_. None), rc_world = True, rc_task = Stopping (Some SHUTDOWN_COMPLETE),
    rc_caller = Awaiting_Complete\<rparr>"
  let ?g = "(\<lambda>_. None)(SHUTDOWN_COMPLETE := Some None)"
  let ?s4 = "\<lparr>rc_signals = ?g, rc_world = False, rc_task = Awaiting_Restart, rc_caller = Awaiting_Complete\<rparr>"
  let ?s5 = "\<lparr>rc_signals = (\<lambda>_. None), rc_world = False, rc_task = Awaiting_Restart, rc_caller = Shut_Down\<rparr>"
  have a: "?S ?s3 ?s4"
    using task_stops [of ?s3 SHUTDOWN_COMPLETE "switch_radio True" False map_signals "boot_handle ()"] by simp
  have b: "?S ?s4 ?s5"
    using shutdown_returns [of ?s4 map_signals None "\<lambda>_. None" "switch_radio True" "boot_handle ()"]
    by (simp add: fun_upd_idem)
  have run: "?S\<^sup>*\<^sup>* (shutdown_init (\<lambda>_. None) False) ?s5"
    by (rule rtranclp.rtrancl_into_rtrancl [OF rtranclp.rtrancl_into_rtrancl [OF example_request a] b])
  from shutdown_stops_radio [OF map_signals_contract _ _ run, of "\<lambda>w. w"] run show ?thesis
    by (intro exI [of _ ?s5]) simp
qed

theorem shutdown_waits_for_ever_witness:
  "\<exists>s :: (signal_name \<Rightarrow> signal_name option option, bool) radio_control.
     (shutdown_step (switch_radio False) map_signals (boot_handle ()))\<^sup>*\<^sup>* (shutdown_init (\<lambda>_. None) False) s \<and>
     rc_caller s = Awaiting_Complete \<and> rc_task s = Task_Ended \<and> rc_caller s \<noteq> Shut_Down"
proof -
  let ?S = "shutdown_step (switch_radio False) map_signals (boot_handle ())"
  let ?s3 = "\<lparr>rc_signals = (\<lambda>_. None), rc_world = True, rc_task = Stopping (Some SHUTDOWN_COMPLETE),
    rc_caller = Awaiting_Complete\<rparr>"
  let ?s4 = "\<lparr>rc_signals = (\<lambda>_. None), rc_world = True, rc_task = Task_Ended, rc_caller = Awaiting_Complete\<rparr>"
  have a: "?S ?s3 ?s4"
    using stop_fails [of ?s3 "Some SHUTDOWN_COMPLETE" "switch_radio False" "()" True map_signals "boot_handle ()"] by simp
  have run: "?S\<^sup>*\<^sup>* (shutdown_init (\<lambda>_. None) False) ?s4"
    by (rule rtranclp.rtrancl_into_rtrancl [OF example_request a])
  from shutdown_waits_for_ever [OF map_signals_contract _ _ run, of "\<lambda>_. False" ?s4] run show ?thesis
    by (intro exI [of _ ?s4]) simp
qed

end
