(* ===== verification/Credentials_Type.thy ===== *)
theory Credentials_Type
  imports Credentials_Properties
begin

text \<open>
  The types of the credentials: in src/bin/blind.rs they are a \<open>String<SSID_MAX_LEN>\<close> and a \<open>String<PASSWORD_LEN>\<close>,
  that is UTF-8 within a capacity. The model has byte lists, so that this is a theorem about \<open>get_credentials\<close>,
  which also lists the errors it may end with.
\<close>

section \<open>The errors\<close>

fun credential_outcome :: "('a, ('y, 'n, 'h, 'i, 'x) blind_error) outcome \<Rightarrow> bool" where
  "credential_outcome (Ok a) = True"
| "credential_outcome (Err e) = (e = ParseCredentials \<or> e = MissingCredentials \<or> (\<exists>x. e = Nvs_Error x))"
| "credential_outcome Panic = False"

definition credential_errors :: "('s, 'a, ('y, 'n, 'h, 'i, 'x) blind_error) action \<Rightarrow> bool" where
  "credential_errors m \<longleftrightarrow> (\<forall>s. credential_outcome (fst (m s)))"

named_theorems credential_errors_intros

lemma credential_errorsD: "credential_errors m \<Longrightarrow> m s = (r, t) \<Longrightarrow> credential_outcome r"
  unfolding credential_errors_def by (metis fst_conv)

lemma credential_errors_ret [credential_errors_intros]: "credential_errors (ret a)"
  by (simp add: credential_errors_def ret_def)

lemma credential_errors_fail [credential_errors_intros]:
  "credential_errors (fail ParseCredentials)" "credential_errors (fail MissingCredentials)"
  by (simp_all add: credential_errors_def fail_def)

lemma credential_errors_within [credential_errors_intros]: "credential_errors (within capacity n)"
  by (simp add: within_def credential_errors_ret credential_errors_fail)

lemma credential_errors_nvs [credential_errors_intros]:
  assumes "\<And>s t. m s \<noteq> (Panic, t)"
  shows "credential_errors (nvs_op m)"
  unfolding credential_errors_def
proof
  fix s
  obtain q t where "m s = (q, t)" by (rule prod.exhaust)
  with assms [of s t] show "credential_outcome (fst (nvs_op m s))" by (cases q) (simp_all add: map_err_def)
qed

lemma credential_errors_tryA [credential_errors_intros]:
  assumes "credential_errors m" "\<And>a. credential_errors (k a)"
  shows "credential_errors (tryA m k)"
  unfolding credential_errors_def
proof
  fix s
  obtain q u where m: "m s = (q, u)" by (rule prod.exhaust)
  show "credential_outcome (fst (tryA m k s))"
  proof (cases q)
    case (Ok a)
    with m assms(2) [of a] show ?thesis by (simp add: credential_errors_def)
  qed (use credential_errorsD [OF assms(1) m] m in auto)
qed

lemma credential_errors_if [credential_errors_intros]:
  "credential_errors m \<Longrightarrow> credential_errors n \<Longrightarrow> credential_errors (if b then m else n)"
  by simp

lemma no_panic [credential_errors_intros]:
  "set_valid d v s \<noteq> (Panic, t)" "is_valid d s \<noteq> (Panic, t)" "nvs_read d off n s \<noteq> (Panic, t)" "nvs_write d off bs s \<noteq> (Panic, t)"
  by (auto simp: set_valid_def is_valid_def Let_def zoom_eq tryA_def ret_def fls.wr_no_panic fls.rd_no_panic
      nv.rd_no_panic nv.wr_no_panic split: prod.splits outcome.splits)

lemma credential_errors_get: "credential_errors (get_credentials d SSID PASSWORD)"
proof -
  have "credential_errors (save_credentials d ssid password)" for ssid password
    unfolding save_credentials_def Let_def by (intro credential_errors_intros)
  moreover have "credential_errors (load_credentials d)"
    unfolding load_credentials_def load_field_def Let_def by (intro credential_errors_intros)
  ultimately show ?thesis
    unfolding get_credentials_def by (auto intro!: credential_errors_intros split: option.split)
qed

section \<open>The lengths\<close>

lemma load_field_length:
  assumes ok: "nvs_ok d view good s" and at: "at = ssid_at \<or> at = password_at"
    and run: "load_field d at capacity s = (Ok x, t)"
  shows "length x \<le> capacity" "nvs_ok d view good t"
proof -
  obtain len s1 where len: "nvs_read d at 1 s = (Ok len, s1)" and n: "unat (hd len) \<le> capacity"
    and x: "nvs_read d (at + 1) (unat (hd len)) s1 = (Ok x, t)"
    using run by (auto simp: load_field_def Let_def action_simps within_def split: if_splits)
  have s1: "nvs_ok d view good s1" by (rule nv.rd_invar [OF ok len])
  have "unat (hd len) < 256" using unsigned_less [of "hd len"] by simp
  with at have "nvs_fits (at + 1) (unat (hd len))" by (auto simp: nvs_fits_def)
  from nv.rd_value [OF s1 this x] n show "length x \<le> capacity" by simp
  show "nvs_ok d view good t" by (rule nv.rd_invar [OF s1 x])
qed

text \<open>C22: The credentials a start obtains have the types the firmware declares for them, wherever they come from: both are
  UTF-8, the network name of at most 32 bytes and the password of at most 64, even if what is in the store was not
  written by it. Otherwise the error is that of credentials that do not parse or are missing, or that of
  the store; there is no panic.\<close>

theorem credentials_well_typed:
  fixes r :: "(bytes \<times> bytes, ('y, 'n, 'h, 'i, 'x) blind_error) outcome" and d :: "('f, 'y) flash_ops"
  assumes "nvs_ok d view good s" "get_credentials d SSID PASSWORD s = (r, t)"
    and "\<forall>text. SSID = Some text \<or> PASSWORD = Some text \<longrightarrow> utf8_valid text"
  shows "case r of
      Ok (ssid, password) \<Rightarrow> utf8_valid ssid \<and> length ssid \<le> 32 \<and> utf8_valid password \<and> length password \<le> 64
    | Err e \<Rightarrow> e = ParseCredentials \<or> e = MissingCredentials \<or> (\<exists>x. e = Nvs_Error x)
    | Panic \<Rightarrow> False"
proof (cases r)
  case (Ok p)
  obtain ssid password where p: "p = (ssid, password)" by (rule prod.exhaust)
  note run = assms(2) [unfolded Ok p]
  have "utf8_valid ssid \<and> length ssid \<le> 32 \<and> utf8_valid password \<and> length password \<le> 64"
  proof (cases "\<exists>a b. SSID = Some a \<and> PASSWORD = Some b")
    case True
    with run assms(3) show ?thesis
      by (auto simp: get_credentials_def action_simps SSID_MAX_LEN_def PASSWORD_LEN_def dest!: within_Ok)
  next
    case False
    then have "load_credentials d s =
        (Ok (ssid, password) :: (bytes \<times> bytes, ('y, 'n, 'h, 'i, 'x) blind_error) outcome, t)"
      using run by (auto simp: get_credentials_def split: option.splits)
    then obtain s1 s2 where v: "is_valid d s = (Ok True, s1)"
      and l: "load_field d ssid_at SSID_MAX_LEN s1 =
          (Ok ssid :: (bytes, ('y, 'n, 'h, 'i, 'x) blind_error) outcome, s2)"
        "load_field d password_at PASSWORD_LEN s2 =
          (Ok password :: (bytes, ('y, 'n, 'h, 'i, 'x) blind_error) outcome, t)"
        "utf8_valid ssid" "utf8_valid password"
      by (auto simp: load_credentials_def action_simps split: if_splits)
    have "nvs_ok d view good s1" using is_valid_law [OF assms(1) v] by simp
    from load_field_length [OF this _ l(1)] have "length ssid \<le> SSID_MAX_LEN" "nvs_ok d view good s2" by simp_all
    with load_field_length(1) [OF _ _ l(2)] l(3,4) show ?thesis by (simp add: SSID_MAX_LEN_def PASSWORD_LEN_def)
  qed
  with Ok p show ?thesis by simp
next
  case (Err e)
  with credential_errorsD [OF credential_errors_get assms(2)] show ?thesis by simp
next
  case Panic
  with credential_errorsD [OF credential_errors_get assms(2)] show ?thesis by simp
qed

theorem credentials_well_typed_witness:
  "\<exists>t. example_get (Some [0x68, 0x69]) (Some [0x70, 0x77]) (nvs_new (\<lambda>_. 0xFF)) = (Ok ([0x68, 0x69], [0x70, 0x77]), t) \<and>
     utf8_valid [0x68, 0x69]"
proof -
  have "storable [0x68, 0x69] [0x70, 0x77]" by (simp add: storable_def)
  then obtain t where t: "example_get (Some [0x68, 0x69]) (Some [0x70, 0x77]) (nvs_new (\<lambda>_. 0xFF)) =
      (Ok ([0x68, 0x69], [0x70, 0x77]), t)"
    using ram_get_embedded by blast
  have utf8: "\<forall>text. Some [0x68, 0x69] = Some text \<or> Some [0x70, 0x77] = Some text \<longrightarrow> utf8_valid text"
    by (auto simp del: utf8_valid.simps) (simp_all)
  from credentials_well_typed [OF ram_nvs_ok t utf8] t show ?thesis by auto
qed

end
