(* ===== verification/Web.thy ===== *)
theory Web
  imports Controller
begin

text \<open>
  The web application of src/bin/blind.rs beside its commands: the two status pages, the
  restart, the routing table, and the header every response gets.

  The pages are written to a string of fixed capacity (150 bytes) by \<open>write!\<close>, which hands its
  pieces one after the other to the string and stops at the first one that does not fit; the
  handlers ignore that. The string type (crate heapless) is a parameter: \<open>push b s\<close> is \<open>b\<close>
  extended by \<open>s\<close>, or \<open>None\<close> when there is no room for all of it. So are the pieces the
  crates chrono and time print for a date, and the text of the result of the sunset calculation.
\<close>

section \<open>Formatted output\<close>

definition string_contract :: "nat \<Rightarrow> (bytes \<Rightarrow> bytes \<Rightarrow> bytes option) \<Rightarrow> bool" where
  "string_contract capacity push \<longleftrightarrow>
     (\<forall>b s. push b s = (if length b + length s \<le> capacity then Some (b @ s) else None))"

text \<open>\<open>core::fmt::write\<close>: the buffer it leaves, and whether everything was written.\<close>

fun write_pieces :: "(bytes \<Rightarrow> bytes \<Rightarrow> bytes option) \<Rightarrow> bytes list \<Rightarrow> bytes \<Rightarrow> bytes \<times> bool" where
  "write_pieces push [] buf = (buf, True)"
| "write_pieces push (p # ps) buf =
     (case push buf p of None \<Rightarrow> (buf, False) | Some buf' \<Rightarrow> write_pieces push ps buf')"

definition show_bool :: "bool \<Rightarrow> bytes" where
  "show_bool b = (if b then ascii ''true'' else ascii ''false'')"

section \<open>The pages\<close>

definition index_pieces :: "bytes list \<Rightarrow> bool \<Rightarrow> bytes list" where
  "index_pieces build_date update_pending =
     ascii ''<p>Build date: '' # build_date @
     [ascii ''</p><p>Update pending: '', show_bool update_pending,
      ascii ''</p><a href='/reboot'>Reboot</a>'']"

text \<open>\<open>None\<close> is the panic of \<open>expect\<close>.\<close>

definition index_page ::
  "(int \<Rightarrow> 'bd option) \<Rightarrow> ('bd \<Rightarrow> bytes list) \<Rightarrow> (bytes \<Rightarrow> bytes \<Rightarrow> bytes option) \<Rightarrow> int \<Rightarrow> bool \<Rightarrow> bytes option" where
  "index_page timestamp debug_date push BUILD_DATE update_pending =
     map_option (\<lambda>build_date. fst (write_pieces push (index_pieces (debug_date build_date) update_pending) []))
       (timestamp BUILD_DATE)"

definition time_pieces :: "bool \<Rightarrow> bool \<Rightarrow> bytes list \<Rightarrow> bytes list \<Rightarrow> bytes list" where
  "time_pieces is_configured is_set time sunset =
     [ascii ''<p>Configured: '', show_bool is_configured, ascii ''</p><p>Time set: '', show_bool is_set,
      ascii ''</p><p>Time: ''] @ time @ ascii ''</p><p>Sunset: '' # sunset @ [ascii ''</p>'']"

definition time_page ::
  "('o, 'dt, 'd, 't) time_api \<Rightarrow> ('c, 'nd, 'sd) solar_api \<Rightarrow> 'dt \<Rightarrow> ('dt \<Rightarrow> bytes list) \<Rightarrow>
   (('dt, (unit, unit, unit, unit, unit) blind_error) outcome \<Rightarrow> bytes list) \<Rightarrow>
   (bytes \<Rightarrow> bytes \<Rightarrow> bytes option) \<Rightarrow> 'c \<Rightarrow> clock \<Rightarrow> bytes" where
  "time_page api sol UNIX_EPOCH debug_time debug_sunset push coordinates c =
     (let (time, is_set) = (case datetime api c of Ok t \<Rightarrow> (t, True) | _ \<Rightarrow> (UNIX_EPOCH, False));
          (sunset, _) = calculate_sunset api sol time coordinates ()
      in fst (write_pieces push (time_pieces (configured c) is_set (debug_time time) (debug_sunset sunset)) []))"

section \<open>Requests\<close>

record response =
  content_type :: string
  content_length :: nat
  response_body :: bytes
  response_headers :: "(string \<times> string) list"

definition Html :: "bytes \<Rightarrow> response" where
  "Html page =
     \<lparr>content_type = ''text/html; charset=utf-8'', content_length = length page, response_body = page,
      response_headers = []\<rparr>"

definition no_store :: "response \<Rightarrow> response" where
  "no_store r = r\<lparr>response_headers := response_headers r @ [(''Cache-Control'', ''no-store'')]\<rparr>"

text \<open>
  What a request does: answer with a page, send a command and answer with a text, put the device to
  sleep for a number of microseconds after which it starts again, panic, or match no route.
\<close>

datatype web_answer =
    Page response
  | Command step_command bytes
  | Reboot nat
  | Handler_Panics
  | No_Route

definition reboot :: web_answer where
  "reboot = Reboot (2 * 1000000)"

definition build_app :: "bytes option \<Rightarrow> bytes \<Rightarrow> (bytes \<Rightarrow> usize option) \<Rightarrow> bytes list \<Rightarrow> web_answer" where
  "build_app index time parse path =
     (if path = [] then (case index of None \<Rightarrow> Handler_Panics | Some page \<Rightarrow> Page (no_store (Html page)))
      else if path = [ascii ''time''] then Page (no_store (Html time))
      else if path = [ascii ''reboot''] then reboot
      else case web_route parse path of
             Some (command, reply) \<Rightarrow> Command command reply
           | None \<Rightarrow> No_Route)"

section \<open>What is written\<close>

lemma write_pieces_all:
  assumes "string_contract capacity push" "length buf + length (concat ps) \<le> capacity"
  shows "write_pieces push ps buf = (buf @ concat ps, True)"
  using assms by (induction ps arbitrary: buf) (auto simp: string_contract_def)

lemma write_pieces_prefix:
  assumes "string_contract capacity push" "write_pieces push ps buf = (out, ok)" "length buf \<le> capacity"
  shows "\<exists>k \<le> length ps. out = buf @ concat (take k ps) \<and> (ok \<longleftrightarrow> k = length ps) \<and> length out \<le> capacity \<and>
    (\<not> ok \<longrightarrow> capacity < length out + length (ps ! k))"
  using assms(2,3)
proof (induction ps arbitrary: buf)
  case Nil
  then show ?case by simp
next
  case (Cons p ps)
  show ?case
  proof (cases "length buf + length p \<le> capacity")
    case True
    with Cons.prems assms(1) have "write_pieces push ps (buf @ p) = (out, ok)"
      by (simp add: string_contract_def)
    moreover have "length (buf @ p) \<le> capacity" using True by simp
    ultimately obtain k where "k \<le> length ps \<and> out = (buf @ p) @ concat (take k ps) \<and>
      (ok \<longleftrightarrow> k = length ps) \<and> length out \<le> capacity \<and> (\<not> ok \<longrightarrow> capacity < length out + length (ps ! k))"
      using Cons.IH by blast
    then show ?thesis by (intro exI [of _ "Suc k"]) auto
  next
    case False
    with Cons.prems assms(1) show ?thesis
      by (intro exI [of _ 0]) (simp add: string_contract_def)
  qed
qed

end
