(* ===== verification/Web_Properties.thy ===== *)
theory Web_Properties
  imports Web Controller_Properties
begin

text \<open>
  The properties of the web application, and their instances on a string type that is a list.
\<close>

definition list_string :: "nat \<Rightarrow> bytes \<Rightarrow> bytes \<Rightarrow> bytes option" where
  "list_string capacity b s = (if length b + length s \<le> capacity then Some (b @ s) else None)"

lemma list_string_contract: "string_contract capacity (list_string capacity)"
  by (simp add: string_contract_def list_string_def)

text \<open>The status page is whole whenever the text of the build date has at most 71 bytes: it names the
  date, whether an update is pending, and links to the restart. Whatever the text of the date, the page is
  cut between two pieces, never inside one, and never exceeds 150 bytes; the announced
  length is its length, and it is not stored by caches.\<close>

theorem index_page_whole:
  assumes "string_contract 150 push" "timestamp BUILD_DATE = Some date"
    and "build_app (index_page timestamp debug_date push BUILD_DATE update_pending) time parse [] = Page r"
  shows "(length (concat (debug_date date)) \<le> 71 \<longrightarrow>
      response_body r = concat (index_pieces (debug_date date) update_pending)) \<and>
    (\<exists>k. response_body r = concat (take k (index_pieces (debug_date date) update_pending))) \<and>
    length (response_body r) \<le> 150 \<and> content_length r = length (response_body r) \<and>
    (''Cache-Control'', ''no-store'') \<in> set (response_headers r)"
proof -
  let ?ps = "index_pieces (debug_date date) update_pending"
  have r: "r = no_store (Html (fst (write_pieces push ?ps [])))"
    using assms(2,3) by (simp add: build_app_def index_page_def)
  obtain out ok where w: "write_pieces push ?ps [] = (out, ok)" by (rule prod.exhaust)
  obtain k where "out = concat (take k ?ps)" "length out \<le> 150"
    using write_pieces_prefix [OF assms(1) w] by auto
  moreover have "out = concat ?ps" if "length (concat (debug_date date)) \<le> 71"
  proof -
    have "length (concat ?ps) \<le> 150"
      using that by (simp add: index_pieces_def ascii_def show_bool_def)
    with write_pieces_all [OF assms(1), of "[]" ?ps] w show ?thesis by simp
  qed
  ultimately show ?thesis using w by (auto simp: r Html_def no_store_def)
qed

theorem index_page_whole_witness:
  "\<exists>r. build_app (index_page Some (\<lambda>_. [ascii ''2024-01-02'', ascii ''T03:04:05Z'']) (list_string 150) 7 False) [] (\<lambda>_. None) [] = Page r \<and>
     length (response_body r) = 95"
proof -
  let ?r = "no_store (Html (fst (write_pieces (list_string 150)
      (index_pieces [ascii ''2024-01-02'', ascii ''T03:04:05Z''] False) [])))"
  have r: "build_app (index_page Some (\<lambda>_. [ascii ''2024-01-02'', ascii ''T03:04:05Z'']) (list_string 150) 7 False) [] (\<lambda>_. None) [] = Page ?r"
    by (simp add: build_app_def index_page_def)
  from index_page_whole [OF list_string_contract refl r]
  have "response_body ?r = concat (index_pieces [ascii ''2024-01-02'', ascii ''T03:04:05Z''] False)"
    by (simp add: ascii_def)
  then have "length (response_body ?r) = 95"
    by (simp add: index_pieces_def ascii_def show_bool_def)
  with r show ?thesis by blast
qed

text \<open>The time page is whole exactly when the texts of the time and of the sunset have together at most 78 bytes
  (77 while the clock is not configured); a longer text, such as that of an error in place of the
  sunset, makes it end before the first piece that does not fit, its closing tag lost.\<close>

theorem time_page_whole:
  assumes "string_contract 150 push" "datetime api c = Ok now"
    and "calculate_sunset api sol now coordinates () = (sunset, ())"
  shows "time_page api sol epoch debug_time debug_sunset push coordinates c =
      concat (time_pieces (configured c) True (debug_time now) (debug_sunset sunset)) \<longleftrightarrow>
    length (concat (debug_time now)) + length (concat (debug_sunset sunset)) \<le> (if configured c then 78 else 77)"
proof -
  let ?ps = "time_pieces (configured c) True (debug_time now) (debug_sunset sunset)"
  have page: "time_page api sol epoch debug_time debug_sunset push coordinates c = fst (write_pieces push ?ps [])"
    using assms(2,3) by (simp add: time_page_def)
  have len: "length (concat ?ps) = length (concat (debug_time now)) + length (concat (debug_sunset sunset)) +
      (if configured c then 72 else 73)"
    by (simp add: time_pieces_def ascii_def show_bool_def)
  obtain out ok where w: "write_pieces push ?ps [] = (out, ok)" by (rule prod.exhaust)
  have "length out \<le> 150" using write_pieces_prefix [OF assms(1) w] by auto
  then have "out = concat ?ps \<Longrightarrow> length (concat ?ps) \<le> 150" by simp
  moreover have "length (concat ?ps) \<le> 150 \<Longrightarrow> out = concat ?ps"
    using write_pieces_all [OF assms(1), of "[]" ?ps] w by simp
  ultimately show ?thesis unfolding page w fst_conv len by (auto split: if_splits)
qed

theorem time_page_whole_witness:
  "\<exists>sunset. calculate_sunset reference_time example_sun summer_noon () () =
       (sunset :: (int \<times> i32, (unit, unit, unit, unit, unit) blind_error) outcome, ()) \<and>
     time_page reference_time example_sun summer_noon (\<lambda>_. [ascii ''12:00'']) (\<lambda>_. [ascii ''20:21'']) (list_string 150) () summer_clock =
       concat (time_pieces (configured summer_clock) True [ascii ''12:00''] [ascii ''20:21''])"
proof -
  obtain sunset where s: "calculate_sunset reference_time example_sun summer_noon () () =
      (sunset :: (int \<times> i32, (unit, unit, unit, unit, unit) blind_error) outcome, ())"
    by (metis old.unit.exhaust surj_pair)
  have "length (concat [ascii ''12:00'']) + length (concat [ascii ''20:21'']) \<le> (if configured summer_clock then 78 else 77)"
    by (simp add: ascii_def)
  with time_page_whole [OF list_string_contract summer_datetime s, of summer_noon "\<lambda>_. [ascii ''12:00'']" "\<lambda>_. [ascii ''20:21'']"] s
  show ?thesis by simp
qed

end
