(* ===== verification/Build.thy ===== *)
theory Build
  imports Boot
begin

text \<open>
  The build script build.rs: it hands the variables of an .env file, the build date and the target to
  the compiler, as lines of its output, and writes the build date to the file a release publishes.
  The crates dotenv and chrono, the environment and the file system are parameters.
\<close>

datatype ('d, 'w) build_error = Dotenv_Error 'd | Missing_Variable string | Write_Error 'w

record build_state =
  build_output :: "bytes list"
  build_files :: "(bytes \<times> bytes) list"

definition println :: "bytes \<Rightarrow> (build_state, unit, 'e) action" where
  "println line = modify (\<lambda>s. s\<lparr>build_output := build_output s @ [line]\<rparr>)"

record ('d, 'w) build_env =
  env_file_exists :: bool
  env_dotenv :: "'d + unit"
  env_vars :: "(bytes \<times> bytes) list"
  env_now_millis :: int
  env_var :: "string \<Rightarrow> bytes option"
  env_join :: "bytes \<Rightarrow> bytes \<Rightarrow> bytes"
  env_write :: "bytes \<Rightarrow> bytes \<Rightarrow> 'w + unit"

definition rustc_env :: "bytes \<Rightarrow> bytes \<Rightarrow> bytes" where
  "rustc_env key val = ascii ''cargo::rustc-env='' @ key @ ascii ''='' @ val"

primrec export_vars :: "(bytes \<times> bytes) list \<Rightarrow> (build_state, unit, 'e) action" where
  "export_vars [] = ret ()"
| "export_vars (kv # kvs) = tryA (println (rustc_env (fst kv) (snd kv))) (\<lambda>_. export_vars kvs)"

definition load_env_file :: "('d, 'w) build_env \<Rightarrow> (build_state, unit, ('d, 'w) build_error) action" where
  "load_env_file env =
     (if env_file_exists env then
        tryA (external Dotenv_Error (\<lambda>s. (env_dotenv env, s))) (\<lambda>_. export_vars (env_vars env))
      else ret ())"

definition write_file :: "('d, 'w) build_env \<Rightarrow> bytes \<Rightarrow> bytes \<Rightarrow> (build_state, unit, ('d, 'w) build_error) action" where
  "write_file env path content =
     external Write_Error (\<lambda>s. case env_write env path content of
         Inr _ \<Rightarrow> (Inr (), s\<lparr>build_files := build_files s @ [(path, content)]\<rparr>)
       | Inl e \<Rightarrow> (Inl e, s))"

definition build_main :: "('d, 'w) build_env \<Rightarrow> (build_state, unit, ('d, 'w) build_error) action" where
  "build_main env =
     tryA (load_env_file env) (\<lambda>_.
     tryA (println (rustc_env (ascii ''BUILD_DATE'') (show_i64 (env_now_millis env)))) (\<lambda>_.
     tryA (ok_or (Missing_Variable ''OUT_DIR'') (env_var env ''OUT_DIR'')) (\<lambda>out_dir.
     tryA (write_file env (env_join env out_dir (ascii ''BUILD_DATE'')) (build_date_file (env_now_millis env))) (\<lambda>_.
     tryA (ok_or (Missing_Variable ''TARGET'') (env_var env ''TARGET'')) (\<lambda>target.
     println (ascii ''cargo:rustc-env=TARGET_TRIPLE='' @ target))))))"

text \<open>The constant the firmware parses from the variable; \<open>None\<close> fails the build.\<close>

definition BUILD_DATE_const :: "bytes \<Rightarrow> int option" where
  "BUILD_DATE_const var = (case parse_i64 var of Inr v \<Rightarrow> Some v | Inl _ \<Rightarrow> None)"

lemma export_vars_run:
  "export_vars kvs s = (Ok (), s\<lparr>build_output := build_output s @ map (\<lambda>(k, v). rustc_env k v) kvs\<rparr>)"
  by (induction kvs arbitrary: s) (simp_all add: ret_def println_def modify_def tryA_def split_beta)

text \<open>A build that succeeds embeds and publishes the same date: the last value handed to the compiler for the
  build date and the content of the file both are the text of the moment of the build, and the firmware
  reads this moment from it; an older value in the .env file comes before it.\<close>

theorem build_embeds_published_date:
  assumes "build_main env \<lparr>build_output = [], build_files = []\<rparr> = (Ok u, s)" "in_i64 (env_now_millis env)"
  shows "\<exists>date target path. build_files s = [(path, date)] \<and> BUILD_DATE_const date = Some (env_now_millis env) \<and>
    build_output s =
      (if env_file_exists env then map (\<lambda>(k, v). rustc_env k v) (env_vars env) else []) @
      [rustc_env (ascii ''BUILD_DATE'') date, ascii ''cargo:rustc-env=TARGET_TRIPLE='' @ target]"
proof -
  let ?date = "show_i64 (env_now_millis env)"
  have "parse_i64 ?date = Inr (env_now_millis env)" by (rule parse_i64_show_i64 [OF assms(2)])
  with assms(1) show ?thesis
    by - (rule exI [of _ ?date],
      auto simp: build_main_def load_env_file_def write_file_def action_simps println_def export_vars_run
        BUILD_DATE_const_def build_date_file_def ok_or_def split: if_splits option.splits sum.splits)
qed

theorem build_embeds_published_date_witness:
  "\<exists>s. build_main \<lparr>env_file_exists = True, env_dotenv = Inr (), env_vars = [(ascii ''SSID'', [0x61])],
       env_now_millis = 1751367600000, env_var = (\<lambda>_. Some [0x62]), env_join = (\<lambda>d f. d @ f), env_write = (\<lambda>_ _. Inr ())\<rparr>
     \<lparr>build_output = [], build_files = []\<rparr> = (Ok () :: (unit, (unit, unit) build_error) outcome, s) \<and>
     map snd (build_files s) = [show_i64 1751367600000]"
proof -
  let ?env = "\<lparr>env_file_exists = True, env_dotenv = Inr (), env_vars = [(ascii ''SSID'', [0x61])],
       env_now_millis = 1751367600000, env_var = (\<lambda>_. Some [0x62]), env_join = (\<lambda>d f. d @ f), env_write = (\<lambda>_ _. Inr ())\<rparr>
     :: (unit, unit) build_env"
  obtain s where run: "build_main ?env \<lparr>build_output = [], build_files = []\<rparr> = (Ok (), s)"
    "build_files s = [([0x62] @ ascii ''BUILD_DATE'', show_i64 1751367600000)]"
    by (simp add: build_main_def load_env_file_def write_file_def println_def export_vars_run ok_or_def ret_def modify_def
        external_def tryA_def build_date_file_def)
  with build_embeds_published_date [OF run(1)] show ?thesis by (simp add: in_i64_def)
qed

end
