(* ===== verification/Logging.thy ===== *)
theory Logging
  imports Controller
begin

text \<open>
  The logger (src/logging.rs): its installation, the filter by level and target, and the line
  it prints. The registry of the crate log, which remembers the logger and the maximum level,
  is the state; parsing a level (\<open>LevelFilter::from_str\<close>) and its names are parameters.
\<close>

section \<open>Levels\<close>

text \<open>The levels the logger distinguishes; a filter is a level or \<open>Off\<close>, and lets through the levels up to it.\<close>

datatype log_level = Error_Level | Warn_Level | Info_Level | Debug_Level | Trace_Level

datatype level_filter = Off | Up_To log_level

instantiation log_level :: linorder
begin

fun verbosity :: "log_level \<Rightarrow> nat" where
  "verbosity Error_Level = 1"
| "verbosity Warn_Level = 2"
| "verbosity Info_Level = 3"
| "verbosity Debug_Level = 4"
| "verbosity Trace_Level = 5"

definition less_eq_log_level :: "log_level \<Rightarrow> log_level \<Rightarrow> bool" where
  "less_eq_log_level a b \<longleftrightarrow> verbosity a \<le> verbosity b"

definition less_log_level :: "log_level \<Rightarrow> log_level \<Rightarrow> bool" where
  "less_log_level a b \<longleftrightarrow> verbosity a < verbosity b"

instance
proof
  fix a b :: log_level
  show "a \<le> b \<Longrightarrow> b \<le> a \<Longrightarrow> a = b"
    by (cases a; cases b) (simp_all add: less_eq_log_level_def)
qed (auto simp: less_eq_log_level_def less_log_level_def)

end

fun lets_through :: "level_filter \<Rightarrow> log_level \<Rightarrow> bool" where
  "lets_through Off level = False"
| "lets_through (Up_To m) level = (level \<le> m)"

section \<open>The logger\<close>

record registry =
  logger_set :: bool
  max_level :: level_filter

definition escape :: "string \<Rightarrow> bytes" where
  "escape code = 0x1B # ascii code"

definition NC :: bytes where "NC = escape ''[0m''"
definition DIM :: bytes where "DIM = escape ''[2m''"
definition RED :: bytes where "RED = escape ''[31m''"
definition GREEN :: bytes where "GREEN = escape ''[32m''"
definition YELLOW :: bytes where "YELLOW = escape ''[33m''"
definition BLUE :: bytes where "BLUE = escape ''[34m''"
definition CYAN :: bytes where "CYAN = escape ''[35m''"

text \<open>\<open>accepted\<close> is whether the registry takes the logger, \<open>LEVEL\<close> the level compiled in.\<close>

definition logging_setup :: "bool \<Rightarrow> (bytes \<Rightarrow> level_filter option) \<Rightarrow> bytes option \<Rightarrow> registry \<Rightarrow> registry" where
  "logging_setup accepted from_str LEVEL g =
     (if \<not> accepted then g
      else let g = g\<lparr>logger_set := True\<rparr>
           in case LEVEL of
                None \<Rightarrow> g
              | Some level \<Rightarrow> g\<lparr>max_level := (case from_str level of Some f \<Rightarrow> f | None \<Rightarrow> Off)\<rparr>)"

definition starts_with :: "bytes \<Rightarrow> bytes \<Rightarrow> bool" where
  "starts_with s p \<longleftrightarrow> take (length p) s = p"

definition enabled :: "registry \<Rightarrow> bytes \<Rightarrow> log_level \<Rightarrow> bool" where
  "enabled g target level =
     (if starts_with target (ascii ''esp_wifi'') then level \<le> Info_Level
      else lets_through (max_level g) level)"

definition level_color :: "log_level \<Rightarrow> bytes" where
  "level_color level =
     (case level of
        Error_Level \<Rightarrow> RED
      | Warn_Level \<Rightarrow> YELLOW
      | Info_Level \<Rightarrow> GREEN
      | Debug_Level \<Rightarrow> BLUE
      | Trace_Level \<Rightarrow> CYAN)"

text \<open>\<open>{:>5}\<close>: filled up with spaces on the left to five characters.\<close>

definition right5 :: "bytes \<Rightarrow> bytes" where
  "right5 s = replicate (5 - length s) 0x20 @ s"

text \<open>The line printed for a record, or none.\<close>

definition log_line :: "(log_level \<Rightarrow> bytes) \<Rightarrow> registry \<Rightarrow> bytes \<Rightarrow> log_level \<Rightarrow> bytes \<Rightarrow> bytes option" where
  "log_line level_name g target level args =
     (let color = level_color level in
      if enabled g target level then
        Some (color @ right5 (level_name level) @ [0x20] @ NC @ DIM @ target @ DIM @ ascii '']'' @ NC @ [0x20] @
          args @ [0x0A])
      else None)"

section \<open>Properties\<close>

text \<open>Once the logger is installed, a record of the radio library is printed up to the level info, whatever
  was configured, and any other up to the configured level; a level that does not parse
  silences everything else. A line that is printed resets the colours before the message and ends in
  a newline, so that no message is coloured by the lines around it.\<close>

theorem configured_filter:
  assumes "logging_setup True from_str (Some configured_level) g = g'"
  shows "(log_line level_name g' target level args \<noteq> None \<longleftrightarrow>
      (if starts_with target (ascii ''esp_wifi'') then level \<in> {Error_Level, Warn_Level, Info_Level}
       else \<exists>m. from_str configured_level = Some (Up_To m) \<and> level \<le> m)) \<and>
    (\<forall>line. log_line level_name g' target level args = Some line \<longrightarrow>
      (\<exists>front. line = front @ NC @ [0x20] @ args @ [0x0A]))"
proof -
  have info: "level \<le> Info_Level \<longleftrightarrow> level \<in> {Error_Level, Warn_Level, Info_Level}"
    by (cases level) (simp_all add: less_eq_log_level_def)
  have g': "max_level g' = (case from_str configured_level of Some f \<Rightarrow> f | None \<Rightarrow> Off)"
    using assms by (auto simp: logging_setup_def)
  have "lets_through (max_level g') level \<longleftrightarrow> (\<exists>m. from_str configured_level = Some (Up_To m) \<and> level \<le> m)"
    unfolding g' by (cases "from_str configured_level") (auto elim: lets_through.elims)
  then show ?thesis
    using info by (auto simp: log_line_def enabled_def Let_def)
qed

theorem configured_filter_witness:
  "log_line (\<lambda>_. ascii ''WARN'') (logging_setup True (\<lambda>_. Some (Up_To Warn_Level)) (Some (ascii ''warn'')) \<lparr>logger_set = False, max_level = Off\<rparr>)
     (ascii ''ota'') Warn_Level (ascii ''hi'') \<noteq> None"
  using configured_filter [where from_str = "\<lambda>_. Some (Up_To Warn_Level)" and configured_level = "ascii ''warn''" and
      g = "\<lparr>logger_set = False, max_level = Off\<rparr>" and level_name = "\<lambda>_. ascii ''WARN''" and
      target = "ascii ''ota''" and level = Warn_Level and args = "ascii ''hi''", OF refl]
  by (simp add: starts_with_def ascii_def)

end
