(* ===== verification/Panic_Free.thy ===== *)
theory Panic_Free
  imports Boot_Properties Credentials_Type
begin

text \<open>
  When a start panics. A panic is worse than an error: after an error \<open>main\<close> in src/bin/blind.rs sleeps and starts again,
  a panic is left to the handler of the library esp_backtrace. The analysis has a rule per combinator (\<open>never_panics\<close>, for
  actions that panic in no state) and equations that find the call a panic of a sequence of calls comes from.
\<close>

section \<open>Rules\<close>

definition never_panics :: "('s, 'a, 'e) action \<Rightarrow> bool" where
  "never_panics m \<longleftrightarrow> (\<forall>s. fst (m s) \<noteq> Panic)"

named_theorems never_panics_intros

lemma never_panicsD: "never_panics m \<Longrightarrow> m s \<noteq> (Panic, t)"
  unfolding never_panics_def by (metis fst_conv)

lemma never_panicsI: "(\<And>s t. m s \<noteq> (Panic, t)) \<Longrightarrow> never_panics m"
  unfolding never_panics_def by (metis prod.collapse)

lemma never_panics_simple [never_panics_intros]:
  "never_panics (ret a)" "never_panics (fail e)" "never_panics (get_state f)" "never_panics (modify g)"
  "never_panics (external conv x)" "never_panics (ok_or e v)"
  by (auto intro!: never_panicsI simp: ret_eq fail_eq get_state_eq modify_eq external_no_panic ok_or_run)

lemma never_panics_tryA [never_panics_intros]:
  "never_panics m \<Longrightarrow> (\<And>a. never_panics (k a)) \<Longrightarrow> never_panics (tryA m k)"
  by (rule never_panicsI) (auto simp: tryA_Panic_iff dest: never_panicsD)

lemma never_panics_map_err [never_panics_intros]: "never_panics m \<Longrightarrow> never_panics (map_err conv m)"
  by (rule never_panicsI) (auto simp: map_err_Panic_iff dest: never_panicsD)

lemma never_panics_zoom [never_panics_intros]: "never_panics m \<Longrightarrow> never_panics (zoom g p m)"
  by (rule never_panicsI) (auto simp: zoom_eq dest: never_panicsD)

lemma never_panics_if [never_panics_intros]:
  "(b \<Longrightarrow> never_panics m) \<Longrightarrow> (\<not> b \<Longrightarrow> never_panics n) \<Longrightarrow> never_panics (if b then m else n)"
  by simp

text \<open>The call a panic comes from.\<close>

named_theorems panic_simps "the call of a sequence that a panic comes from"

lemmas [panic_simps] = tryP_Panic errP_Panic tryA_Panic_iff zoomP_iff returning_iff zoom_eq map_err_Panic_iff ret_eq modify_eq

section \<open>A body longer than announced\<close>

text \<open>
  Chunks that are read and consumed from \<open>w\<close> on, up to any point of the body; and a response whose next chunk takes the
  total over the length it announced (or over the 20 MiB that are assumed when it announces none), where the total is
  counted in 32 bits.
\<close>

inductive part_read :: "('w, 'x) http_ops \<Rightarrow> 'w \<Rightarrow> bytes list \<Rightarrow> 'w \<Rightarrow> bool" for h where
  nothing: "part_read h w [] w"
| consumed: "hc_fill_buf h w = Some (Inr b, w1) \<Longrightarrow> b \<noteq> [] \<Longrightarrow> part_read h (hc_consume h (length b) w1) cs w' \<Longrightarrow>
    part_read h w (b # cs) w'"

definition exceeds :: "('w, 'x) http_ops \<Rightarrow> usize \<Rightarrow> usize \<Rightarrow> 'w \<Rightarrow> bool" where
  "exceeds h cl tot w \<longleftrightarrow>
     (\<exists>cs w1 b w2. part_read h w cs w1 \<and> hc_fill_buf h w1 = Some (Inr b, w2) \<and> b \<noteq> [] \<and>
       tot + of_nat (length (concat cs @ b)) > cl)"

definition overlong_response :: "('w, 'x) http_ops \<Rightarrow> bytes \<Rightarrow> bool" where
  "overlong_response h url \<longleftrightarrow> (\<exists>w cl w'. final_response h url w cl w' \<and> exceeds h cl 0 w')"

lemma exceeds_now:
  "hc_fill_buf h w = Some (Inr b, w') \<Longrightarrow> b \<noteq> [] \<Longrightarrow> tot + of_nat (length b) > cl \<Longrightarrow> exceeds h cl tot w"
  unfolding exceeds_def by (intro exI [of _ "[]"] exI conjI, rule nothing) simp_all

lemma exceeds_later:
  assumes "hc_fill_buf h w = Some (Inr b, w1)" "b \<noteq> []" "exceeds h cl (tot + of_nat (length b)) (hc_consume h (length b) w1)"
  shows "exceeds h cl tot w"
proof -
  from assms(3) obtain cs w2 c w3 where c: "part_read h (hc_consume h (length b) w1) cs w2"
    "hc_fill_buf h w2 = Some (Inr c, w3)" "c \<noteq> []" "tot + of_nat (length b) + of_nat (length (concat cs @ c)) > cl"
    unfolding exceeds_def by blast
  then have "tot + of_nat (length (concat (b # cs) @ c)) > cl" by (simp add: add.assoc)
  with consumed [OF assms(1,2) c(1)] c(2,3) show ?thesis unfolding exceeds_def by blast
qed

text \<open>Where a download panics: in the callback, or at such a chunk.\<close>

lemma body_loop_panics_aux:
  "body_loop h f cl tot s = Some r \<Longrightarrow> fst r = Panic \<longrightarrow>
    (\<exists>cs. callbacks f cs (snd s) = (Panic, snd (snd r)) \<and> (\<forall>c\<in>set cs. \<exists>w w'. hc_fill_buf h w = Some (Inr c, w'))) \<or>
    exceeds h cl tot (fst s)"
proof (induction rule: body_loop.raw_induct [rotated, consumes 1, case_names step])
  case (step loop h f cl tot s r)
  let ?filled = "\<lambda>cs. \<forall>c\<in>set cs. \<exists>w w'. hc_fill_buf h w = Some (Inr c, w')"
  from step(2) obtain q s1 where run: "body_step h f cl tot s = Some (q, s1)" by (cases "body_step h f cl tot s") auto
  from run show ?case
  proof (cases rule: body_step_cases)
    case (too_long b w')
    then show ?thesis using exceeds_now [OF too_long(1-3)] by blast
  next
    case (callback b w1 o' c')
    show ?thesis
    proof
      assume "fst r = Panic"
      with step(2) run callback(5,6,7) have "o' = Panic" "snd (snd r) = c'" by (auto split: outcome.splits)
      with callback(4) have "callbacks f [b] (snd s) = (Panic, snd (snd r))" by simp
      moreover have "?filled [b]" using callback(1) by auto
      ultimately show "(\<exists>cs. callbacks f cs (snd s) = (Panic, snd (snd r)) \<and> ?filled cs) \<or> exceeds h cl tot (fst s)"
        by blast
    qed
  next
    case (next_chunk b w1 c')
    have "loop h f cl (tot + of_nat (length b)) s1 = Some r" using step(2) run next_chunk(5) by simp
    note IH = step(1) [OF this]
    show ?thesis
    proof
      assume "fst r = Panic"
      with IH consider (called) cs where "callbacks f cs (snd s1) = (Panic, snd (snd r))" "?filled cs"
        | (over) "exceeds h cl (tot + of_nat (length b)) (fst s1)" by blast
      then show "(\<exists>cs. callbacks f cs (snd s) = (Panic, snd (snd r)) \<and> ?filled cs) \<or> exceeds h cl tot (fst s)"
      proof cases
        case called
        with next_chunk have "callbacks f (b # cs) (snd s) = (Panic, snd (snd r)) \<and> ?filled (b # cs)" by auto
        then show ?thesis by blast
      next
        case over
        with exceeds_later [OF next_chunk(1,2)] next_chunk(6) show ?thesis by simp
      qed
    qed
  qed (use run step(2) in auto)
qed

lemma buffered_loop_panics_aux:
  "buffered_loop h f url s = Some r \<Longrightarrow> fst r = Panic \<longrightarrow>
    (\<exists>cs. callbacks f cs (snd s) = (Panic, snd (snd r)) \<and> (\<forall>c\<in>set cs. \<exists>w w'. hc_fill_buf h w = Some (Inr c, w'))) \<or>
    (\<exists>cl w'. final_response h url (fst s) cl w' \<and> exceeds h cl 0 w')"
proof (induction rule: buffered_loop.raw_induct [rotated, consumes 1, case_names step])
  case (step loop h f url s r)
  from step(2) obtain q w' where run: "buffered_step h url (fst s) = Some (q, w')" by (cases "buffered_step h url (fst s)") auto
  show ?case
  proof (cases q)
    case (Ok x)
    show ?thesis
    proof (cases x)
      case (Inl u)
      with Ok run step(2) have "loop h f u (w', snd s) = Some r" by simp
      from step(1) [OF this] redirected [OF run [unfolded Ok Inl]] show ?thesis by fastforce
    next
      case (Inr cl)
      with Ok run step(2) have "body_loop h f cl 0 (w', snd s) = Some r" by simp
      from body_loop_panics_aux [OF this] answered [OF run [unfolded Ok Inr]] show ?thesis by fastforce
    qed
  next
    case Panic
    with run buffered_step_no_panic show ?thesis by metis
  qed (use run step(2) in auto)
qed

lemma req_buffered_panics:
  assumes "req_buffered h random url f s = Some (Panic, c', st')"
  obtains (in_callback) cs where "callbacks f cs (snd s) = (Panic, st')" "\<forall>c\<in>set cs. \<exists>w w'. hc_fill_buf h w = Some (Inr c, w')"
  | (too_long) "overlong_response h url"
proof -
  obtain w1 where "buffered_loop h f url (http_stack (http_connect h random (fst s)), snd s) = Some (Panic, w1, st')"
    using assms by (auto simp: req_buffered_def Let_def to_url_string_cases split: if_splits)
  from buffered_loop_panics_aux [OF this] that show ?thesis by (auto simp: overlong_response_def)
qed

lemma req_no_panic: "req h random n url c \<noteq> Some (Panic, c')"
  by (auto simp: req_def to_url_string_cases Let_def dest: req_loop_result split: if_splits)

section \<open>A start\<close>

lemma parse_no_panic:
  "never_panics (tryA (parse_build_date bytes) (\<lambda>v. tryA (ok_or InvalidEpochDate (timestamp v)) (\<lambda>_. ret v)))"
  unfolding parse_build_date_def by (intro never_panics_intros) (auto intro: never_panics_intros split: sum.split)

lemma fetch_no_panic: "fetch_build_date timestamp h random url c \<noteq> Some (Panic, c')"
  by (auto simp: fetch_build_date_def tryP_Panic errP_Panic returning_iff req_no_panic
      never_panicsD [OF parse_no_panic])

lemma wifi_connect_no_panic: "never_panics (wifi_connect dev random ssid password)"
proof (rule never_panicsI)
  fix s t
  let ?m = "\<lambda>seed. tryA (on_world (external WifiInitialization (wf_init dev))) (\<lambda>_.
         tryA (on_cache (forget_other_ssid ssid)) (\<lambda>_.
         tryA (\<lambda>s. if last_bssid (wf_cache s) \<noteq> None
                   then radio (wf_new_with_config dev (cached_config ssid password (wf_cache s))) s
                   else radio (wf_new_with_mode dev) s) (\<lambda>_ s.
           let (config, c) = choose_net_config (wf_cache s)
           in ret config (s\<lparr>wf_cache := c, wf_world := wf_new_stack dev config seed (wf_world s)\<rparr>))))"
  have "never_panics (?m seed)" for seed
    by (intro never_panics_intros; rule never_panicsI)
      (auto simp: zoom_eq external_no_panic ret_eq split: if_splits prod.splits)
  then show "wifi_connect dev random ssid password s \<noteq> (Panic, t)"
    by (auto simp: wifi_connect_def dest: never_panicsD split: prod.splits)
qed

lemma resolve_no_panic: "resolve_server env s \<noteq> Some (Panic, t)"
  by (auto simp: resolve_server_def new_from_dns_def panic_simps awaits_iff fail_eq split: list.splits ip_address.splits)

lemma install_update_panics:
  fixes c' :: "('w, 'r) http_client"
  assumes ok: "ota_ok d view good s" and small: "small_chunks h"
    and run: "install_update crcf d h random url (c, s) =
      Some (Panic :: (unit, ('y, 'n, 'h, 'i, 'x) blind_error) outcome, c', t)"
  shows "\<not> decisions_agree crcf (ota_entries view s SlotZero) (ota_entries view s SlotOne) \<or> overlong_response h url"
proof -
  from run consider (at_prepare) "prepare_for_update crcf d s = (Panic, t)"
    | (at_download) o1 where "prepare_for_update crcf d s = (Ok (), o1)"
        "req_buffered h random url (write_update d) (c, o1) = Some (Panic, c', t)"
    | (at_commit) o1 c1 o2 where "prepare_for_update crcf d s = (Ok (), o1)"
        "req_buffered h random url (write_update d) (c, o1) = Some (Ok (), c1, o2)"
        "commit_update crcf d o2 = (Panic, t)"
    unfolding install_update_def by (auto simp: panic_simps errP_Ok map_err_Ok_iff)
  then show ?thesis
  proof cases
    case at_prepare
    with prepare_for_update_frame [OF ok at_prepare] show ?thesis by simp
  next
    case at_download
    from at_download(2) show ?thesis
    proof (cases rule: req_buffered_panics)
      case (in_callback cs)
      then have "write_chunks d cs o1 = (Panic, t)" by (simp add: callbacks_write_update)
      from chunks_after_prepare(3) [OF ok at_download(1) small_chunks_all [OF small in_callback(2)] this] show ?thesis by simp
    qed simp
  next
    case at_commit
    let ?slot = "choose_update_slot crcf (ota_entries view s SlotZero) (ota_entries view s SlotOne)"
    from download_confined [OF ok small at_commit(1,2)] have d: "ota_ok d view good o2" "offset_in_slot o2 ?slot"
      "ota_entries view o2 = ota_entries view s" by simp_all
    then have "set_current_slot crcf d ?slot (o2\<lparr>update_state := None\<rparr>) = (Panic, t)"
      using at_commit(3) by (auto simp: commit_update_def offset_in_slot_def)
    from set_current_slot_Panic [OF _ this, of view good] d have
      "snd (choose_commit crcf (ota_entries view s SlotZero) (ota_entries view s SlotOne)) \<noteq> ?slot"
      by (simp add: ota_ok_def ota_entries_def)
    then show ?thesis by (simp add: decisions_agree_iff)
  qed
qed

lemma check_for_update_panics:
  fixes env :: "('f, 'y, 'w, 'am, 'cfg, 'i, 'x, 'r, 'h, 'n, 'o, 'dt, 'd, 't, 'bd, 'c) boot_env"
  assumes ok: "flash_ok (be_flash env) view good (dv_flash s)" and small: "small_chunks (be_http env)"
    and run: "check_for_update env s = Some (Panic, t)"
  shows "\<exists>v. published env v \<and> be_build_date env < v \<and>
    (\<not> decisions_agree (be_crc env) (stored_entry (view (dv_flash s)) SlotZero) (stored_entry (view (dv_flash s)) SlotOne) \<or>
     overlong_response (be_http env) (FIRMWARE_URL (be_target env)))"
proof -
  from run obtain v c c1 o1 where f: "fetch_build_date (be_timestamp env) (be_http env) (be_random env)
      (BUILD_DATE_URL (be_target env)) (http_of s) =
        Some (Ok v :: (int, ('y, 'n, 'h, 'i, 'x) blind_error) outcome, c)"
    and v: "be_build_date env < v"
    and i: "install_update (be_crc env) (be_flash env) (be_http env) (be_random env) (FIRMWARE_URL (be_target env))
      (http_of (http_to c s), ota_new (dv_flash s)) =
        Some (Panic :: (unit, ('y, 'n, 'h, 'i, 'x) blind_error) outcome, c1, o1)"
    unfolding check_for_update_def by (auto simp: panic_simps fetch_no_panic split: if_splits)
  from fetch_build_date_Ok [OF f] have "published env v" unfolding published_def by metis
  moreover have "ota_ok (be_flash env) view good (ota_new (dv_flash s))"
    using ok by (simp add: ota_ok_def ota_new_def)
  note install_update_panics [OF this small i]
  ultimately show ?thesis using v by (auto simp: ota_entries_def ota_new_def)
qed

lemma await_no_panic: "await_connection dev s \<noteq> Some (Panic, t)"
  by (auto simp: await_connection_def)

lemma start_after_credentials_panics:
  fixes env :: "('f, 'y, 'w, 'am, 'cfg, 'i, 'x, 'r, 'h, 'n, 'o, 'dt, 'd, 't, 'bd, 'c) boot_env"
  assumes "start_after_credentials env ssid password coordinates s = Some (Panic, t)"
  obtains s1 u where "same_storage s s1" "check_for_update env s1 = Some (Panic, u)"
proof -
  have connect: "never_panics (on_wifi (map_err Wifi_Error (wifi_connect dev random ssid password)))" for dev random
    by (intro never_panics_intros wifi_connect_no_panic)
  from assms obtain s1 s2 config where
    c: "returning (on_wifi (map_err Wifi_Error (wifi_connect (be_wifi env) (be_random env) ssid password))) s =
        Some (Ok config :: ('cfg net_config, ('y, 'n, 'h, 'i, 'x) blind_error) outcome, s1)"
    and a: "await_connection (be_wifi env) s1 = Some (Ok () :: (unit, ('y, 'n, 'h, 'i, 'x) blind_error) outcome, s2)"
    and u: "check_for_update env s2 = Some (Panic, t)"
    unfolding start_after_credentials_def tryP_Panic returning_iff modify_eq ret_eq
    by (auto simp: await_no_panic never_panicsD [OF connect] resolve_no_panic)
  from same_storage_trans [OF on_wifi_same_storage [OF c] await_same_storage [OF a]] u show ?thesis by (rule that)
qed

text \<open>The causes of a panic of a start.\<close>

definition start_panics ::
  "(select_entry_slot \<Rightarrow> ota_select_entry) \<Rightarrow>
   ('f, 'y, 'w, 'am, 'cfg, 'i, 'x, 'r, 'h, 'n, 'o, 'dt, 'd, 't, 'bd, 'c) boot_env \<Rightarrow> bool" where
  "start_panics es env \<longleftrightarrow>
     be_timestamp env (be_build_date env) = None \<or> be_coordinates env = None \<or>
     (\<exists>v. published env v \<and> be_build_date env < v \<and>
       (\<not> decisions_agree (be_crc env) (es SlotZero) (es SlotOne) \<or>
        overlong_response (be_http env) (FIRMWARE_URL (be_target env))))"

lemma main_fallible_panics:
  fixes env :: "('f, 'y, 'w, 'am, 'cfg, 'i, 'x, 'r, 'h, 'n, 'o, 'dt, 'd, 't, 'bd, 'c) boot_env"
  assumes ok: "flash_ok (be_flash env) view good (dv_flash s)" and small: "small_chunks (be_http env)"
    and run: "main_fallible env s = Some (Panic, t)"
  shows "start_panics (stored_entry (view (dv_flash s))) env"
proof (rule ccontr)
  assume no: "\<not> ?thesis"
  have creds: "get_credentials (be_flash env) (be_ssid env) (be_password env) n \<noteq>
      (Panic :: (bytes \<times> bytes, ('y, 'n, 'h, 'i, 'x) blind_error) outcome, n')" for n n'
    using credential_errorsD [OF credential_errors_get, of "be_flash env" "be_ssid env" "be_password env" n Panic n'] by auto
  from no run creds obtain coordinates ssid password n where
    n: "get_credentials (be_flash env) (be_ssid env) (be_password env) (nvs_new (dv_flash s)) =
        (Ok (ssid, password) :: (bytes \<times> bytes, ('y, 'n, 'h, 'i, 'x) blind_error) outcome, n)"
    and start: "start_after_credentials env ssid password coordinates (s\<lparr>dv_flash := nvs_flash n\<rparr>) = Some (Panic, t)"
    unfolding main_fallible_def start_panics_def by (auto simp: panic_simps expect_iff split: option.splits)
  note n = get_credentials_flash [OF ok n]
  from start obtain s1 u where "same_storage (s\<lparr>dv_flash := nvs_flash n\<rparr>) s1"
    and c: "check_for_update env s1 = Some (Panic, u)" by (rule start_after_credentials_panics)
  then have s1: "dv_flash s1 = nvs_flash n" by (simp add: same_storage_def)
  from check_for_update_panics [OF _ small c, of view good] n no show False
    unfolding s1 start_panics_def nvs_only_stored_entry [OF n(2)] by blast
qed

end
