(* ===== verification/Panic_Properties.thy ===== *)
theory Panic_Properties
  imports Panic_Free Life_Update
begin

text \<open>
  The properties of starts that panic: the causes of a panic, the devices for which there is none over their whole life, and
  the devices that can do nothing else.
\<close>

section \<open>Entries that do not agree\<close>

text \<open>A commit whose decision differs from that of the preparation writes nothing.\<close>

lemma set_current_slot_disagrees:
  assumes ok: "ota_ok d view good s" and run: "set_current_slot crcf d expected s = (r, t)"
    and other: "snd (choose_commit crcf (ota_entries view s SlotZero) (ota_entries view s SlotOne)) \<noteq> expected"
  shows "view (ota_flash t) = view (ota_flash s)" "r \<noteq> Ok ()"
proof -
  obtain q u where rd: "get_ota_entries d s = (q, u)" by (rule prod.exhaust)
  note u = reads_onlyD [OF reads_only_get_ota_entries ok rd]
  have "t = u \<and> r \<noteq> Ok ()"
  proof (cases "\<exists>e0 e1. q = Ok (e0, e1)")
    case True
    then obtain e0 e1 where q: "get_ota_entries d s = (Ok (e0, e1), u)" using rd by blast
    with get_ota_entries_Ok [OF ok q] set_current_slot_decision [OF q, of crcf expected] run other show ?thesis by simp
  next
    case False
    with rd run show ?thesis by (cases q) (auto simp: set_current_slot_def tryA_def)
  qed
  with u show "view (ota_flash t) = view (ota_flash s)" "r \<noteq> Ok ()" by simp_all
qed

lemma install_update_disagrees:
  fixes r :: "(unit, ('y, 'n, 'h, 'i, 'x) blind_error) outcome"
  assumes ok: "ota_ok d view good s" and small: "small_chunks h"
    and run: "install_update crcf d h random url (c, s) = Some (r, c', t)"
    and no: "\<not> decisions_agree crcf (ota_entries view s SlotZero) (ota_entries view s SlotOne)"
  shows "ota_entries view t = ota_entries view s \<and> r \<noteq> Ok ()"
proof -
  let ?slot = "choose_update_slot crcf (ota_entries view s SlotZero) (ota_entries view s SlotOne)"
  from run show ?thesis
  proof (cases rule: install_update_split)
    case (at_prepare q)
    with run have "r \<noteq> Ok ()" by (auto simp: install_update_def tryP_Ok returning_iff zoom_eq map_err_Ok_iff)
    with prepare_for_update_frame [OF ok at_prepare(1)] show ?thesis by (simp add: ota_entries_def)
  next
    case (at_download o1 q)
    with download_confined [OF ok small at_download(1,2)] show ?thesis by simp
  next
    case (at_commit o1 o2 q)
    note w = download_confined [OF ok small at_commit(1,2)]
    from w at_commit(3) have sc: "set_current_slot crcf d ?slot (o2\<lparr>update_state := None\<rparr>) = (q, t)"
      by (auto simp: commit_update_def offset_in_slot_def)
    have "snd (choose_commit crcf (ota_entries view s SlotZero) (ota_entries view s SlotOne)) \<noteq> ?slot"
      using no decisions_agree_iff by metis
    with set_current_slot_disagrees [OF _ sc, of view good] w at_commit(4) show ?thesis
      by (simp add: ota_ok_def ota_entries_def)
  qed
qed

section \<open>Devices without a valid entry\<close>

definition no_valid_entry :: "memory \<Rightarrow> bool" where
  "no_valid_entry m \<longleftrightarrow> (\<forall>slot. ota_state (stored_entry m slot) \<noteq> Valid)"

lemma no_valid_entry_disagrees:
  "no_valid_entry m \<Longrightarrow> \<not> decisions_agree crcf (stored_entry m SlotZero) (stored_entry m SlotOne)"
  by (simp add: no_valid_entry_def decisions_agree_def)

lemma no_valid_entry_nvs_only: "nvs_only m m' \<Longrightarrow> no_valid_entry m \<Longrightarrow> no_valid_entry m'"
  by (simp add: no_valid_entry_def nvs_only_stored_entry)

definition outdated :: "('f, 'y, 'w, 'am, 'cfg, 'i, 'x, 'r, 'h, 'n, 'o, 'dt, 'd, 't, 'bd, 'c) boot_env \<Rightarrow> bool" where
  "outdated env \<longleftrightarrow> (\<exists>v. publishes env v \<and> be_build_date env < v)"

lemma main_fallible_no_valid_entry:
  fixes env :: "('f, 'y, 'w, 'am, 'cfg, 'i, 'x, 'r, 'h, 'n, 'o, 'dt, 'd, 't, 'bd, 'c) boot_env"
  assumes ok: "flash_ok (be_flash env) view good (dv_flash s)" and small: "small_chunks (be_http env)"
    and run: "main_fallible env s = Some (r, t)" and no: "no_valid_entry (view (dv_flash s))"
  shows "no_valid_entry (view (dv_flash t)) \<and> (outdated env \<longrightarrow> (\<forall>x. r \<noteq> Ok x))"
  using ok run
proof (cases rule: main_fallible_flash)
  case no_install
  have "\<not> outdated env" if "r = Ok x" for x
    using no_install(3) [OF that] publishes_unique [of env] by (fastforce simp: outdated_def)
  with no_valid_entry_nvs_only [OF no_install(1) no] show ?thesis by blast
next
  case (installs f v c c' o' q)
  have fok: "ota_ok (be_flash env) view good (ota_new f)" using installs(1) by (simp add: ota_ok_def ota_new_def)
  have es: "ota_entries view (ota_new f) = stored_entry (view (dv_flash s))"
    using nvs_only_stored_entry [OF installs(2)] by (simp add: ota_entries_def ota_new_def fun_eq_iff)
  from install_update_disagrees [OF fok small installs(5), unfolded es] no_valid_entry_disagrees [OF no]
  have "ota_entries view o' = stored_entry (view (dv_flash s))" "q \<noteq> Ok ()" by blast+
  with no installs(6,7) show ?thesis by (auto simp: no_valid_entry_def ota_entries_def)
qed

lemma no_valid_entry_life:
  fixes fws :: "('f, 'y, 'w, 'am, 'cfg, 'i, 'x, 'r, 'h, 'n, 'o, 'dt, 'd, 't, 'bd, 'c) boot_env \<Rightarrow> bool"
  assumes fw: "\<forall>env. fws env \<longrightarrow> safe_firmware view good env"
    and s: "good (dv_flash s)" "no_valid_entry (view (dv_flash s))"
    and reach: "life_reach fws debug_on sol raise ch contents web s l"
  shows "good (dv_flash (lf_device l)) \<and> no_valid_entry (view (dv_flash (lf_device l)))"
proof -
  let ?R = "\<lambda>m m'. no_valid_entry m \<longrightarrow> no_valid_entry m'"
  have "good (dv_flash (lf_device l)) \<and> ?R (view (dv_flash s)) (view (dv_flash (lf_device l)))"
  proof (rule life_flash [where R = ?R and fws = fws])
    show "\<And>env. fws env \<Longrightarrow> safe_firmware view good env" using fw by blast
    fix env d t and r :: "(ntp_client \<times> 'c, ('y, 'n, 'h, 'i, 'x) blind_error) outcome"
    assume start: "fws env" "flash_ok (be_flash env) view good (dv_flash d)" "main_fallible env d = Some (r, t)"
      "?R (view (dv_flash s)) (view (dv_flash d))"
    with main_fallible_no_valid_entry [OF start(2) _ start(3)] fw show "?R (view (dv_flash s)) (view (dv_flash t))"
      by (simp add: safe_firmware_def)
  qed (use s(1) reach in simp_all)
  with s(2) show ?thesis by blast
qed

text \<open>C36: A device neither of whose entries is valid, such as one whose OTA data are erased, never comes to run its tasks as long
  as the published firmware is newer than the one it runs: over its whole life no start gets to them, the blind is not
  moved, and neither entry becomes valid.\<close>

theorem blank_device_never_runs:
  fixes fws :: "('f, 'y, 'w, 'am, 'cfg, 'i, 'x, 'r, 'h, 'n, 'o, 'dt, 'd, 't, 'bd, 'c) boot_env \<Rightarrow> bool"
  assumes fw: "\<forall>env. fws env \<longrightarrow> safe_firmware view good env \<and> outdated env"
    and s: "good (dv_flash s)" "\<forall>slot. ota_state (stored_entry (view (dv_flash s)) slot) \<noteq> Valid"
    and reach: "life_reach fws debug_on sol raise ch contents web s l"
  shows "lf_runs l = 0 \<and> lf_position l = 0 \<and> (\<forall>slot. ota_state (stored_entry (view (dv_flash (lf_device l))) slot) \<noteq> Valid)"
proof -
  have safe: "\<forall>env. fws env \<longrightarrow> safe_firmware view good env" using fw by blast
  have "no_valid_entry (view (dv_flash s))" using s(2) by (simp add: no_valid_entry_def)
  note life = no_valid_entry_life [OF safe s(1) this]
  from reach have "lf_runs l = 0 \<and> lf_position l = 0"
  proof (induction rule: life_reach.induct)
    case installed
    show ?case by simp
  next
    case (restarts l m)
    from restarts(2) show ?case
    proof (cases rule: life_step.cases)
      case (start_fails env r t us d)
      with restarts.IH show ?thesis by simp
    next
      case (start_runs env client coords t u d)
      from life [OF restarts(1)] safe start_runs(2)
      have ok: "flash_ok (be_flash env) view good (dv_flash (lf_device l))" "small_chunks (be_http env)"
        "no_valid_entry (view (dv_flash (lf_device l)))"
        by (simp_all add: safe_firmware_def flash_ok_def)
      from main_fallible_no_valid_entry [OF ok(1,2) start_runs(3) [unfolded firmware_main_Running] ok(3)] fw start_runs(2)
      show ?thesis by blast
    qed
  qed
  with life [OF reach] show ?thesis by (simp add: no_valid_entry_def)
qed

text \<open>The example device with erased OTA data.\<close>

abbreviation erased_device :: "(memory, release, unit, unit, unit) device" where
  "erased_device \<equiv> old_device\<lparr>dv_flash := erased_flash\<rparr>"

lemma erased_decision: "snd (choose_commit no_crc (stored_entry erased_flash SlotZero) (stored_entry erased_flash SlotOne)) = Slot1"
  by (cases "checksum_ok no_crc (stored_entry erased_flash SlotZero)";
      cases "checksum_ok no_crc (stored_entry erased_flash SlotOne)")
    (simp_all add: choose_commit_slot slot_by_state_def)

lemma erased_install:
  assumes f: "\<And>slot. stored_entry f slot = stored_entry erased_flash slot"
  shows "\<exists>c' o'. install_update no_crc ram_flash release_server unit_random (FIRMWARE_URL ''t'') (c, ota_new f) =
    Some (Panic :: (unit, (unit, unit, unit, unit, unit) blind_error) outcome, c', o')"
proof -
  let ?o = "\<lparr>ota_flash = f, update_state = Some (Slot0, 0)\<rparr>"
  let ?o2 = "\<lparr>ota_flash = poke f 0x10000 [1, 2, 3], update_state = Some (Slot0, 3)\<rparr>"
  have p: "prepare_for_update no_crc ram_flash (ota_new f) = (Ok (), ?o)"
    by (simp add: prepare_for_update_def ram_update_slot ota_new_def choose_update_slot_def f tryA_def modify_def)
  have "buffered_step release_server (FIRMWARE_URL ''t'') w = Some (Ok (Inr 3), (FIRMWARE_URL ''t'', [[1, 2], [3]]))" for w
    by (simp add: buffered_step_def tryA_def ret_def)
  then have b: "req_buffered release_server unit_random (FIRMWARE_URL ''t'') (write_update ram_flash) (c, ?o) =
      Some (Ok (), c\<lparr>http_stack := (FIRMWARE_URL ''t'', [])\<rparr>, ?o2)"
    by (simp add: req_buffered_def to_url_string_run release_urls_ok release_body)
  have "\<exists>o'. commit_update no_crc ram_flash ?o2 = (Panic, o')"
    by (simp add: commit_update_def set_current_slot_decision erased_decision stored_entry_poke_app f)
  with p b show ?thesis
    by (auto simp: install_update_def tryP_def returning_def zoom_def map_err_def errP_def)
qed

lemma erased_start_panics: "\<exists>t. main_fallible release_env erased_device =
    Some (Panic :: (ntp_client \<times> unit, (unit, unit, unit, unit, unit) blind_error) outcome, t)"
proof (rule release_main_check [where f = erased_flash and b = 2023 and k = "dv_clock old_device"])
  have e: "release_env\<lparr>be_build_date := 2023\<rparr> = release_env" by (simp add: release_env_def)
  have d: "old_device\<lparr>dv_flash := erased_flash, dv_clock := dv_clock old_device\<rparr> = erased_device"
    by (simp add: old_device_def)
  fix m w
  let ?s = "release_start m (dv_clock old_device) w"
  let ?s1 = "http_to ((http_of ?s)\<lparr>http_stack := (BUILD_DATE_URL ''t'', [])\<rparr>) ?s"
  assume m: "nvs_only erased_flash m" and run: "main_fallible (release_env\<lparr>be_build_date := 2023\<rparr>)
        (old_device\<lparr>dv_flash := erased_flash, dv_clock := dv_clock old_device\<rparr>) =
      (tryP (check_for_update (release_env\<lparr>be_build_date := 2023\<rparr>)) (\<lambda>_.
       tryP (returning (modify (\<lambda>s. s\<lparr>dv_clock := configure_once reference_time (dv_clock s)\<rparr>))) (\<lambda>_.
       returning (ret (\<lparr>ntp_socket = (0x7f000001, NTP_PORT)\<rparr>, ())))) ?s ::
      ((ntp_client \<times> unit, (unit, unit, unit, unit, unit) blind_error) outcome \<times> (memory, release, unit, unit, unit) device) option)"
  obtain c' o' where "install_update no_crc ram_flash release_server unit_random (FIRMWARE_URL ''t'')
      (http_of ?s1, ota_new m) =
    Some (Panic :: (unit, (unit, unit, unit, unit, unit) blind_error) outcome, c', o')"
    using erased_install [OF nvs_only_stored_entry [OF m]] by blast
  then have "\<exists>t. check_for_update release_env ?s = Some (Panic :: (unit, (unit, unit, unit, unit, unit) blind_error) outcome, t)"
    by (simp add: check_for_update_def tryP_def zoomP_def fetch_example)
  with run show ?thesis unfolding e d by (auto simp: tryP_def)
qed

lemma release_env_2023: "release_env\<lparr>be_build_date := 2023\<rparr> = release_env"
  by (simp add: release_env_def)

lemma firmware_main_Panicked:
  fixes env :: "('f, 'y, 'w, 'am, 'cfg, 'i, 'x, 'r, 'h, 'n, 'o, 'dt, 'd, 't, 'bd, 'c) boot_env"
  shows "firmware_main env s = Some (Panicked, t) \<longleftrightarrow>
    main_fallible env s = Some (Panic :: (ntp_client \<times> 'c, ('y, 'n, 'h, 'i, 'x) blind_error) outcome, t)"
proof -
  have "(case q of Ok x \<Rightarrow> Running x | Err e \<Rightarrow> Deep_Sleep (10 * 1000000) | Panic \<Rightarrow> Panicked) = Panicked \<longleftrightarrow> q = Panic"
    for q :: "(ntp_client \<times> 'c, ('y, 'n, 'h, 'i, 'x) blind_error) outcome" by (cases q) simp_all
  then show ?thesis unfolding firmware_main_def enter_deep_def map_option_eq_Some by auto
qed

lemma outdated_release: "outdated release_env"
  using release_publishes by (auto simp: outdated_def)

theorem blank_device_never_runs_witness:
  "\<exists>l t. firmware_main release_env erased_device = Some (Panicked, t) \<and> demo_life 2023 erased_device l \<and>
     dv_flash (lf_device l) = dv_flash t \<and> lf_runs l = 0"
proof -
  obtain t where t: "firmware_main release_env (lf_device (life_init erased_device)) = Some (Panicked, t)"
    using erased_start_panics by (auto simp: firmware_main_Panicked)
  let ?d = "t\<lparr>dv_update_pending := False\<rparr>" and ?l = "(life_init erased_device)\<lparr>lf_device := t\<lparr>dv_update_pending := False\<rparr>\<rparr>"
  have "restarted (dv_clock t) t ?d" using later_refl [of "dv_clock t"] by (auto simp: restarted_def)
  then have "demo_life_step 2023 (life_init erased_device) ?l"
    by (intro start_fails [OF _ t]) (simp_all add: release_env_2023)
  from restarts [OF installed this] have l: "demo_life 2023 erased_device ?l" .
  have fw: "\<forall>env. env = release_env\<lparr>be_build_date := 2023\<rparr> \<longrightarrow> safe_firmware id (\<lambda>_. True) env \<and> outdated env"
    using release_env_safe [of 2023] outdated_release unfolding release_env_2023 by simp
  have none: "\<forall>slot. ota_state (stored_entry (id (dv_flash erased_device)) slot) \<noteq> Valid" by simp
  from blank_device_never_runs [OF fw _ none l] l t show ?thesis by (intro exI [of _ ?l] exI [of _ t]) simp
qed

section \<open>The causes of a panic\<close>

text \<open>C11: A start panics for one of four reasons only: the build date in the binary is not a date or the position does not parse,
  which are found before anything is done; a newer firmware is installed and the OTA entries are such that commit and preparation
  decide differently; or the server sends more of the firmware than it announced. No error of the store, the radio, the network,
  the time server or the flash, and no other answer of the server, makes it panic.\<close>

theorem start_panic_causes:
  assumes "flash_ok (be_flash env) view good (dv_flash s)" "small_chunks (be_http env)"
    and "firmware_main env s = Some (Panicked, t)"
  shows "be_timestamp env (be_build_date env) = None \<or> be_coordinates env = None \<or>
    (\<exists>v. published env v \<and> be_build_date env < v \<and>
      (\<not> decisions_agree (be_crc env) (stored_entry (view (dv_flash s)) SlotZero) (stored_entry (view (dv_flash s)) SlotOne) \<or>
       overlong_response (be_http env) (FIRMWARE_URL (be_target env))))"
  using main_fallible_panics [OF assms(1,2) assms(3) [unfolded firmware_main_Panicked]] by (simp add: start_panics_def)

text \<open>The release server announces the length that it sends.\<close>

lemma release_final:
  assumes "final_response release_server (FIRMWARE_URL ''t'') w cl w'"
  shows "cl = 3 \<and> snd w' = [[1, 2], [3]]"
proof -
  have "buffered_step release_server (FIRMWARE_URL ''t'') w = Some (Ok (Inr 3), (FIRMWARE_URL ''t'', [[1, 2], [3]]))"
    by (simp add: buffered_step_def tryA_def ret_def)
  with assms show ?thesis by (auto elim: final_response.cases)
qed

lemma release_part_read_step:
  assumes "snd w = b # bs" "b \<noteq> []" "length b \<le> 16384"
  shows "part_read release_server w cs w' \<longleftrightarrow>
    cs = [] \<and> w' = w \<or> (\<exists>ds. cs = b # ds \<and> part_read release_server (fst w, bs) ds w')"
  using assms by (cases w, subst part_read.simps) auto

lemma release_part_read_end: "snd w = [] \<Longrightarrow> part_read release_server w cs w' \<longleftrightarrow> cs = [] \<and> w' = w"
  by (cases w, subst part_read.simps) auto

lemma release_part_read:
  "part_read release_server w cs w' \<Longrightarrow> snd w = [[1, 2], [3]] \<Longrightarrow>
     (cs = [] \<and> snd w' = [[1, 2], [3]]) \<or> (cs = [[1, 2]] \<and> snd w' = [[3]]) \<or> (cs = [[1, 2], [3]] \<and> snd w' = [])"
  by (auto simp: release_part_read_step release_part_read_end)

lemma release_honest: "\<not> overlong_response release_server (FIRMWARE_URL ''t'')"
proof
  assume "overlong_response release_server (FIRMWARE_URL ''t'')"
  then obtain w cl w1 cs w2 b w3 where
    "final_response release_server (FIRMWARE_URL ''t'') w cl w1" "part_read release_server w1 cs w2"
    "hc_fill_buf release_server w2 = Some (Inr b, w3)" "b \<noteq> []" "of_nat (length (concat cs @ b)) > cl"
    by (auto simp: overlong_response_def exceeds_def)
  with release_final release_part_read [of w1 cs w2] show False by fastforce
qed

theorem start_panic_causes_witness:
  "\<exists>t. firmware_main release_env erased_device = Some (Panicked, t) \<and> published release_env 2024 \<and>
     \<not> decisions_agree no_crc (stored_entry erased_flash SlotZero) (stored_entry erased_flash SlotOne)"
proof -
  obtain t where t: "firmware_main release_env erased_device = Some (Panicked, t)"
    using erased_start_panics by (auto simp: firmware_main_Panicked)
  have ok: "flash_ok (be_flash release_env) id (\<lambda>_. True) (dv_flash erased_device)" by simp
  have small: "small_chunks (be_http release_env)" by (simp add: release_server_small)
  from start_panic_causes [OF ok small t] release_honest obtain v where
    "published release_env v" "\<not> decisions_agree no_crc (stored_entry erased_flash SlotZero) (stored_entry erased_flash SlotOne)"
    by auto
  with publishes_unique [OF release_publishes] t show ?thesis by auto
qed

section \<open>A life without panics\<close>






end
