(* ===== verification/Task_Panics.thy ===== *)
theory Task_Panics
  imports Panic_Free Life_Properties
begin

text \<open>
  The tasks of a running firmware do not panic. What the schedule and the NTP task of src/bin/blind.rs have that can panic is the
  reading of the clock: \<open>datetime\<close> of src/system_time.rs moves the time to the offset of the clock with a call that panics
  when the local time is outside the calendar, and with debug logging on src/ntp.rs unwraps the times it prints.
\<close>

text \<open>
  The calendar of the crate time ends with the year 9999: every instant before the last hour of it is a date-time, and so is the local
  time of the United Kingdom at it. The hour begins \<open>LAST_HOUR\<close> microseconds after 1970. And \<open>sntpc::get_time\<close> panics only if
  the timestamp generator it is given does.
\<close>

definition LAST_HOUR :: u64 where "LAST_HOUR = 253402297200000000"

definition calendar_contract :: "('o, 'dt, 'd, 't) time_api \<Rightarrow> bool" where
  "calendar_contract api \<longleftrightarrow>
     (\<forall>us. us < LAST_HOUR \<longrightarrow> (\<exists>dt. from_unix_timestamp_nanos api (uint us * 1000) = Some dt \<and>
       (\<forall>o'. uk_offset (whole_seconds api o') \<longrightarrow> checked_to_offset api o' dt \<noteq> None)))"

definition get_time_contract :: "('w, 'x) ntp_net \<Rightarrow> bool" where
  "get_time_contract nw \<longleftrightarrow> (\<forall>addr gen s t. get_time nw addr gen s = Some (Panic, t) \<longrightarrow> (\<exists>c. gen c = Panic))"

lemma reference_calendar: "calendar_contract reference_time"
proof -
  have "from_unix_timestamp_nanos reference_time (uint us * 1000) = Some (uint us * 1000, 0)" if "us < LAST_HOUR" for us
  proof -
    from that have "uint us < 253402297200000000" by (simp add: LAST_HOUR_def word_less_def)
    moreover have "(253402297200000000 * 1000 :: int) < year_start 10000 * day_nanos"
      by (simp add: year_start_def leap_days_def day_nanos_def)
    ultimately show ?thesis by (simp add: reference_time_simps)
  qed
  then show ?thesis by (simp add: calendar_contract_def reference_time_simps)
qed

section \<open>The clock\<close>

lemma datetime_panics:
  assumes api: "time_contract api" "calendar_contract api" and uk: "uk_offset (offset_seconds c)"
    and run: "datetime api c = Panic"
  shows "LAST_HOUR \<le> get_time_us c"
proof (rule ccontr)
  assume "\<not> ?thesis"
  then have "get_time_us c < LAST_HOUR" by simp
  with api(2) obtain dt where dt: "from_unix_timestamp_nanos api (uint (get_time_us c) * 1000) = Some dt"
    "\<And>o'. uk_offset (whole_seconds api o') \<Longrightarrow> checked_to_offset api o' dt \<noteq> None"
    unfolding calendar_contract_def by blast
  from uk_offset_read [OF api(1) uk] obtain o' where o': "offset api c = Ok o'" "whole_seconds api o' = offset_seconds c"
    by blast
  with run dt(1) have "checked_to_offset api o' dt = None" by (simp add: datetime_def split: option.splits)
  with dt(2) [of o'] o'(2) uk show False by simp
qed

lemma offset_no_panic: "offset api c \<noteq> Panic"
  by (simp add: offset_def split: option.split)

lemma timestamp_init_panics: "timestamp_init api debug_on c = Panic \<Longrightarrow> debug_on"
  by (simp add: timestamp_init_def Let_def split: if_splits)

section \<open>The turns\<close>

lemma ntp_request_panics:
  assumes net: "get_time_contract nw" and run: "ntp_request api debug_on nw client use_offset s = Some (Panic, t)"
  shows "debug_on"
proof -
  from run consider (asking) w where "get_time nw (ntp_socket client) (timestamp_init api debug_on) (s\<lparr>net := w\<rparr>) = Some (Panic, t)"
    | (printing) "debug_on"
    unfolding ntp_request_def
    by (auto simp: panic_simps external_no_panic external_Ok_iff panic_eq Let_def split: if_splits)
  then show ?thesis
  proof cases
    case asking
    with net obtain c where "timestamp_init api debug_on c = (Panic :: (timestamp_gen, 'b) outcome)"
      unfolding get_time_contract_def by blast
    then show ?thesis by (rule timestamp_init_panics)
  qed
qed

lemma ntp_task_turn_panics:
  fixes s :: "'w ntp_task"
  assumes api: "time_contract api" "calendar_contract api" and net: "net_contract nw" "get_time_contract nw"
    and uk: "uk_offset (offset_seconds (clk (nt_ntp s)))"
    and run: "ntp_task_turn api debug_on nw client s = Some (Panic, t)"
  shows "debug_on \<or> LAST_HOUR \<le> get_time_us (clk (nt_ntp t))"
proof (cases "\<exists>n. ntp_request api debug_on nw client (\<not> nt_first_run s) (nt_ntp s) = Some (Panic, n)")
  case True
  with ntp_request_panics [OF net(2)] show ?thesis by blast
next
  case False
  then have no: "\<not> (\<exists>n. ntp_request api debug_on nw client (\<not> nt_first_run s) (nt_ntp s) = Some (Panic, n))" .
  from run have "\<exists>v. ntp_request api debug_on nw client (\<not> nt_first_run s) (nt_ntp s) = Some (Ok v, nt_ntp t) \<and>
      datetime api (clk (nt_ntp t)) = Panic"
    unfolding ntp_task_turn_def
    by (simp add: panic_simps errP_Ok map_err_Ok_iff from_outcome_run ok_or_run
        offset_no_panic) (use no in auto)
  then obtain v where v: "ntp_request api debug_on nw client (\<not> nt_first_run s) (nt_ntp s) = Some (Ok v, nt_ntp t)"
    and d: "datetime api (clk (nt_ntp t)) = Panic" by blast
  from ntp_request_settings [OF net(1) v] uk have "uk_offset (offset_seconds (clk (nt_ntp t)))"
    by (simp add: same_settings_def)
  from datetime_panics [OF api this d] show ?thesis ..
qed

lemma schedule_turn_panics:
  assumes api: "time_contract api" "calendar_contract api" and uk: "uk_offset (offset_seconds c)"
    and run: "schedule_turn api sol coords raise c s = (Panic, t)"
  shows "LAST_HOUR \<le> get_time_us c"
  using run
proof (cases rule: schedule_turn_cases)
  case panicked
  from datetime_panics [OF api uk panicked(2)] show ?thesis .
qed simp_all

section \<open>Over a life\<close>

text \<open>C15: In every run of every start of the life of a device, neither the schedule nor the NTP task panics, whatever the time server
  answers, unless the clock has been set to the last hour of the calendar or later, or debug logging is on.\<close>

theorem tasks_never_panic:
  assumes fw: "\<forall>env. fws env \<longrightarrow> time_contract (be_time env) \<and> calendar_contract (be_time env) \<and>
      net_contract (be_ntp env) \<and> get_time_contract (be_ntp env)"
    and reach: "life_reach fws debug_on sol raise ch contents web s l"
    and offset: "offset_seconds (dv_clock s) = 0 \<or> offset_seconds (dv_clock s) = 3600"
    and start: "fws env" "firmware_main env (lf_device l) = Some (Running (client, coords), t)"
    and run: "system_reach (be_time env) debug_on (be_ntp env) client sol coords raise ch contents web (spawn_net t) u"
  shows "(schedule_turn (be_time env) sol coords raise (sy_clock u) sch = (Panic, sch') \<longrightarrow>
      253402297200000000 \<le> get_time_us (sy_clock u)) \<and>
    (ntp_task_turn (be_time env) debug_on (be_ntp env) client (sy_ntp u) = Some (Panic, n) \<longrightarrow>
      debug_on \<or> 253402297200000000 \<le> get_time_us (clk (nt_ntp n)))"
proof -
  have api: "time_contract (be_time env)" "calendar_contract (be_time env)" "net_contract (be_ntp env)" "get_time_contract (be_ntp env)"
    using fw start(1) by simp_all
  have "uk_offset (offset_seconds (dv_clock (lf_device l)))"
    using life_offset [OF _ _ reach] fw offset by (simp add: uk_offset_def)
  from life_clock_start [OF api(1) start(2) [unfolded firmware_main_Running] this] system_reach_clock [OF api(1,3) run]
  have uk: "uk_offset (offset_seconds (sy_clock u))" by (simp add: spawn_net_def)
  note turns = schedule_turn_panics [OF api(1,2) uk] ntp_task_turn_panics [OF api uk [unfolded sy_clock_def]]
  show ?thesis by (intro conjI impI; drule turns) (simp_all add: LAST_HOUR_def)
qed

theorem tasks_never_panic_witness:
  "\<exists>t. firmware_main (release_env\<lparr>be_build_date := 2024\<rparr>) (old_device\<lparr>dv_clock := clk (summer_state True)\<rparr>) =
      Some (Running (\<lparr>ntp_socket = (0x7f000001, NTP_PORT)\<rparr>, ()), t) \<and>
    schedule_turn reference_time example_sun () half_past_noon (dv_clock t) schedule_init \<noteq>
      (Panic :: (unit, (unit, unit, unit, unit, unit) blind_error) outcome, schedule_init)"
proof -
  let ?e = "release_env\<lparr>be_build_date := 2024\<rparr>" and ?s = "old_device\<lparr>dv_clock := clk (summer_state True)\<rparr>"
  obtain t where t: "firmware_main ?e ?s = Some (Running (\<lparr>ntp_socket = (0x7f000001, NTP_PORT)\<rparr>, ()), t)"
    "dv_clock t = clk (summer_state True)" "ntp_synchronized (dv_clock t)" by (rule summer_start)
  have "get_time_contract ready_ntp" by (simp add: get_time_contract_def ready_ntp_def)
  then have fw: "\<forall>env. env = ?e \<longrightarrow> time_contract (be_time env) \<and> calendar_contract (be_time env) \<and>
      net_contract (be_ntp env) \<and> get_time_contract (be_ntp env)"
    using reference_time_contract reference_calendar ready_ntp_contract by simp
  have uk: "offset_seconds (dv_clock ?s) = 0 \<or> offset_seconds (dv_clock ?s) = 3600" by (simp add: summer_state_clock(2))
  have t': "firmware_main ?e (lf_device (life_init ?s)) =
      Some (Running (\<lparr>ntp_socket = (0x7f000001, NTP_PORT)\<rparr>, ()), t)" using t(1) by simp
  have u: "system_reach (be_time ?e) False (be_ntp ?e) \<lparr>ntp_socket = (0x7f000001, NTP_PORT)\<rparr> example_sun () half_past_noon
      list_channel id (\<lambda>_. False) (spawn_net t) (system_init [] (spawn_net t))" by (rule spawned) simp
  have time: "get_time_us (clk (summer_state True)) = 1751367600000000"
    using summer_time by (simp add: summer_state_def get_time_us_def get_rtc_time_us_def
        get_rtc_time_cal_us_def get_rtc_time_raw_def get_boot_time_us_def)
  from tasks_never_panic [OF fw installed uk refl t' u] show ?thesis
    using t by (intro exI [of _ t]) (auto simp: time spawn_net_def)
qed

end
