(* ===== verification/Start_Returns.thy ===== *)
theory Start_Returns
  imports Panic_Properties
begin

text \<open>
  When a start ends. Four things in it have no bound in the code: the polling of the network, the calls of the libraries that are
  awaited without a timeout, the redirects, and the body of the firmware. If the network comes up, the awaited calls complete,
  redirects lead in no circle, and the announced lengths fit the machine word, every start returns, whatever else goes wrong.
  A server that accepts requests and never answers keeps a device from its tasks for ever.
\<close>

section \<open>Processes that return\<close>

definition always_returns :: "('s, 'a, 'e) process \<Rightarrow> bool" where
  "always_returns m \<longleftrightarrow> (\<forall>s. m s \<noteq> None)"

named_theorems always_returns_intros

lemma always_returns_tryP [always_returns_intros]:
  "always_returns m \<Longrightarrow> (\<And>a. always_returns (k a)) \<Longrightarrow> always_returns (tryP m k)"
  by (fastforce simp: always_returns_def tryP_def split: option.split outcome.split)

lemma always_returns_simple [always_returns_intros]:
  "always_returns (returning x)" "always_returns m \<Longrightarrow> always_returns (errP conv m)"
  "always_returns m \<Longrightarrow> always_returns (zoomP g p m)"
  by (auto simp: always_returns_def returning_def errP_def zoomP_def)

lemma always_returns_if [always_returns_intros]:
  "always_returns m \<Longrightarrow> always_returns n \<Longrightarrow> always_returns (if b then m else n)"
  by simp

section \<open>The network\<close>

text \<open>From any state the link comes up, and the stack gets an address, within some number of polls.\<close>

definition network_comes_up :: "('w, 'am, 'cfg, 'i, 'x) wifi_ops \<Rightarrow> bool" where
  "network_comes_up dev \<longleftrightarrow>
     (\<forall>w. \<exists>k. wf_link_up dev ((wf_delay dev 1000000 ^^ k) w)) \<and>
     (\<forall>w. \<exists>k. wf_config_v4 dev ((wf_delay dev 1000000 ^^ k) w) \<noteq> None)"

lemma funpow_start: "(f ^^ Suc k) w = (f ^^ k) (f w)"
  by (simp add: funpow_swap1)

lemma wait_link_up_returns: "wf_link_up dev ((wf_delay dev 1000000 ^^ k) w) \<Longrightarrow> wait_link_up dev w \<noteq> None"
proof (induction k arbitrary: w)
  case 0
  then show ?case by (subst wait_link_up.simps) simp
next
  case (Suc k)
  from Suc.IH [of "wf_delay dev 1000000 w"] Suc.prems show ?case
    unfolding funpow_start by (subst wait_link_up.simps) simp
qed

lemma wait_config_v4_returns:
  "wf_config_v4 dev ((wf_delay dev 1000000 ^^ k) w) \<noteq> None \<Longrightarrow> wait_config_v4 dev w \<noteq> None"
proof (induction k arbitrary: w)
  case 0
  then show ?case by (subst wait_config_v4.simps) auto
next
  case (Suc k)
  from Suc.IH [of "wf_delay dev 1000000 w"] Suc.prems show ?case
    unfolding funpow_start by (subst wait_config_v4.simps) (simp split: option.split)
qed

lemma await_connection_returns:
  fixes dev :: "('w, 'am, 'cfg, 'i, 'x) wifi_ops"
  assumes "network_comes_up dev"
  shows "always_returns (await_connection dev)"
proof -
  have up: "wait_link_up dev w \<noteq> None" "wait_config_v4 dev w \<noteq> None" for w
    using assms wait_link_up_returns wait_config_v4_returns unfolding network_comes_up_def by metis+
  show ?thesis
    unfolding always_returns_def
  proof
    fix s :: "('f, 'w, 'am, 'cfg, 'r) device"
    obtain w1 where w1: "wait_link_up dev (wf_world (dv_wifi s)) = Some w1" using up(1) by blast
    moreover obtain config w2 where "wait_config_v4 dev w1 = Some (config, w2)" using up(2) [of w1] by fastforce
    ultimately show "await_connection dev s \<noteq> None" by (simp add: await_connection_def wait_for_connection_def)
  qed
qed

section \<open>The server\<close>

text \<open>Every call of the HTTP library, and every query of the resolver, completes, with a result or an error.\<close>

definition http_completes :: "('w, 'x) http_ops \<Rightarrow> bool" where
  "http_completes h \<longleftrightarrow>
     (\<forall>url w. hc_request h url w \<noteq> None \<and> hc_send h w \<noteq> None \<and> hc_read_to_end h w \<noteq> None \<and> hc_fill_buf h w \<noteq> None)"

definition dns_completes :: "('w, 'x) ntp_net \<Rightarrow> bool" where
  "dns_completes nw \<longleftrightarrow> (\<forall>name w. query_a nw name w \<noteq> None)"

lemma always_returns_awaits: "(\<And>s. m s \<noteq> None) \<Longrightarrow> always_returns (awaits conv m)"
  by (simp add: always_returns_def awaits_iff)

lemma http_completes_steps:
  assumes "http_completes h"
  shows "always_returns (req_step h n url)" "always_returns (buffered_step h url)"
  unfolding req_step_def buffered_step_def send_request_def
  by (intro always_returns_intros always_returns_awaits; use assms in \<open>simp add: http_completes_def\<close>)+

text \<open>A redirect leads to an address of smaller rank; and the lengths that are announced leave room for one more buffer.\<close>

definition acyclic_redirects :: "('w, 'x) http_ops \<Rightarrow> bool" where
  "acyclic_redirects h \<longleftrightarrow>
     (\<exists>rank :: bytes \<Rightarrow> nat. \<forall>u w resp w1 u' w2. send_request h u w = Some (Ok resp, w1) \<longrightarrow>
        redirect_url h resp w1 = (Ok u', w2) \<longrightarrow> rank u' < rank u)"

definition bodies_fit :: "('w, 'x) http_ops \<Rightarrow> bool" where
  "bodies_fit h \<longleftrightarrow> (\<exists>m. \<forall>url w cl w'. final_response h url w cl w' \<longrightarrow> body_fits h m cl)"

lemma acyclic_redirectsE:
  assumes "acyclic_redirects h"
  obtains rank :: "bytes \<Rightarrow> nat" where
    "\<And>n u w v w'. req_step h n u w = Some (Ok (Inl v), w') \<Longrightarrow> rank v < rank u"
    "\<And>u w v w'. buffered_step h u w = Some (Ok (Inl v), w') \<Longrightarrow> rank v < rank u"
proof -
  from assms obtain rank :: "bytes \<Rightarrow> nat" where rank:
    "\<And>u w resp w1 u' w2. send_request h u w = Some (Ok resp, w1) \<Longrightarrow> redirect_url h resp w1 = (Ok u', w2) \<Longrightarrow> rank u' < rank u"
    unfolding acyclic_redirects_def by blast
  show ?thesis
  proof (rule that [of rank])
    show "rank v < rank u" if "req_step h n u w = Some (Ok (Inl v), w')" for n u w v w'
      using that by (auto simp: req_step_def tryP_Ok returning_iff tryA_Ok_iff ret_eq fail_eq intro: rank split: if_splits)
    show "rank v < rank u" if "buffered_step h u w = Some (Ok (Inl v), w')" for u w v w'
      using that by (auto simp: buffered_step_def tryP_Ok returning_iff tryA_Ok_iff ret_eq intro: rank split: if_splits)
  qed
qed

lemma req_loop_returns:
  assumes "\<And>n u w v w'. req_step h n u w = Some (Ok (Inl v), w') \<Longrightarrow> (rank :: bytes \<Rightarrow> nat) v < rank u" "http_completes h"
  shows "req_loop h n u w \<noteq> None"
proof (induction "rank u" arbitrary: u w rule: less_induct)
  case less
  from http_completes_steps(1) [OF assms(2)] obtain q w' where step: "req_step h n u w = Some (q, w')"
    unfolding always_returns_def by fastforce
  show ?case
  proof (cases "\<exists>v. q = Ok (Inl v)")
    case True
    then obtain v where v: "q = Ok (Inl v)" ..
    from less.hyps [OF assms(1) [OF step [unfolded v]]] step v show ?thesis by simp
  next
    case False
    with step show ?thesis by (cases q) (auto split: sum.splits intro: sum.exhaust)
  qed
qed

lemma buffered_loop_returns:
  assumes "\<And>u w v w'. buffered_step h u w = Some (Ok (Inl v), w') \<Longrightarrow> (rank :: bytes \<Rightarrow> nat) v < rank u" "bodies_fit h" "http_completes h"
  shows "buffered_loop h f u s \<noteq> None"
proof (induction "rank u" arbitrary: u s rule: less_induct)
  case less
  from http_completes_steps(2) [OF assms(3)] obtain q w' where step: "buffered_step h u (fst s) = Some (q, w')"
    unfolding always_returns_def by fastforce
  show ?case
  proof (cases q)
    case (Ok x)
    show ?thesis
    proof (cases x)
      case (Inl v)
      from less.hyps [OF assms(1) [OF step [unfolded Ok Inl]]] step Ok Inl show ?thesis by simp
    next
      case (Inr cl)
      from assms(2) answered [OF step [unfolded Ok Inr]] obtain m where "body_fits h m cl"
        unfolding bodies_fit_def by blast
      moreover have "\<forall>w. hc_fill_buf h w \<noteq> None" using assms(3) by (simp add: http_completes_def)
      ultimately show ?thesis using body_loop_returns [of h m cl 0 f "(w', snd s)"] step Ok Inr by auto
    qed
  next
    case Panic
    with step buffered_step_no_panic show ?thesis by metis
  qed (use step in simp)
qed

section \<open>The start\<close>

lemma req_returns:
  assumes "acyclic_redirects h" "http_completes h"
  shows "always_returns (req h random n url)"
proof -
  have loop: "req_loop h n u w \<noteq> None" for u w by (rule acyclic_redirectsE [OF assms(1)]) (rule req_loop_returns [OF _ assms(2)])
  then have "\<exists>a b. req_loop h n u w = Some (a, b)" for u w by (metis not_None_eq prod.exhaust)
  then show ?thesis
    unfolding always_returns_def req_def to_url_string_cases Let_def by simp
qed

lemma req_buffered_returns:
  assumes "acyclic_redirects h" "bodies_fit h" "http_completes h"
  shows "always_returns (req_buffered h random url f)"
proof -
  from assms(1) have loop: "buffered_loop h f u s \<noteq> None" for u s
    by (rule acyclic_redirectsE) (rule buffered_loop_returns [OF _ assms(2,3)])
  then have "\<exists>a b c. buffered_loop h f u s = Some (a, b, c)" for u s by (metis not_None_eq prod.exhaust)
  then show ?thesis
    unfolding always_returns_def req_buffered_def to_url_string_cases Let_def by simp metis
qed

lemma check_for_update_returns:
  assumes "acyclic_redirects (be_http env)" "bodies_fit (be_http env)" "http_completes (be_http env)"
  shows "always_returns (check_for_update env)"
  unfolding check_for_update_def fetch_build_date_def install_update_def
  by (intro always_returns_intros req_returns req_buffered_returns assms)

lemma resolve_returns: "dns_completes (be_ntp env) \<Longrightarrow> always_returns (resolve_server env)"
  unfolding resolve_server_def new_from_dns_def
  by (intro always_returns_intros always_returns_awaits) (simp add: dns_completes_def)

lemma main_fallible_returns:
  assumes "network_comes_up (be_wifi env)" "http_completes (be_http env)" "dns_completes (be_ntp env)"
    and "acyclic_redirects (be_http env)" "bodies_fit (be_http env)"
  shows "main_fallible env s \<noteq> None"
proof -
  have "always_returns (main_fallible env)"
    unfolding main_fallible_def start_after_credentials_def split_beta
    by (intro always_returns_intros await_connection_returns check_for_update_returns resolve_returns assms)
  then show ?thesis by (simp add: always_returns_def)
qed

text \<open>C10: Every start ends, in the running tasks, in the sleep of ten seconds before the next one, or in a panic, if the network comes up
  within some number of polls, every call of the HTTP library and every query of the resolver completes (the code sets no
  timeout for them), the redirects of the server lead in no circle, and the lengths it announces leave room for one
  more buffer in 32 bits. Beyond that no error can make it hang.\<close>

theorem start_returns:
  fixes env :: "('f, 'y, 'w, 'am, 'cfg, 'i, 'x, 'r, 'h, 'n, 'o, 'dt, 'd, 't, 'bd, 'c) boot_env"
  assumes "network_comes_up (be_wifi env)" "http_completes (be_http env)" "dns_completes (be_ntp env)"
    and "acyclic_redirects (be_http env)" "bodies_fit (be_http env)"
  shows "\<exists>r t. firmware_main env s = Some (r, t) \<and> ((\<exists>client coords. r = Running (client, coords)) \<or> r = Deep_Sleep 10000000 \<or> r = Panicked)"
proof -
  from main_fallible_returns [OF assms, of s] obtain q t where q: "main_fallible env s =
      Some (q :: (ntp_client \<times> 'c, ('y, 'n, 'h, 'i, 'x) blind_error) outcome, t)" by fastforce
  then show ?thesis by (cases q) (auto simp: firmware_main_def enter_deep_def)
qed

theorem start_returns_witness:
  "\<forall>s. \<exists>r t. firmware_main release_env s = Some (r, t)"
proof -
  have up: "network_comes_up (be_wifi release_env)"
    by (auto simp: network_comes_up_def ready_radio_def intro: exI [of _ 0])
  have completes: "http_completes (be_http release_env)" "dns_completes (be_ntp release_env)"
    by (simp_all add: http_completes_def dns_completes_def ready_ntp_def)
  have "is_successful release_server (rs_status resp)" if "send_request release_server u w = Some (Ok resp, w1)" for u w resp w1
    using that by (auto simp: send_request_def tryP_Ok awaits_iff released_def split: if_splits)
  moreover have "\<not> is_redirection release_server st" if "is_successful release_server st" for st
    using that by (auto simp: release_server_def)
  ultimately have acyclic: "acyclic_redirects (be_http release_env)"
    unfolding acyclic_redirects_def by (metis redirect_url_ok release_env_simps(5))
  have "body_fits release_server 16384 cl" if "final_response release_server u w cl w'" for u w cl w'
    using that
    by (induction rule: final_response.induct)
      (auto simp: buffered_step_def tryP_Ok awaits_iff returning_iff tryA_Ok_iff ret_eq send_request_def released_def
        body_fits_def file_head_def split: if_splits list.splits)
  then have fit: "bodies_fit (be_http release_env)" unfolding bodies_fit_def release_env_simps by blast
  from start_returns [OF up completes acyclic fit] show ?thesis by blast
qed

text \<open>A server that takes requests and never answers: no start gets to its tasks.\<close>

lemma silent_req:
  assumes "\<forall>url w. hc_send h w = None"
  shows "req h random n url c \<noteq> Some (Ok b, c')"
proof -
  have "req_step h n url w = None \<or> (\<exists>e w'. req_step h n url w = Some (Err e, w'))" for w
    using assms by (cases "hc_request h url w")
      (auto simp: req_step_def send_request_def tryP_def awaits_def split: sum.splits)
  then have "req_loop h n url w \<noteq> Some (Ok b, w')" for w w'
    by (metis req_loop_run(1,4) option.distinct(1) option.inject outcome.distinct(1) prod.inject)
  then show ?thesis by (auto simp: req_def to_url_string_cases Let_def)
qed

lemma silent_check:
  assumes "\<forall>url w. hc_send (be_http env) w = None"
  shows "check_for_update env v \<noteq> Some (Ok u, v')"
  by (auto simp: check_for_update_def tryP_Ok zoomP_iff fetch_build_date_def errP_Ok silent_req [OF assms])

lemma silent_server_no_tasks:
  assumes "\<forall>url w. hc_send (be_http env) w = None"
  shows "firmware_main env s \<noteq> Some (Running x, t)"
  by (auto simp: firmware_main_Running main_fallible_def start_after_credentials_def tryP_Ok silent_check [OF assms])

end
