(* ===== verification/Spawn.thy ===== *)
theory Spawn
  imports Boot_Properties
begin

text \<open>
  The tasks and static cells of a start. src/bin/blind.rs and src/wifi.rs spawn their tasks with \<open>must_spawn\<close>, which
  panics when the pool of the task function is full: a pool has one place, that of \<open>web_task\<close> has
  \<open>WEB_TASK_POOL_SIZE\<close>. What the tasks share is placed in static cells by the macro \<open>mk_static\<close> (src/lib.rs, repeated in
  src/bin/blind.rs), one cell per use in the text, which panics when its cell is taken already. A reset empties both.

  The executor (embassy_executor) and the cells (static_cell) are code outside the repository: \<open>executor_ops\<close> holds their
  operations as parameters over an unknown state, and \<open>executor_contract\<close> states their documented behaviour.
  \<open>main_spawning\<close> is \<open>main_fallible\<close> (Boot) with these effects, each where the source has it.
\<close>

section \<open>The executor and the cells\<close>

text \<open>A task with what it is spawned with, as far as it differs between starts.\<close>

datatype 'c task =
    Task_Net
  | Task_Connection bytes bytes
  | Task_Motor nat
  | Task_Ntp ntp_client
  | Task_Schedule 'c
  | Task_Web nat

datatype task_function = Fn_net_task | Fn_connection | Fn_motor_task | Fn_ntp_task | Fn_schedule_task | Fn_web_task

fun function_of :: "'c task \<Rightarrow> task_function" where
  "function_of Task_Net = Fn_net_task"
| "function_of (Task_Connection ssid password) = Fn_connection"
| "function_of (Task_Motor microsteps) = Fn_motor_task"
| "function_of (Task_Ntp client) = Fn_ntp_task"
| "function_of (Task_Schedule coordinates) = Fn_schedule_task"
| "function_of (Task_Web i) = Fn_web_task"

definition WEB_TASK_POOL_SIZE :: nat where "WEB_TASK_POOL_SIZE = 2"

text \<open>The attributes of the task functions.\<close>

fun pool_size :: "task_function \<Rightarrow> nat" where
  "pool_size Fn_web_task = WEB_TASK_POOL_SIZE"
| "pool_size f = 1"

text \<open>The uses of \<open>mk_static\<close>.\<close>

datatype static_cell = Cell_EspWifiController | Cell_StackResources | Cell_Channel | Cell_AppRouter | Cell_Config

text \<open>\<open>None\<close> is the failure of the call: no place in the pool, a cell that is taken.\<close>

record ('c, 'p) executor_ops =
  spawn :: "'c task \<Rightarrow> 'p \<Rightarrow> 'p option"
  uninit :: "static_cell \<Rightarrow> 'p \<Rightarrow> 'p option"

definition must_spawn :: "('c, 'p) executor_ops \<Rightarrow> 'c task \<Rightarrow> ('p, unit, 'e) action" where
  "must_spawn x t p = (case spawn x t p of Some p' \<Rightarrow> ret () p' | None \<Rightarrow> panic p)"

definition mk_static :: "('c, 'p) executor_ops \<Rightarrow> static_cell \<Rightarrow> ('p, unit, 'e) action" where
  "mk_static x cell p = (case uninit x cell p of Some p' \<Rightarrow> ret () p' | None \<Rightarrow> panic p)"

section \<open>The start\<close>

abbreviation on_executor :: "('p, 'a, 'e) action \<Rightarrow> ('s \<times> 'p, 'a, 'e) action" where
  "on_executor \<equiv> zoom snd (\<lambda>p s. (fst s, p))"

abbreviation on_state :: "('s, 'a, 'e) action \<Rightarrow> ('s \<times> 'p, 'a, 'e) action" where
  "on_state \<equiv> zoom fst (\<lambda>s' s. (s', snd s))"

abbreviation on_device :: "('s, 'a, 'e) process \<Rightarrow> ('s \<times> 'p, 'a, 'e) process" where
  "on_device \<equiv> zoomP fst (\<lambda>s' s. (s', snd s))"

text \<open>\<open>connect\<close> of src/wifi.rs. The first cell is taken before the radio is initialised, whose result it would hold.\<close>

definition connect_spawning ::
  "('c, 'p) executor_ops \<Rightarrow> ('w, 'am, 'cfg, 'i, 'x) wifi_ops \<Rightarrow> 'r random \<Rightarrow> bytes \<Rightarrow> bytes \<Rightarrow>
   (('w, 'am, 'cfg, 'r) wifi_state \<times> 'p, 'cfg net_config, ('i, 'x) wifi_error) action" where
  "connect_spawning x dev random ssid password s =
     (let (seed, r) = next_u64 random (wf_rng (fst s))
      in tryA (on_executor (mk_static x Cell_EspWifiController)) (\<lambda>_.
         tryA (on_state (on_world (external WifiInitialization (wf_init dev)))) (\<lambda>_.
         tryA (on_state (on_cache (forget_other_ssid ssid))) (\<lambda>_.
         tryA (on_state (\<lambda>s. if last_bssid (wf_cache s) \<noteq> None
                   then radio (wf_new_with_config dev (cached_config ssid password (wf_cache s))) s
                   else radio (wf_new_with_mode dev) s)) (\<lambda>_.
         tryA (on_state (\<lambda>s. let (config, c) = choose_net_config (wf_cache s) in ret config (s\<lparr>wf_cache := c\<rparr>))) (\<lambda>config.
         tryA (on_executor (mk_static x Cell_StackResources)) (\<lambda>_.
         tryA (on_state (modify (\<lambda>s. s\<lparr>wf_world := wf_new_stack dev config seed (wf_world s)\<rparr>))) (\<lambda>_.
         tryA (on_executor (must_spawn x Task_Net)) (\<lambda>_.
         tryA (on_executor (must_spawn x (Task_Connection ssid password))) (\<lambda>_.
         ret config)))))))))
         ((fst s)\<lparr>wf_rng := r\<rparr>, snd s))"

fun spawn_web_tasks :: "('c, 'p) executor_ops \<Rightarrow> nat list \<Rightarrow> ('p, unit, 'e) action" where
  "spawn_web_tasks x [] = ret ()"
| "spawn_web_tasks x (i # is) = tryA (must_spawn x (Task_Web i)) (\<lambda>_. spawn_web_tasks x is)"

text \<open>The end of \<open>main_fallible\<close>, where everything is there for the tasks.\<close>

definition spawn_tasks :: "('c, 'p) executor_ops \<Rightarrow> ntp_client \<Rightarrow> 'c \<Rightarrow> ('p, unit, 'e) action" where
  "spawn_tasks x client coordinates =
     tryA (must_spawn x (Task_Motor 2)) (\<lambda>_.
     tryA (must_spawn x (Task_Ntp client)) (\<lambda>_.
     tryA (must_spawn x (Task_Schedule coordinates)) (\<lambda>_.
     tryA (mk_static x Cell_AppRouter) (\<lambda>_.
     tryA (mk_static x Cell_Config) (\<lambda>_.
     spawn_web_tasks x [0..<WEB_TASK_POOL_SIZE])))))"

definition start_spawning ::
  "('c, 'p) executor_ops \<Rightarrow> ('f, 'y, 'w, 'am, 'cfg, 'i, 'x, 'r, 'h, 'n, 'o, 'dt, 'd, 't, 'bd, 'c) boot_env \<Rightarrow> bytes \<Rightarrow> bytes \<Rightarrow> 'c \<Rightarrow>
   (('f, 'w, 'am, 'cfg, 'r) device \<times> 'p, ntp_client \<times> 'c, ('y, 'n, 'h, 'i, 'x) blind_error) process" where
  "start_spawning x env ssid password coordinates =
     tryP (returning (zoom (\<lambda>s. (dv_wifi (fst s), snd s)) (\<lambda>(w, p) s. ((fst s)\<lparr>dv_wifi := w\<rparr>, p))
       (map_err Wifi_Error (connect_spawning x (be_wifi env) (be_random env) ssid password)))) (\<lambda>_.
     tryP (on_device (await_connection (be_wifi env))) (\<lambda>_.
     tryP (on_device (check_for_update env)) (\<lambda>_.
     tryP (returning (on_executor (mk_static x Cell_Channel))) (\<lambda>_.
     tryP (on_device (returning (modify (\<lambda>s. s\<lparr>dv_clock := configure_once (be_time env) (dv_clock s)\<rparr>)))) (\<lambda>_.
     tryP (on_device (resolve_server env)) (\<lambda>client.
     tryP (returning (on_executor (spawn_tasks x client coordinates))) (\<lambda>_.
     returning (ret (client, coordinates)))))))))"

definition main_spawning ::
  "('c, 'p) executor_ops \<Rightarrow> ('f, 'y, 'w, 'am, 'cfg, 'i, 'x, 'r, 'h, 'n, 'o, 'dt, 'd, 't, 'bd, 'c) boot_env \<Rightarrow>
   (('f, 'w, 'am, 'cfg, 'r) device \<times> 'p, ntp_client \<times> 'c, ('y, 'n, 'h, 'i, 'x) blind_error) process" where
  "main_spawning x env =
     tryP (on_device (returning (expect (be_timestamp env (be_build_date env))))) (\<lambda>_.
     tryP (on_device (returning (expect (be_coordinates env)))) (\<lambda>coordinates.
     tryP (on_device (returning (on_nvs (get_credentials (be_flash env) (be_ssid env) (be_password env))))) (\<lambda>(ssid, password).
     start_spawning x env ssid password coordinates)))"

section \<open>The contract of the executor\<close>

text \<open>
  A task is spawned if its function has a place left, and then is the last of the running tasks; a cell can be taken once.
\<close>

definition place_left :: "'c task \<Rightarrow> 'c task list \<Rightarrow> bool" where
  "place_left t ts \<longleftrightarrow> length (filter (\<lambda>u. function_of u = function_of t) ts) < pool_size (function_of t)"

definition executor_contract ::
  "('c, 'p) executor_ops \<Rightarrow> ('p \<Rightarrow> 'c task list) \<Rightarrow> ('p \<Rightarrow> static_cell list) \<Rightarrow> bool" where
  "executor_contract x tasks cells \<longleftrightarrow>
     (\<forall>t p. place_left t (tasks p) \<longrightarrow> (\<exists>p'. spawn x t p = Some p' \<and> tasks p' = tasks p @ [t] \<and> cells p' = cells p)) \<and>
     (\<forall>t p. \<not> place_left t (tasks p) \<longrightarrow> spawn x t p = None) \<and>
     (\<forall>c p. c \<notin> set (cells p) \<longrightarrow> (\<exists>p'. uninit x c p = Some p' \<and> tasks p' = tasks p \<and> cells p' = cells p @ [c])) \<and>
     (\<forall>c p. c \<in> set (cells p) \<longrightarrow> uninit x c p = None)"

text \<open>An executor that is its lists.\<close>

definition list_executor :: "('c, 'c task list \<times> static_cell list) executor_ops" where
  "list_executor =
     \<lparr>spawn = (\<lambda>t (ts, cs). if place_left t ts then Some (ts @ [t], cs) else None),
      uninit = (\<lambda>c (ts, cs). if c \<in> set cs then None else Some (ts, cs @ [c]))\<rparr>"

lemma list_executor_contract: "executor_contract list_executor fst snd"
  by (auto simp: executor_contract_def list_executor_def)

text \<open>\<open>advances tasks cells m (ts, cs) (ts', cs')\<close>: from tasks \<open>ts\<close> and cells \<open>cs\<close>, \<open>m\<close> goes on to \<open>ts'\<close> and \<open>cs'\<close>.\<close>

definition advances ::
  "('p \<Rightarrow> 'c task list) \<Rightarrow> ('p \<Rightarrow> static_cell list) \<Rightarrow> ('p, unit, 'e) action \<Rightarrow>
   'c task list \<times> static_cell list \<Rightarrow> 'c task list \<times> static_cell list \<Rightarrow> bool" where
  "advances tasks cells m a b \<longleftrightarrow>
     (\<forall>p. (tasks p, cells p) = a \<longrightarrow> (\<exists>p'. m p = (Ok (), p') \<and> (tasks p', cells p') = b))"

named_theorems advances_intros

lemma advancesE:
  assumes "advances tasks cells m a b" "(tasks p, cells p) = a"
  obtains p' where "m p = (Ok (), p')" "(tasks p', cells p') = b"
  using assms unfolding advances_def by blast

lemma advances_tryA [advances_intros]:
  "advances tasks cells m a b \<Longrightarrow> advances tasks cells n b c \<Longrightarrow> advances tasks cells (tryA m (\<lambda>_. n)) a c"
  unfolding advances_def by (fastforce simp: tryA_def)

lemma advances_ret [advances_intros]: "advances tasks cells (ret ()) a a"
  by (simp add: advances_def ret_def)

lemma advances_must_spawn [advances_intros]:
  "executor_contract x tasks cells \<Longrightarrow> place_left t ts \<Longrightarrow> advances tasks cells (must_spawn x t) (ts, cs) (ts @ [t], cs)"
  unfolding advances_def executor_contract_def must_spawn_def by (fastforce simp: ret_def)

lemma advances_mk_static [advances_intros]:
  "executor_contract x tasks cells \<Longrightarrow> c \<notin> set cs \<Longrightarrow> advances tasks cells (mk_static x c) (ts, cs) (ts, cs @ [c])"
  unfolding advances_def executor_contract_def mk_static_def by (fastforce simp: ret_def)

end
