(* ===== verification/Spawn_Properties.thy ===== *)
theory Spawn_Properties
  imports Spawn
begin

text \<open>
  The spawning of the tasks refines the start of Boot: after a reset it adds the tasks and nothing else.
\<close>

section \<open>Rules\<close>

text \<open>
  \<open>spawning m n p Q\<close>: with the executor \<open>p\<close>, \<open>m\<close> does to the state what \<open>n\<close> does, with the same result, and when it succeeds
  it leaves an executor that \<open>Q\<close> allows. The rules follow the combinators.
\<close>

definition spawning ::
  "('s \<times> 'p, 'a, 'e) process \<Rightarrow> ('s, 'a, 'e) process \<Rightarrow> 'p \<Rightarrow> ('a \<Rightarrow> 'p \<Rightarrow> bool) \<Rightarrow> bool" where
  "spawning m n p Q \<longleftrightarrow>
     (\<forall>s. case n s of
        None \<Rightarrow> m (s, p) = None
      | Some (r, t) \<Rightarrow> \<exists>p'. m (s, p) = Some (r, t, p') \<and> (\<forall>a. r = Ok a \<longrightarrow> Q a p'))"

lemma spawningD:
  assumes "spawning m n p Q"
  shows "n s = None \<Longrightarrow> m (s, p) = None"
    and "n s = Some (r, t) \<Longrightarrow> \<exists>p'. m (s, p) = Some (r, t, p') \<and> (\<forall>a. r = Ok a \<longrightarrow> Q a p')"
  using assms unfolding spawning_def by (auto dest: spec [of _ s])

lemma spawning_mono: "spawning m n p P \<Longrightarrow> (\<And>a p'. P a p' \<Longrightarrow> Q a p') \<Longrightarrow> spawning m n p Q"
  unfolding spawning_def by (fastforce split: option.splits)

lemma spawning_device: "spawning (on_device n) n p (\<lambda>_ p'. p' = p)"
  by (auto simp: spawning_def zoomP_def split: option.split)

lemma spawning_expect: "spawning (on_device (returning (expect x))) (returning (expect x)) p (\<lambda>a p'. p' = p \<and> x = Some a)"
  by (auto simp: spawning_def zoomP_def returning_def expect_def ret_def panic_def split: option.split)

lemma spawning_ret: "Q a p \<Longrightarrow> spawning (returning (ret a)) (returning (ret a)) p Q"
  by (simp add: spawning_def returning_def ret_def)

lemma spawning_tryP:
  assumes m: "spawning m n p P" and k: "\<And>a p'. P a p' \<Longrightarrow> spawning (k a) (l a) p' Q"
  shows "spawning (tryP m k) (tryP n l) p Q"
  unfolding spawning_def
proof
  fix s
  show "case tryP n l s of None \<Rightarrow> tryP m k (s, p) = None
      | Some (r, t) \<Rightarrow> \<exists>p'. tryP m k (s, p) = Some (r, t, p') \<and> (\<forall>a. r = Ok a \<longrightarrow> Q a p')"
  proof (cases "n s")
    case None
    with spawningD(1) [OF m None] show ?thesis by (simp add: tryP_def)
  next
    case (Some q)
    obtain r t where q: "q = (r, t)" by (rule prod.exhaust)
    from spawningD(2) [OF m Some [unfolded q]] obtain p1 where p1: "m (s, p) = Some (r, t, p1)" "\<And>a. r = Ok a \<Longrightarrow> P a p1" by blast
    show ?thesis
    proof (cases r)
      case (Ok a)
      from spawningD [OF k [OF p1(2) [OF Ok]], of t] Some q p1(1) Ok show ?thesis
        by (auto simp: tryP_def split: option.split)
    qed (use Some q p1(1) in \<open>auto simp: tryP_def\<close>)
  qed
qed

lemma spawning_on_device:
  "(\<And>a. spawning (k a) (l a) p Q) \<Longrightarrow> spawning (tryP (on_device n) k) (tryP n l) p Q"
  by (rule spawning_tryP [OF spawning_device]) simp

text \<open>A step on the executor alone is one that the plain start does not have.\<close>

lemma spawning_step:
  assumes step: "advances tasks cells m a b" "(tasks p, cells p) = a"
    and k: "\<And>p'. (tasks p', cells p') = b \<Longrightarrow> spawning (k ()) n p' Q"
  shows "spawning (tryP (returning (on_executor m)) k) n p Q"
proof -
  obtain p' where p': "m p = (Ok (), p')" "(tasks p', cells p') = b" by (rule advancesE [OF step])
  have run: "tryP (returning (on_executor m)) k (s, p) = k () (s, p')" for s
    using p'(1) by (simp add: tryP_def returning_def zoom_def)
  show ?thesis unfolding spawning_def run by (rule k [OF p'(2), unfolded spawning_def])
qed

section \<open>What is spawned\<close>

abbreviation wifi_tasks :: "bytes \<Rightarrow> bytes \<Rightarrow> 'c task list" where
  "wifi_tasks ssid password \<equiv> [Task_Net, Task_Connection ssid password]"

abbreviation main_tasks :: "ntp_client \<Rightarrow> 'c \<Rightarrow> 'c task list" where
  "main_tasks client coordinates \<equiv> [Task_Motor 2, Task_Ntp client, Task_Schedule coordinates, Task_Web 0, Task_Web 1]"

abbreviation wifi_cells :: "static_cell list" where
  "wifi_cells \<equiv> [Cell_EspWifiController, Cell_StackResources]"

lemma advances_spawn_tasks:
  assumes "executor_contract x tasks cells"
  shows "advances tasks cells (spawn_tasks x client coordinates)
    (wifi_tasks ssid password, wifi_cells @ [Cell_Channel])
    (wifi_tasks ssid password @ main_tasks client coordinates, wifi_cells @ [Cell_Channel, Cell_AppRouter, Cell_Config])"
proof -
  have web: "spawn_web_tasks x [0..<WEB_TASK_POOL_SIZE] =
      tryA (must_spawn x (Task_Web 0)) (\<lambda>_. tryA (must_spawn x (Task_Web 1)) (\<lambda>_. ret ()))"
    by (simp add: WEB_TASK_POOL_SIZE_def upt_rec)
  have "advances tasks cells (spawn_tasks x client coordinates)
    (wifi_tasks ssid password, wifi_cells @ [Cell_Channel])
    ((((((wifi_tasks ssid password @ [Task_Motor 2]) @ [Task_Ntp client]) @ [Task_Schedule coordinates]) @ [Task_Web 0]) @ [Task_Web 1]),
      ((wifi_cells @ [Cell_Channel]) @ [Cell_AppRouter]) @ [Cell_Config])"
    unfolding spawn_tasks_def web
    by ((rule advances_tryA, (rule advances_must_spawn [OF assms] | rule advances_mk_static [OF assms]),
        simp add: place_left_def WEB_TASK_POOL_SIZE_def)+, rule advances_ret)
  then show ?thesis by simp
qed

text \<open>\<open>connect\<close> on an empty executor is \<open>wifi_connect\<close> with the two tasks of the network.\<close>

lemma connect_spawning_run:
  fixes dev :: "('w, 'am, 'cfg, 'i, 'x) wifi_ops"
  assumes x: "executor_contract x tasks cells" and p: "tasks p = []" "cells p = []"
    and run: "connect_spawning x dev random ssid password (w, p) = (r, t, p')"
  shows "wifi_connect dev random ssid password w = (r, t) \<and>
    (\<forall>a. r = Ok a \<longrightarrow> tasks p' = wifi_tasks ssid password \<and> cells p' = wifi_cells)"
proof -
  obtain p1 where p1: "mk_static x Cell_EspWifiController p = (Ok () :: (unit, ('i, 'x) wifi_error) outcome, p1)"
    "(tasks p1, cells p1) = ([], [Cell_EspWifiController])"
    by (rule advancesE [OF advances_mk_static [OF x, where c = Cell_EspWifiController and ts = "[]" and cs = "[]"], of p]) (simp_all add: p)
  obtain p2 where p2: "mk_static x Cell_StackResources p1 = (Ok () :: (unit, ('i, 'x) wifi_error) outcome, p2)"
    "(tasks p2, cells p2) = ([], wifi_cells)"
    by (rule advancesE [OF advances_mk_static [OF x, where c = Cell_StackResources and ts = "[]" and cs = "[Cell_EspWifiController]"], of p1])
      (use p1(2) in simp_all)
  obtain p3 where p3: "must_spawn x Task_Net p2 = (Ok () :: (unit, ('i, 'x) wifi_error) outcome, p3)"
    "(tasks p3, cells p3) = ([Task_Net], wifi_cells)"
    by (rule advancesE [OF advances_must_spawn [OF x, where t = Task_Net and ts = "[]" and cs = wifi_cells], of p2])
      (use p2(2) in \<open>simp_all add: place_left_def\<close>)
  obtain p4 where p4: "must_spawn x (Task_Connection ssid password) p3 = (Ok () :: (unit, ('i, 'x) wifi_error) outcome, p4)"
    "(tasks p4, cells p4) = (wifi_tasks ssid password, wifi_cells)"
    by (rule advancesE [OF advances_must_spawn [OF x, where t = "Task_Connection ssid password" and ts = "[Task_Net]" and cs = wifi_cells], of p3])
      (use p3(2) in \<open>simp_all add: place_left_def\<close>)
  from run p4(2) show ?thesis
    by (auto simp: connect_spawning_def wifi_connect_def p1(1) p2(1) p3(1) p4(1)
        tryA_def zoom_def external_def modify_def ret_def Let_def split: prod.splits sum.splits if_splits)
qed

lemma spawning_connect:
  fixes dev :: "('w, 'am, 'cfg, 'i, 'x) wifi_ops" and random :: "'r random"
  assumes x: "executor_contract x tasks cells" and p: "tasks p = []" "cells p = []"
  shows "spawning (returning (zoom (\<lambda>s. (dv_wifi (fst s), snd s)) (\<lambda>(w, p) s. ((fst s)\<lparr>dv_wifi := w\<rparr>, p))
       (map_err Wifi_Error (connect_spawning x dev random ssid password))))
     (returning (on_wifi (map_err Wifi_Error (wifi_connect dev random ssid password))))
     p (\<lambda>_ p'. (tasks p', cells p') = (wifi_tasks ssid password, wifi_cells))"
  unfolding spawning_def
proof (rule allI, goal_cases)
  case (1 s)
  obtain r t p' where c: "connect_spawning x dev random ssid password (dv_wifi s, p) = (r, t, p')"
    by (metis prod.exhaust)
  from connect_spawning_run [OF x p c] show ?case
    by (cases r) (auto simp: returning_def zoom_def map_err_def c)
qed

lemma spawning_start:
  assumes x: "executor_contract x tasks cells" and p: "tasks p = []" "cells p = []"
  shows "spawning (start_spawning x env ssid password coordinates) (start_after_credentials env ssid password coordinates) p
    (\<lambda>(client, c) p'. c = coordinates \<and> tasks p' = wifi_tasks ssid password @ main_tasks client coordinates)"
  unfolding start_spawning_def start_after_credentials_def
  by (rule spawning_tryP, rule spawning_connect [OF x p], rule spawning_on_device, rule spawning_on_device,
      rule spawning_step [OF advances_mk_static [OF x, where ts = "wifi_tasks ssid password" and cs = wifi_cells]],
      simp, assumption, rule spawning_on_device, rule spawning_on_device,
      rule spawning_step [OF advances_spawn_tasks [OF x]], assumption, rule spawning_ret, simp)

lemma spawning_main:
  assumes x: "executor_contract x tasks cells" and p: "tasks p = []" "cells p = []"
  shows "spawning (main_spawning x env) (main_fallible env) p
    (\<lambda>(client, coordinates) p'. be_coordinates env = Some coordinates \<and>
       (\<exists>ssid password. tasks p' = wifi_tasks ssid password @ main_tasks client coordinates))"
  unfolding main_spawning_def main_fallible_def
  by (rule spawning_on_device, rule spawning_tryP, rule spawning_expect, clarify, rule spawning_on_device, clarify,
      rule spawning_mono, rule spawning_start [OF x p]) auto

text \<open>C12: After a reset the spawning of the tasks and the static cells are invisible: no spawn finds its pool full and no cell is taken
  twice, so that a start does what \<open>main_fallible\<close> does; and when it succeeds exactly these tasks run: the network, the
  connection, the motor, the NTP task with the client of this start, the schedule with the position, and two web servers.\<close>

theorem start_spawns_tasks:
  assumes "executor_contract x tasks cells" "tasks p = []" "cells p = []"
  shows "case main_fallible env s of
      None \<Rightarrow> main_spawning x env (s, p) = None
    | Some (r, t) \<Rightarrow> \<exists>p'. main_spawning x env (s, p) = Some (r, t, p') \<and>
        (\<forall>client coordinates. r = Ok (client, coordinates) \<longrightarrow> be_coordinates env = Some coordinates \<and>
           (\<exists>ssid password. tasks p' = [Task_Net, Task_Connection ssid password, Task_Motor 2, Task_Ntp client,
              Task_Schedule coordinates, Task_Web 0, Task_Web 1]))"
proof (cases "main_fallible env s")
  case None
  with spawningD(1) [OF spawning_main [OF assms] None] show ?thesis by simp
next
  case (Some q)
  obtain r t where "q = (r, t)" by (rule prod.exhaust)
  with spawningD(2) [OF spawning_main [OF assms], of env s r t] Some show ?thesis by fastforce
qed

theorem start_spawns_tasks_witness:
  "\<exists>t p. main_spawning list_executor release_env (old_device, [], []) =
      Some (Ok (\<lparr>ntp_socket = (0x7f000001, NTP_PORT)\<rparr>, ()) ::
        (ntp_client \<times> unit, (unit, unit, unit, unit, unit) blind_error) outcome, t, p) \<and> length (fst p) = 7"
proof -
  obtain t where t: "main_fallible release_env old_device =
      Some (Ok (\<lparr>ntp_socket = (0x7f000001, NTP_PORT)\<rparr>, ()) ::
        (ntp_client \<times> unit, (unit, unit, unit, unit, unit) blind_error) outcome, t)"
    using release_boot by blast
  from start_spawns_tasks [OF list_executor_contract, of "([], [])" release_env old_device, unfolded t] show ?thesis
    by (intro exI [of _ t]) fastforce
qed

text \<open>Without a reset there is no second start: the first cell is taken. After an error \<open>main\<close> therefore cannot try again, and sleeps.\<close>

lemma no_second_connect:
  assumes "executor_contract x tasks cells" "Cell_EspWifiController \<in> set (cells p)"
  shows "fst (connect_spawning x dev random ssid password (w, p)) = Panic"
proof -
  have "uninit x Cell_EspWifiController p = None" using assms by (simp add: executor_contract_def)
  then show ?thesis
    by (simp add: connect_spawning_def mk_static_def tryA_def zoom_def panic_def split: prod.split)
qed

end
