(* ===== verification/Spec2Isabelle.thy ===== *)
theory Spec2Isabelle
  imports Life_Update Life_Properties System_Properties Boot_Properties Ota_Properties Crc Time_Properties Motor_Properties Http_Properties
    Wifi_Properties Connection_Task Wifi_Shutdown Ntp_Task_Properties Controller_Properties Credentials_Properties
    Credentials_Type Web_Properties Build Logging Panic_Properties Task_Panics Start_Returns Spawn_Properties
begin

text \<open>
  Verification of the blind controller firmware (cs2dsb/blind_controller.rs), a Rust firmware for an
  ESP32 that raises a blind at half past twelve and lowers it at sunset.

  \<^bold>\<open>The program.\<close> At every start \<open>main_fallible\<close> (src/bin/blind.rs) takes the WiFi credentials from the
  binary or from the non-volatile store (src/nvs.rs), connects (src/wifi.rs, with a cache in memory
  that survives deep sleep), asks a web server over HTTP (src/http.rs, seeded by src/rng.rs) for the date of the
  published firmware, and installs the firmware if it is newer than the running one (src/ota.rs over the
  partitions of src/partitions.rs). It then configures the clock (src/system_time.rs) and spawns the tasks:
  one synchronises the clock by NTP (src/ntp.rs) and switches it between winter and summer time, one
  decides from the clock and the sunset where the blind should be, one drives the stepper motor, and two serve
  a web application. The schedule and the web application command the motor over one channel. An error
  sends the device to sleep for ten seconds, after which it starts again. src/logging.rs prints the log.

  \<^bold>\<open>The theories.\<close> Each models a part of the program; definitions bear the name of the function or
  type they translate where Isabelle permits.
  \<^item> \<open>Prelude\<close>: machine integers, the three ways a call ends (\<open>outcome\<close>: a value, an error, a panic), the
    sequencing by \<open>?\<close> (\<open>tryA\<close>), calls that may never complete (\<open>process\<close>, sequenced by \<open>tryP\<close>), memory as a function, the byte
    codecs. \<open>Text\<close>: UTF-8, decimal
    output and \<open>i64::from_str_radix\<close> of the standard library.
  \<^item> \<open>Partitions\<close>: partitions.csv and the constants the macro crate makes of it. \<open>Flash\<close>: the interface to a
    flash driver, its contract, the locale \<open>sector_store\<close> for what is stored through windows of it, and
    a reference device in memory, on which the instances run.
  \<^item> \<open>Select_Entry\<close>, \<open>Ota\<close>: the OTA selection entries and the operations of \<open>Ota\<close>; \<open>Ota_Correct\<close> has the
    lemmas on what they do to the flash, \<open>Ota_Properties\<close> the properties. \<open>Crc\<close>: the parameters of the checksum
    and what they protect.
  \<^item> \<open>Nvs\<close>, \<open>Credentials\<close>: the store and the credentials in it; \<open>Credentials_Properties\<close>;
    \<open>Credentials_Type\<close> shows that they have the string types the source declares.
  \<^item> \<open>Time_Api\<close>, \<open>System_Time\<close>, \<open>Ntp\<close>: the calendar as an interface with a reference instance, the clock, and
    the NTP client; \<open>Time_Properties\<close>. \<open>Ntp_Task\<close>: the hourly turn with the daylight saving rule;
    \<open>Ntp_Task_Properties\<close>.
  \<^item> \<open>Rng_Wrapper\<close>, \<open>Http\<close>: random numbers and the HTTP client; \<open>Http_Properties\<close>.
  \<^item> \<open>Wifi\<close>: the cache, \<open>connect\<close>, \<open>wait_for_connection\<close>, and the turns of the connection task;
    \<open>Wifi_Properties\<close> has a relation for all histories of boots, sleeps and turns. \<open>Connection_Task\<close>: the loop over the turns
    and its end. \<open>Wifi_Shutdown\<close>: the handles, and the shutdown as a protocol of two tasks over signals.
  \<^item> \<open>Motor\<close>: a command as the trace of pin changes and waits it makes, and the chip that interprets the
    trace; \<open>Motor_Properties\<close>. \<open>Schedule\<close>: one turn of the schedule task. \<open>Controller\<close>: the tasks
    interleaved over the channel as a step relation, in which every pin change and every wait of the motor is
    a step; \<open>Controller_Invariants\<close>; \<open>Controller_Properties\<close>. There the schedule may take its turns at any clock; \<open>System\<close>
    puts all the tasks, the NTP task among them, on one clock and refines the controller; \<open>System_Properties\<close>.
    \<open>Web\<close>: pages and routes; \<open>Web_Properties\<close>.
  \<^item> \<open>Blind_Error\<close>: the error type of the firmware. \<open>Boot\<close>: \<open>main\<close> and \<open>main_fallible\<close>; \<open>Boot_Correct\<close> shows that
    the installation over HTTP refines the update of \<open>Ota\<close> and that a start is confined;
    \<open>Boot_Properties\<close>. \<open>Life\<close>: a device over any number of starts and runs, with what a deep sleep and a loss of power
    keep; \<open>Life_Properties\<close>; \<open>Life_Update\<close> is about updates over a life. \<open>Build\<close>: the build script build.rs. \<open>Logging\<close>: the logger.
  \<^item> \<open>Panic_Free\<close>: which calls panic and when, function by function up to \<open>main_fallible\<close>, with rules for the
    sequencing that carry most of the proofs; \<open>Panic_Properties\<close> and \<open>Task_Panics\<close> have what follows for a start and
    for the tasks. \<open>Start_Returns\<close>: the loops of a start end. \<open>Spawn\<close>: the start with its
    spawned tasks, their pools and the cells \<open>mk_static\<close> fills, over an executor that may run the spawned tasks at
    every point; \<open>Spawn_Properties\<close> shows that it refines the start of \<open>Boot\<close>.

  \<^bold>\<open>How the code is rendered.\<close> State is passed explicitly, as records; \<open>('s, 'a, 'e) action\<close> is a call that may
  fail or panic; \<open>('s, 'a, 'e) process\<close> is one that awaits something as well, with the result \<open>None\<close> when it never completes: every
  call of a library that the code awaits (the HTTP requests, the resolver, the time server, the radio, the signals) is such a
  parameter, since the code sets no timeout for any. The step relations \<open>task_step\<close>, \<open>controller_step\<close>, \<open>system_step\<close> and \<open>life_step\<close>
  (with \<open>restarted\<close>) are not translations of lines: they are the semantics given to the executor, which runs the translated
  operations of the tasks in any order, and to the hardware, which keeps what the sources place in RTC memory. Likewise
  \<open>perform_update\<close> is the update of \<open>Ota\<close> with the chunks given, which \<open>install_update\<close>, the translation, refines. Integers are words of the width of the source and wrap, as they do in the release profile
  the firmware is built with; \<open>usize\<close> has 32 bits. Loops without a bound in the code (redirects, the body of a
  response, polling) are \<open>partial_function (option)\<close>, where \<open>None\<close> is a loop that never ends;
  \<open>download_ends\<close> shows that the body loop ends, \<open>redirects_followed_forever\<close> when the loop over
  redirects does. Its bounded version \<open>req_fuel\<close> is used in proofs only, where some bound is shown to exist.
  Code outside the repository (the flash driver, the CRC, the calendar, the NTP and HTTP libraries, the
  radio, the channel, the fixed-capacity string) is a parameter, an argument of the definitions, and what
  the code relies on is a named hypothesis (\<open>flash_contract\<close>, \<open>time_contract\<close>, \<open>net_contract\<close>,
  \<open>scan_contract\<close>, \<open>channel_contract\<close>, \<open>signal_contract\<close>, \<open>string_contract\<close>, \<open>body_fits\<close>, \<open>small_chunks\<close>, \<open>standard_crc\<close>,
  \<open>calendar_contract\<close>, \<open>get_time_contract\<close>, \<open>executor_contract\<close>, \<open>torn_entries_invalid\<close>, \<open>network_comes_up\<close>, \<open>http_completes\<close>, \<open>dns_completes\<close>, \<open>acyclic_redirects\<close>, \<open>bodies_fit\<close>). Every
  such hypothesis is met by a concrete instance in the theorems named \<open>_witness\<close>.

  \<^bold>\<open>What is shown.\<close> A start that reaches the tasks has installed the published image exactly when it is newer,
  and no start, however it ends, changes the flash outside the store, the slot being updated and the
  sector of its OTA entry. An update that returns has stored the image in the slot the code chooses; a commit returns exactly when
  its decision agrees with that of the preparation. Credentials that were saved are loaded; a save that is cut between two of its
  writes leaves the old ones, the new ones or none. The clock reads what it was set to and runs on, and an NTP answer corrects it,
  with the exceptions of a time of zero and of times that debug logging cannot print; failures keep it. A start returns if the
  network comes up, the awaited calls complete, redirects end and the announced lengths fit 32 bits; against a server that never
  answers it does not (\<open>silent_server_no_tasks\<close>). It panics for one of four
  causes only (a build date or a position in the binary that is not one, a server that sends too much, and entries on which
  commit and preparation disagree), and the entries of a device with a valid one exclude the last for its whole life, if a failed
  write of an entry does not leave it valid; the tasks do not panic. Every task is spawned once, into a pool with room, and every cell
  is filled once. From the clock to
  the blind: as long as the web application sends no commands, on the clock of the running system, which is synchronised by then,
  it ends up and stays where the daylight wants it, and is where the schedule wants it under any interleaving of the tasks. It
  does not leave its range on the way, and the controller refines the motor task run alone: it makes the pin changes of the commands received, in their
  order, and can always go on until all are carried out. The driver is only ever given
  configurations with access points of the network to be joined; the connection task survives failed attempts to connect, and ends
  with an error of another call of the driver or never. Over the whole life of a device the bootloader and
  the partition table are never touched, the valid firmware that the first update does not replace is kept, nothing is
  installed while the published firmware is not newer, and the clock is at
  the offset of the United Kingdom.
  Some theorems state behaviour the code has and, it seems, should not: \<open>next_update_chooses_same_slot\<close>,
  \<open>blank_device_never_runs\<close>, \<open>start_panic_causes\<close>, \<open>commit_parity_can_break\<close>, \<open>autumn_offset_flips\<close>,
  \<open>sunset_read_as_local_time\<close>, \<open>redirects_followed_forever\<close>, \<open>cached_ap_never_rescanned\<close>,
  \<open>exhausted_address_never_refreshed\<close>, \<open>nvs_bounds_wrap\<close>, \<open>clock_set_to_zero\<close>, \<open>manual_move_wraps\<close>,
  \<open>restart_lowers_again\<close>, \<open>night_restart_lowers_further\<close>, \<open>no_first_ntp_request\<close>, \<open>shutdown_waits_for_ever\<close>, \<open>silent_server_no_tasks\<close>.

  \<^bold>\<open>Not modelled.\<close> The initialisation of the timers, the heap and the executor, the HTTP server and the network
  runner (tasks of libraries, which \<open>Spawn\<close> only spawns), the texts of log messages, and the scripts,
  containers and CAD files. How long a task sleeps between two turns is left open. The bootloader, which reads the
  OTA entries, is not part of the repository: which firmware a start runs is left open in \<open>Life\<close>.
\<close>

end
